theory Spec2Isabelle
  imports Complex_Main "HOL-Library.Word"
begin

section \<open>Data model\<close>

text \<open>
  Tensors are kept as a shape and the row-major list of their entries. The
  entries are float32 in the program; here they are real numbers, so every
  statement below is about the arithmetic the code writes down, not about its
  rounding.
\<close>

record tensor =
  shape :: "nat list"
  data :: "real list"

text \<open>The exceptions the modelled functions raise.\<close>

datatype error =
  ValueError string
  | RuntimeError string
  | ZeroDivisionError
  | IndexError
  | KeyError string
  | AttributeError
  | StopIteration
  | NameError

text \<open>\<^verbatim>\<open>torch.FloatTensor(xs).view(*shp)\<close>: the entries stay in place, and the
  call raises unless the new shape has as many entries as the list.\<close>

definition view :: "real list \<Rightarrow> nat list \<Rightarrow> error + tensor" where
  "view xs shp =
     (if prod_list shp = length xs then Inr \<lparr>shape = shp, data = xs\<rparr>
      else Inl (RuntimeError ''shape is invalid for input size''))"

section \<open>SteganoGAN._make_payload\<close>

text \<open>
  \<^verbatim>\<open>
    message = text_to_bits(text) + [0] * 32
    payload = message
    while len(payload) < width * height * depth:
        payload += message
    payload = payload[:width * height * depth]
    return torch.FloatTensor(payload).view(1, depth, height, width)
  \<close>
  \<^verbatim>\<open>payload\<close> and \<^verbatim>\<open>message\<close> name the same list object and \<^verbatim>\<open>+=\<close>
  extends a list in place, so each iteration appends the list to itself: the
  loop body is \<open>payload := payload @ payload\<close>. The loop is written as the
  source has it, with no bound on the number of iterations; that it returns
  is a theorem below. \<^verbatim>\<open>text_to_bits\<close> lives in a module that is not part
  of the sources at hand, so its result is the argument \<open>text_bits\<close>.
\<close>

partial_function (option) payload_loop :: "int list \<Rightarrow> nat \<Rightarrow> int list option" where
  "payload_loop payload n =
     (if length payload < n then payload_loop (payload @ payload) n
      else Some payload)"

definition make_payload ::
  "nat \<Rightarrow> nat \<Rightarrow> nat \<Rightarrow> int list \<Rightarrow> (error + tensor) option" where
  "make_payload width height depth text_bits =
     (let message = text_bits @ replicate 32 0 in
      case payload_loop message (width * height * depth) of
        None \<Rightarrow> None
      | Some payload \<Rightarrow>
          Some (view (map real_of_int (take (width * height * depth) payload))
                  [1, depth, height, width]))"

section \<open>SteganoGAN.decode\<close>

type_synonym byte = "8 word"

text \<open>What \<^verbatim>\<open>imread(path, pilmode='RGB')\<close> returns: an array of shape
  \<open>(rows, cols, 3)\<close> of bytes, read by row, column and channel.\<close>

record image =
  rows :: nat
  cols :: nat
  pixel :: "nat \<Rightarrow> nat \<Rightarrow> nat \<Rightarrow> byte"

text \<open>
  \<^verbatim>\<open>
    image = imread(image, pilmode='RGB') / 255.0
    image = torch.FloatTensor(image).permute(2, 1, 0).unsqueeze(0)
  \<close>
  The entry at \<open>(0, c, x, y)\<close> of the result is the entry at \<open>(y, x, c)\<close> of the
  array, divided by 255.
\<close>

definition image_tensor :: "image \<Rightarrow> tensor" where
  "image_tensor img =
     \<lparr>shape = [1, 3, cols img, rows img],
      data = concat (map (\<lambda>c. concat (map (\<lambda>x. map (\<lambda>y.
               real (unat (pixel img y x c)) / 255) [0..<rows img]) [0..<cols img])) [0..<3])\<rparr>"

text \<open>\<^verbatim>\<open>bytearray.split(b'\x00\x00\x00\x00')\<close>: the pieces between the
  occurrences of four zero bytes, found from the left and not overlapping.
  \<open>cur\<close> holds the piece being read, last byte first.\<close>

fun split_terminator :: "byte list \<Rightarrow> byte list \<Rightarrow> byte list list" where
  "split_terminator cur (a # b # c # d # rest) =
     (if a = 0 \<and> b = 0 \<and> c = 0 \<and> d = 0 then rev cur # split_terminator [] rest
      else split_terminator (a # cur) (b # c # d # rest))"
| "split_terminator cur (a # rest) = split_terminator (a # cur) rest"
| "split_terminator cur [] = [rev cur]"

text \<open>\<^verbatim>\<open>collections.Counter\<close>: a dictionary, which keeps its keys in the
  order of their first insertion. \<^verbatim>\<open>candidates[candidate] += 1\<close>:\<close>

fun counter_incr :: "('k \<times> nat) list \<Rightarrow> 'k \<Rightarrow> ('k \<times> nat) list" where
  "counter_incr [] k = [(k, 1)]"
| "counter_incr ((k', n) # rest) k =
     (if k' = k then (k', n + 1) # rest else (k', n) # counter_incr rest k)"

text \<open>\<^verbatim>\<open>most_common(1)\<close> is \<^verbatim>\<open>heapq.nlargest(1, items, key=count)\<close>, which
  for one element is \<^verbatim>\<open>max(items, key=count)\<close>: a scan that replaces the best
  item so far only by one with a strictly larger count.\<close>

fun first_max :: "('k \<times> nat) \<Rightarrow> ('k \<times> nat) list \<Rightarrow> ('k \<times> nat)" where
  "first_max best [] = best"
| "first_max best (kc # rest) =
     (if snd best < snd kc then first_max kc rest else first_max best rest)"

definition most_common1 :: "('k \<times> nat) list \<Rightarrow> ('k \<times> nat) list" where
  "most_common1 items = (case items of [] \<Rightarrow> [] | kc # rest \<Rightarrow> [first_max kc rest])"

text \<open>
  The body of the loop over the fragments:
  \<^verbatim>\<open>
    candidate = bytearray_to_text(bytearray(candidate))
    if candidate:
        candidates[candidate] += 1
  \<close>
  \<^verbatim>\<open>bytearray_to_text\<close> is not part of the sources at hand; it is the
  parameter \<open>b2t\<close>, which yields a text or \<open>None\<close> for a value that is not
  one. \<^verbatim>\<open>if candidate\<close> lets neither that nor the empty text through.
\<close>

definition tally ::
  "(byte list \<Rightarrow> string option) \<Rightarrow> (string \<times> nat) list \<Rightarrow> byte list \<Rightarrow> (string \<times> nat) list" where
  "tally b2t candidates fragment =
     (case b2t fragment of
        None \<Rightarrow> candidates
      | Some text \<Rightarrow> if text = [] then candidates else counter_incr candidates text)"

text \<open>
  Lines 409 to 422 of \<^verbatim>\<open>decode\<close>, from the bit list on.
  \<^verbatim>\<open>bits_to_bytearray\<close> is the parameter \<open>b2b\<close>.
  \<^verbatim>\<open>
    candidates = Counter()
    for candidate in bits_to_bytearray(bits).split(b'\x00\x00\x00\x00'):
        ...
    if len(candidates) == 0:
        raise ValueError('Failed to find message.')
    candidate, count = candidates.most_common(1)[0]
    return candidate
  \<close>
\<close>

definition decode_bits ::
  "(bool list \<Rightarrow> byte list) \<Rightarrow> (byte list \<Rightarrow> string option) \<Rightarrow> bool list \<Rightarrow> error + string" where
  "decode_bits b2b b2t bits =
     (let candidates = foldl (tally b2t) [] (split_terminator [] (b2b bits)) in
      if length candidates = 0 then Inl (ValueError ''Failed to find message.'')
      else case most_common1 candidates of
             [] \<Rightarrow> Inl IndexError
           | (candidate, count) # _ \<Rightarrow> Inr candidate)"

text \<open>What \<^verbatim>\<open>decode\<close> reads from outside: the file system, the image
  reader, the trained decoder and the two helpers of the missing module.\<close>

record decode_env =
  path_exists :: "string \<Rightarrow> bool"
  imread :: "string \<Rightarrow> error + image"
  decoder :: "tensor \<Rightarrow> tensor"
  bits_to_bytearray :: "bool list \<Rightarrow> byte list"
  bytearray_to_text :: "byte list \<Rightarrow> string option"

text \<open>
  \<^verbatim>\<open>
    if not os.path.exists(image):
        raise ValueError('Unable to read %s.' % image)
    image = imread(image, pilmode='RGB') / 255.0
    image = torch.FloatTensor(image).permute(2, 1, 0).unsqueeze(0)
    image = self.decoder(image).view(-1) > 0
    bits = image.data.cpu().numpy().tolist()
  \<close>
\<close>

definition decode :: "decode_env \<Rightarrow> string \<Rightarrow> error + string" where
  "decode env path =
     (if \<not> path_exists env path then Inl (ValueError (''Unable to read '' @ path @ ''.''))
      else case imread env path of
             Inl e \<Rightarrow> Inl e
           | Inr img \<Rightarrow>
               let bits = map (\<lambda>x. 0 < x) (data (decoder env (image_tensor img)))
               in decode_bits (bits_to_bytearray env) (bytearray_to_text env) bits)"

text \<open>The claims about \<^verbatim>\<open>decode\<close> in their own words: the texts of the
  fragments that decode to a text that is not empty, in the order of the
  fragments, and the first of a list's elements that no element occurs more
  often than.\<close>

definition decoded_texts :: "(byte list \<Rightarrow> string option) \<Rightarrow> byte list list \<Rightarrow> string list" where
  "decoded_texts b2t fragments =
     concat (map (\<lambda>f. case b2t f of None \<Rightarrow> [] | Some t \<Rightarrow> if t = [] then [] else [t]) fragments)"

definition most_frequent_first :: "'a list \<Rightarrow> 'a option" where
  "most_frequent_first xs =
     find (\<lambda>x. list_all (\<lambda>y. count_list xs y \<le> count_list xs x) xs) xs"

text \<open>The keys of a counter that has counted \<open>xs\<close>: the elements of \<open>xs\<close>
  in the order of their first occurrence.\<close>

definition first_occ :: "'a list \<Rightarrow> 'a list" where
  "first_occ xs = rev (remdups (rev xs))"

text \<open>
  Modelled from the spec: \<^verbatim>\<open>bits_to_bytearray\<close> and \<^verbatim>\<open>bytearray_to_text\<close>
  of the missing module \<^verbatim>\<open>utils\<close>, after "split the flattened bit stream
  into byte groups" and "decode each candidate fragment as UTF-8 (invalid
  fragments are skipped, not fatal)". \<open>bits_to_bytes\<close> reads eight bits as
  one byte, the first bit the highest, and drops an incomplete last group;
  \<open>ascii_text\<close> decodes the one-byte part of UTF-8 only and reports any
  fragment with a byte above 127 as invalid. Both serve as instances of the
  parameters \<open>b2b\<close> and \<open>b2t\<close> on concrete inputs, nowhere else.
\<close>

fun bits_to_bytes :: "bool list \<Rightarrow> byte list" where
  "bits_to_bytes (b7 # b6 # b5 # b4 # b3 # b2 # b1 # b0 # rest) =
     word_of_nat (foldl (\<lambda>n b. 2 * n + (if b then 1 else 0)) 0
                    [b7, b6, b5, b4, b3, b2, b1, b0])
       # bits_to_bytes rest"
| "bits_to_bytes _ = []"

definition ascii_text :: "byte list \<Rightarrow> string option" where
  "ascii_text bs =
     (if list_all (\<lambda>b. b < 128) bs then Some (map (\<lambda>b. char_of (unat b)) bs) else None)"

text \<open>The bits of \<open>A\<close>, the terminator, \<open>A\<close>, the terminator, \<open>B\<close>.\<close>

definition aab_bits :: "bool list" where
  "aab_bits =
     [False, True, False, False, False, False, False, True] @ replicate 32 False @
     [False, True, False, False, False, False, False, True] @ replicate 32 False @
     [False, True, False, False, False, False, True, False]"

text \<open>
  An image of four rows and four columns, as \<^verbatim>\<open>imread\<close> returns it: red is
  255 in the two columns on the left, blue is 255 at row 1 of column 2 and
  at row 3 of column 3, and every other byte is 0. Read channel by channel,
  column by column and row by row, the bytes that are 255 spell the byte
  \<open>255\<close>, the terminator and the byte \<open>65\<close>, the letter \<open>A\<close>.
\<close>

definition stego_image :: image where
  "stego_image =
     \<lparr>rows = 4, cols = 4,
      pixel = (\<lambda>y x c. if c = 0 \<and> x < 2 then 255
                       else if c = 2 \<and> (x = 2 \<and> y = 1 \<or> x = 3 \<and> y = 3) then 255
                       else 0)\<rparr>"

text \<open>An image of two rows and two columns, all white.\<close>

definition white_image :: image where
  "white_image = \<lparr>rows = 2, cols = 2, pixel = (\<lambda>y x c. 255)\<rparr>"

text \<open>
  What \<^verbatim>\<open>decode\<close> is given in the examples: a directory with an image
  \<^verbatim>\<open>stego.png\<close> and a file \<^verbatim>\<open>notes.txt\<close> that is no image, on which
  \<^verbatim>\<open>imread\<close> raises; a decoder of three channels whose logit at an entry
  of the image is the entry less one half; and the two helpers above.
\<close>

definition reader_env :: "image \<Rightarrow> decode_env" where
  "reader_env img =
     \<lparr>path_exists = (\<lambda>p. p = ''stego.png'' \<or> p = ''notes.txt''),
      imread = (\<lambda>p. if p = ''stego.png'' then Inr img
                      else Inl (ValueError ''Could not find a format to read the specified file in single-image mode'')),
      decoder = (\<lambda>t. \<lparr>shape = shape t, data = map (\<lambda>v. v - 1 / 2) (data t)\<rparr>),
      bits_to_bytearray = bits_to_bytes,
      bytearray_to_text = ascii_text\<rparr>"

section \<open>Training: tensors, losses and metrics\<close>

text \<open>The parameters of a network: one list of entries for each parameter
  tensor, in the order of \<^verbatim>\<open>parameters()\<close>.\<close>

type_synonym params = "real list list"

text \<open>\<^verbatim>\<open>torch.mean\<close> and \<^verbatim>\<open>numel\<close>. On an empty tensor \<^verbatim>\<open>torch.mean\<close> is
  nan, which is no real number; here the quotient is HOL's, and the
  statements that depend on it are made for tensors with an entry.\<close>

definition tmean :: "real list \<Rightarrow> real" where
  "tmean xs = sum_list xs / real (length xs)"

definition numel :: "tensor \<Rightarrow> nat" where
  "numel t = length (data t)"

text \<open>\<^verbatim>\<open>torch.nn.functional.mse_loss\<close> and
  \<^verbatim>\<open>binary_cross_entropy_with_logits\<close>, with the mean reduction, for tensors
  of one shape. The second raises on tensors of different shapes; the first
  tries to broadcast them and raises when it cannot, and the broadcast is
  not modelled: here it raises on every pair of different shapes.\<close>

definition mse_loss :: "tensor \<Rightarrow> tensor \<Rightarrow> error + real" where
  "mse_loss input target =
     (if shape input \<noteq> shape target
      then Inl (RuntimeError ''The size of tensor a must match the size of tensor b'')
      else Inr (tmean (map2 (\<lambda>x y. (x - y)\<^sup>2) (data input) (data target))))"

definition binary_cross_entropy_with_logits :: "tensor \<Rightarrow> tensor \<Rightarrow> error + real" where
  "binary_cross_entropy_with_logits input target =
     (if shape input \<noteq> shape target
      then Inl (ValueError ''Target size must be the same as input size'')
      else Inr (tmean (map2 (\<lambda>x y. max x 0 - x * y + ln (1 + exp (- \<bar>x\<bar>)))
                         (data input) (data target))))"

text \<open>
  \<^verbatim>\<open>
    def _coding_scores(self, cover, generated, payload, decoded):
        encoder_mse = mse_loss(generated, cover)
        decoder_loss = binary_cross_entropy_with_logits(decoded, payload)
        decoder_acc = (decoded >= 0.0).eq(payload >= 0.5).sum().float() / payload.numel()
        return encoder_mse, decoder_loss, decoder_acc
  \<close>
\<close>

definition decoder_acc :: "tensor \<Rightarrow> tensor \<Rightarrow> real" where
  "decoder_acc decoded payload =
     real (length (filter (\<lambda>(d, p). (0 \<le> d) = (0.5 \<le> p)) (zip (data decoded) (data payload))))
       / real (numel payload)"

definition coding_scores ::
  "tensor \<Rightarrow> tensor \<Rightarrow> tensor \<Rightarrow> tensor \<Rightarrow> error + (real \<times> real \<times> real)" where
  "coding_scores cover generated payload decoded =
     (case mse_loss generated cover of
        Inl e \<Rightarrow> Inl e
      | Inr encoder_mse \<Rightarrow>
          (case binary_cross_entropy_with_logits decoded payload of
             Inl e \<Rightarrow> Inl e
           | Inr decoder_loss \<Rightarrow> Inr (encoder_mse, decoder_loss, decoder_acc decoded payload)))"

text \<open>\<^verbatim>\<open>METRIC_FIELDS\<close>, and the dictionary
  \<^verbatim>\<open>{field: list() for field in METRIC_FIELDS}\<close> with its keys in that order.\<close>

definition METRIC_FIELDS :: "string list" where
  "METRIC_FIELDS =
     [''val.encoder_mse'', ''val.decoder_loss_g'', ''val.decoder_loss_t'',
      ''val.decoder_acc_g'', ''val.decoder_acc_t'', ''val.cover_score'',
      ''val.generated_score'', ''val.ssim'', ''val.psnr'', ''val.bpp_g'', ''val.bpp_t'',
      ''val.perceptual_loss'', ''train.encoder_mse'', ''train.decoder_loss_t'',
      ''train.decoder_loss_g'', ''train.perceptual_loss'', ''train.decoder_acc_t'',
      ''train.decoder_acc_g'', ''train.cover_score'', ''train.generated_score'']"

type_synonym metrics = "(string \<times> real list) list"

definition new_metrics :: metrics where
  "new_metrics = map (\<lambda>field. (field, [])) METRIC_FIELDS"

text \<open>\<^verbatim>\<open>metrics[key].append(value)\<close>, and a run of such statements.\<close>

definition append_metric :: "metrics \<Rightarrow> string \<Rightarrow> real \<Rightarrow> error + metrics" where
  "append_metric m key v =
     (if key \<in> fst ` set m
      then Inr (map (\<lambda>(k, vs). if k = key then (k, vs @ [v]) else (k, vs)) m)
      else Inl (KeyError key))"

fun append_all :: "metrics \<Rightarrow> (string \<times> real) list \<Rightarrow> error + metrics" where
  "append_all m [] = Inr m"
| "append_all m ((key, v) # rest) =
     (case append_metric m key v of Inl e \<Rightarrow> Inl e | Inr m' \<Rightarrow> append_all m' rest)"

text \<open>The metrics \<open>m'\<close> are the metrics \<open>m\<close> with \<open>v\<close> appended to the list
  of \<open>key\<close>.\<close>

definition appended :: "metrics \<Rightarrow> metrics \<Rightarrow> string \<Rightarrow> real \<Rightarrow> bool" where
  "appended m m' key v =
     (\<exists>vs. map_of m key = Some vs \<and> map_of m' key = Some (vs @ [v]))"

text \<open>A \<^verbatim>\<open>for\<close> loop whose body may raise: the state is handed from one
  iteration to the next, and the first exception ends the loop.\<close>

fun for_each :: "('s \<Rightarrow> 'a \<Rightarrow> error + 's) \<Rightarrow> 's \<Rightarrow> 'a list \<Rightarrow> error + 's" where
  "for_each body s [] = Inr s"
| "for_each body s (x # xs) =
     (case body s x of Inl e \<Rightarrow> Inl e | Inr s' \<Rightarrow> for_each body s' xs)"

section \<open>Training: the model and what it is given\<close>

text \<open>
  The three networks, the optimizer, the feature extractor of the perceptual
  loss, \<^verbatim>\<open>utils.ssim\<close>, the module \<^verbatim>\<open>transforms\<close> and the number formats
  are not part of the sources at hand: they are the fields of \<open>env\<close>. A
  network is a function of its parameters and its inputs. \<open>adam_step\<close> is
  \<^verbatim>\<open>zero_grad()\<close>, \<^verbatim>\<open>loss.backward()\<close> and \<^verbatim>\<open>step()\<close> in one: it is given the
  optimizer's state, the loss as a function of the parameters the optimizer
  owns (what autograd differentiates), and their present values, and it
  returns the new state and values.
\<close>

record 'o env =
  encoder_at :: "params \<Rightarrow> tensor \<Rightarrow> tensor \<Rightarrow> tensor"
  decoder_at :: "params \<Rightarrow> tensor \<Rightarrow> tensor"
  critic_at :: "params \<Rightarrow> tensor \<Rightarrow> tensor"
  adam_init :: "params \<Rightarrow> 'o"
  adam_step :: "'o \<Rightarrow> (params \<Rightarrow> error + real) \<Rightarrow> params \<Rightarrow> 'o \<times> params"
  perceptual_loss_fc :: "tensor \<Rightarrow> tensor"
  ssim :: "tensor \<Rightarrow> tensor \<Rightarrow> real"
  rotate_left_90 :: "tensor \<Rightarrow> tensor"
  add_gaussian_noise :: "tensor \<Rightarrow> tensor"
  color_filter :: "tensor \<Rightarrow> real \<Rightarrow> real \<times> real \<times> real \<Rightarrow> tensor"
  format_int :: "nat \<Rightarrow> string"
  format_2d :: "nat \<Rightarrow> string"
  format_03f :: "real \<Rightarrow> string"

text \<open>The random number generator of torch: the bits and the uniform
  numbers it will hand out next.\<close>

record rng =
  bit_stream :: "nat \<Rightarrow> bool"
  unif_stream :: "nat \<Rightarrow> real"

datatype json =
  JNumber real
  | JInt int
  | JObject "(string \<times> json) list"
  | JArray "json list"

text \<open>The attributes of a \<^verbatim>\<open>SteganoGAN\<close> object that training reads or
  writes. \<open>data_depth\<close> is a dimension of a tensor, so a natural number.\<close>

record 'o steganogan =
  data_depth :: nat
  perceptual_loss :: bool
  log_dir :: "string option"
  encoder_params :: params
  decoder_params :: params
  critic_params :: params
  critic_optimizer :: "'o option"
  decoder_optimizer :: "'o option"
  epochs :: nat
  fit_metrics :: "(string \<times> json) list option"
  history :: "(string \<times> json) list list"

text \<open>What a file holds: the JSON text of \<^verbatim>\<open>json.dump\<close>, an object written
  by \<^verbatim>\<open>torch.save\<close>, or an image of a shape and its bytes.\<close>

datatype 'o file_content =
  JsonFile json
  | SavedModel "'o steganogan"
  | ImageFile "nat list" "byte list"

type_synonym 'o file_system = "string \<Rightarrow> 'o file_content option"

text \<open>
  \<^verbatim>\<open>
    def _random_data(self, cover, data_size=1):
        N, _, H, W = cover.size()
        data = torch.zeros((N, self.data_depth, H, W), device=self.device).random_(0, 2)
        return data
  \<close>
\<close>

definition random_data :: "nat \<Rightarrow> rng \<Rightarrow> tensor \<Rightarrow> error + (tensor \<times> rng)" where
  "random_data depth g cover =
     (case shape cover of
        [N, C, H, W] \<Rightarrow>
          Inr (\<lparr>shape = [N, depth, H, W],
                data = map (\<lambda>i. if bit_stream g i then 1 else 0) [0..<N * depth * H * W]\<rparr>,
               g\<lparr>bit_stream := (\<lambda>i. bit_stream g (i + N * depth * H * W))\<rparr>)
      | _ \<Rightarrow> Inl (ValueError ''not enough values to unpack''))"

text \<open>\<^verbatim>\<open>.long()\<close> drops the fraction of a number, towards zero.\<close>

definition to_long :: "real \<Rightarrow> int" where
  "to_long x = (if 0 \<le> x then \<lfloor>x\<rfloor> else \<lceil>x\<rceil>)"

text \<open>
  \<^verbatim>\<open>
    generated = (255.0 * (generated + 1.0) / 2.0).long()
    generated = 2.0 * generated.float() / 255.0 - 1.0
  \<close>
\<close>

definition quantize_entry :: "real \<Rightarrow> real" where
  "quantize_entry x = 2 * real_of_int (to_long (255 * (x + 1) / 2)) / 255 - 1"

definition quantized :: "tensor \<Rightarrow> tensor" where
  "quantized t = t\<lparr>data := map quantize_entry (data t)\<rparr>"

text \<open>The chain of \<^verbatim>\<open>if transform == ...\<close> in \<^verbatim>\<open>_encode_decode\<close>.\<close>

definition apply_transform :: "'o env \<Rightarrow> string option \<Rightarrow> tensor \<Rightarrow> tensor" where
  "apply_transform env transform generated =
     (if transform = Some ''rotate'' then rotate_left_90 env generated
      else if transform = Some ''gaussian'' then add_gaussian_noise env generated
      else if transform = Some ''white_filter'' then color_filter env generated 0.7 (255, 255, 255)
      else if transform = Some ''black_filter'' then color_filter env generated 0.7 (0, 0, 0)
      else if transform = Some ''red_filter'' then color_filter env generated 0.7 (255, 0, 0)
      else if transform = Some ''green_filter'' then color_filter env generated 0.7 (0, 255, 0)
      else if transform = Some ''blue_filter'' then color_filter env generated 0.7 (0, 0, 255)
      else generated)"

text \<open>
  \<^verbatim>\<open>_encode_decode\<close> after the payload is drawn, as a function of the
  parameters of the encoder and the decoder:
  \<^verbatim>\<open>
    generated = self.encoder(cover, payload)
    if quantize:
        ...
    ...
    decoded_g = self.decoder(generated)
    decoded_t = self.decoder(transformed)
    return generated, payload, decoded_g, decoded_t
  \<close>
\<close>

definition encode_decode_with ::
  "'o env \<Rightarrow> params \<Rightarrow> params \<Rightarrow> tensor \<Rightarrow> tensor \<Rightarrow> bool \<Rightarrow> string option
     \<Rightarrow> tensor \<times> tensor \<times> tensor \<times> tensor" where
  "encode_decode_with env enc dec cover payload quantize transform =
     (let generated = encoder_at env enc cover payload;
          generated = (if quantize then quantized generated else generated);
          transformed = apply_transform env transform generated;
          decoded_g = decoder_at env dec generated;
          decoded_t = decoder_at env dec transformed
      in (generated, payload, decoded_g, decoded_t))"

definition encode_decode ::
  "'o env \<Rightarrow> 'o steganogan \<Rightarrow> rng \<Rightarrow> tensor \<Rightarrow> bool \<Rightarrow> string option
     \<Rightarrow> error + ((tensor \<times> tensor \<times> tensor \<times> tensor) \<times> rng)" where
  "encode_decode env s g cover quantize transform =
     (case random_data (data_depth s) g cover of
        Inl e \<Rightarrow> Inl e
      | Inr (payload, g') \<Rightarrow>
          Inr (encode_decode_with env (encoder_params s) (decoder_params s)
                 cover payload quantize transform, g'))"

text \<open>\<^verbatim>\<open>_critic\<close>: \<^verbatim>\<open>torch.mean(self.critic(image))\<close>.\<close>

definition critic_score :: "'o env \<Rightarrow> params \<Rightarrow> tensor \<Rightarrow> real" where
  "critic_score env crit img = tmean (data (critic_at env crit img))"

section \<open>SteganoGAN._fit_critic\<close>

text \<open>\<^verbatim>\<open>p.data.clamp_(lo, hi)\<close> on one entry.\<close>

definition clamp :: "real \<Rightarrow> real \<Rightarrow> real \<Rightarrow> real" where
  "clamp lo hi x = min (max x lo) hi"

text \<open>The scalar \<^verbatim>\<open>cover_score - generated_score\<close> on which \<^verbatim>\<open>backward\<close> is
  called, as a function of the parameters of the critic.\<close>

definition critic_objective :: "'o env \<Rightarrow> tensor \<Rightarrow> tensor \<Rightarrow> params \<Rightarrow> error + real" where
  "critic_objective env cover generated crit =
     Inr (critic_score env crit cover - critic_score env crit generated)"

text \<open>
  The body of the loop of \<^verbatim>\<open>_fit_critic\<close>, on the model, the generator and
  the metrics:
  \<^verbatim>\<open>
    payload = self._random_data(cover)
    generated = self.encoder(cover, payload)
    cover_score = self._critic(cover)
    generated_score = self._critic(generated)

    self.critic_optimizer.zero_grad()
    (cover_score - generated_score).backward(retain_graph=False)
    self.critic_optimizer.step()

    for p in self.critic.parameters():
        p.data.clamp_(-0.1, 0.1)

    metrics['train.cover_score'].append(cover_score.item())
    metrics['train.generated_score'].append(generated_score.item())
  \<close>
\<close>

definition fit_critic_batch ::
  "'o env \<Rightarrow> 'o steganogan \<times> rng \<times> metrics \<Rightarrow> tensor
     \<Rightarrow> error + ('o steganogan \<times> rng \<times> metrics)" where
  "fit_critic_batch env st cover =
     (case st of (s, g, m) \<Rightarrow>
      case random_data (data_depth s) g cover of
        Inl e \<Rightarrow> Inl e
      | Inr (payload, g') \<Rightarrow>
          let generated = encoder_at env (encoder_params s) cover payload;
              cover_score = critic_score env (critic_params s) cover;
              generated_score = critic_score env (critic_params s) generated
          in case critic_optimizer s of
               None \<Rightarrow> Inl AttributeError
             | Some opt \<Rightarrow>
                 let stepped = adam_step env opt (critic_objective env cover generated)
                                 (critic_params s);
                     clipped = map (map (clamp (- 0.1) 0.1)) (snd stepped)
                 in case append_all m [(''train.cover_score'', cover_score),
                                       (''train.generated_score'', generated_score)] of
                      Inl e \<Rightarrow> Inl e
                    | Inr m' \<Rightarrow>
                        Inr (s\<lparr>critic_params := clipped,
                               critic_optimizer := Some (fst stepped)\<rparr>, g', m'))"

definition fit_critic ::
  "'o env \<Rightarrow> tensor list \<Rightarrow> 'o steganogan \<times> rng \<times> metrics
     \<Rightarrow> error + ('o steganogan \<times> rng \<times> metrics)" where
  "fit_critic env train st = for_each (fit_critic_batch env) st train"

text \<open>Every entry of every parameter tensor lies in the clip range.\<close>

definition clipped :: "params \<Rightarrow> bool" where
  "clipped ps = list_all (list_all (\<lambda>x. - 0.1 \<le> x \<and> x \<le> 0.1)) ps"

section \<open>SteganoGAN._fit_coders\<close>

text \<open>\<^verbatim>\<open>.squeeze()\<close> drops the dimensions of size 1.\<close>

definition squeeze :: "tensor \<Rightarrow> tensor" where
  "squeeze t = t\<lparr>shape := filter (\<lambda>d. d \<noteq> 1) (shape t)\<rparr>"

text \<open>\<^verbatim>\<open>torch.norm(x, p=2, dim=1)\<close> of a tensor of shape \<open>(n, f)\<close>: the
  Euclidean norm of each of its \<open>n\<close> rows.\<close>

definition row_norms :: "nat \<Rightarrow> nat \<Rightarrow> real list \<Rightarrow> real list" where
  "row_norms n f xs =
     map (\<lambda>i. sqrt (sum_list (map (\<lambda>x. x\<^sup>2) (take f (drop (i * f) xs))))) [0..<n]"

text \<open>
  \<^verbatim>\<open>
    phi_generated = self.perceptual_loss_fc.forward(generated).squeeze() # [batch size, 2048]
    phi_cover = self.perceptual_loss_fc.forward(cover).squeeze()
    perceptual_loss = torch.mean(torch.norm(phi_cover - phi_generated, p=2, dim=1), dim=0)
  \<close>
  The norm along dimension 1 raises on a tensor of fewer than two
  dimensions (a batch of one image, squeezed). With more than two the result
  is no scalar and the code fails where it is used as one; that failure is
  reported here.
\<close>

definition perceptual_distance :: "'o env \<Rightarrow> tensor \<Rightarrow> tensor \<Rightarrow> error + real" where
  "perceptual_distance env cover generated =
     (let phi_generated = squeeze (perceptual_loss_fc env generated);
          phi_cover = squeeze (perceptual_loss_fc env cover)
      in if shape phi_cover \<noteq> shape phi_generated
         then Inl (RuntimeError ''The size of tensor a must match the size of tensor b'')
         else case shape phi_cover of
                [n, f] \<Rightarrow> Inr (tmean (row_norms n f
                                   (map2 (\<lambda>x y. x - y) (data phi_cover) (data phi_generated))))
              | _ \<Rightarrow> Inl IndexError)"

text \<open>What one batch of the coder phase computes.\<close>

record batch_scores =
  encoder_mse :: real
  decoder_loss_g :: real
  decoder_acc_g :: real
  decoder_loss_t :: real
  decoder_acc_t :: real
  generated_score :: real
  perceptual_loss_term :: real
  total_loss :: real

text \<open>
  The forward pass of \<^verbatim>\<open>_fit_coders\<close> for a payload and a transform, as a
  function of the parameters of the decoder and the encoder:
  \<^verbatim>\<open>
    generated, payload, decoded_g, decoded_t = self._encode_decode(cover,
        transform=batch_transform)
    encoder_mse, decoder_loss_g, decoder_acc_g = self._coding_scores(
        cover, generated, payload, decoded_g)
    _, decoder_loss_t, decoder_acc_t = self._coding_scores(cover, generated, payload, decoded_t)
    generated_score = self._critic(generated)
    ...
    total_loss = 100.0 * encoder_mse + (decoder_loss_g + decoder_loss_t) / 2 + generated_score
    if self.perceptual_loss:
        total_loss += perceptual_loss
  \<close>
\<close>

definition coders_forward ::
  "'o env \<Rightarrow> bool \<Rightarrow> params \<Rightarrow> tensor \<Rightarrow> tensor \<Rightarrow> string option \<Rightarrow> params \<Rightarrow> params
     \<Rightarrow> error + batch_scores" where
  "coders_forward env use_perceptual crit cover payload batch_transform dec enc =
     (case encode_decode_with env enc dec cover payload False batch_transform of
        (generated, payload', decoded_g, decoded_t) \<Rightarrow>
      case coding_scores cover generated payload' decoded_g of
        Inl e \<Rightarrow> Inl e
      | Inr (mse, loss_g, acc_g) \<Rightarrow>
      case coding_scores cover generated payload' decoded_t of
        Inl e \<Rightarrow> Inl e
      | Inr (mse', loss_t, acc_t) \<Rightarrow>
      let score = critic_score env crit generated in
      case perceptual_distance env cover generated of
        Inl e \<Rightarrow> Inl e
      | Inr perceptual \<Rightarrow>
      let total = 100 * mse + (loss_g + loss_t) / 2 + score;
          total = (if use_perceptual then total + perceptual else total)
      in Inr \<lparr>encoder_mse = mse, decoder_loss_g = loss_g, decoder_acc_g = acc_g,
               decoder_loss_t = loss_t, decoder_acc_t = acc_t, generated_score = score,
               perceptual_loss_term = perceptual, total_loss = total\<rparr>)"

text \<open>The scalar \<^verbatim>\<open>total_loss\<close> on which \<^verbatim>\<open>backward\<close> is called, as a
  function of the parameters the coder optimizer owns:
  \<^verbatim>\<open>list(self.decoder.parameters()) + list(self.encoder.parameters())\<close>.\<close>

definition coders_objective ::
  "'o env \<Rightarrow> bool \<Rightarrow> params \<Rightarrow> tensor \<Rightarrow> tensor \<Rightarrow> string option \<Rightarrow> nat \<Rightarrow> params
     \<Rightarrow> error + real" where
  "coders_objective env use_perceptual crit cover payload batch_transform n_dec ps =
     (case coders_forward env use_perceptual crit cover payload batch_transform
             (take n_dec ps) (drop n_dec ps) of
        Inl e \<Rightarrow> Inl e
      | Inr r \<Rightarrow> Inr (total_loss r))"

text \<open>
  The body of the loop of \<^verbatim>\<open>_fit_coders\<close>:
  \<^verbatim>\<open>
    if torch.rand(1).item() < transform_prob:
        batch_transform = transform
    else:
        batch_transform = None
    ...
    self.decoder_optimizer.zero_grad()
    ...
    (total_loss).backward()
    self.decoder_optimizer.step()

    metrics['train.perceptual_loss'].append(perceptual_loss.item())
    metrics['train.encoder_mse'].append(encoder_mse.item())
    metrics['train.decoder_loss_t'].append(decoder_loss_t.item())
    metrics['train.decoder_loss_g'].append(decoder_loss_g.item())
    metrics['train.decoder_acc_t'].append(decoder_acc_t.item())
    metrics['train.decoder_acc_g'].append(decoder_acc_g.item())
  \<close>
\<close>

definition fit_coders_batch ::
  "'o env \<Rightarrow> string option \<Rightarrow> real \<Rightarrow> 'o steganogan \<times> rng \<times> metrics \<Rightarrow> tensor
     \<Rightarrow> error + ('o steganogan \<times> rng \<times> metrics)" where
  "fit_coders_batch env transform transform_prob st cover =
     (case st of (s, g, m) \<Rightarrow>
      let g1 = g\<lparr>unif_stream := (\<lambda>i. unif_stream g (i + 1))\<rparr>;
          batch_transform = (if unif_stream g 0 < transform_prob then transform else None)
      in case random_data (data_depth s) g1 cover of
        Inl e \<Rightarrow> Inl e
      | Inr (payload, g2) \<Rightarrow>
      case coders_forward env (perceptual_loss s) (critic_params s) cover payload
             batch_transform (decoder_params s) (encoder_params s) of
        Inl e \<Rightarrow> Inl e
      | Inr r \<Rightarrow>
      case decoder_optimizer s of
        None \<Rightarrow> Inl AttributeError
      | Some opt \<Rightarrow>
      let n_dec = length (decoder_params s);
          stepped = adam_step env opt
                      (coders_objective env (perceptual_loss s) (critic_params s) cover payload
                         batch_transform n_dec)
                      (decoder_params s @ encoder_params s)
      in case append_all m
                [(''train.perceptual_loss'', perceptual_loss_term r),
                 (''train.encoder_mse'', encoder_mse r),
                 (''train.decoder_loss_t'', decoder_loss_t r),
                 (''train.decoder_loss_g'', decoder_loss_g r),
                 (''train.decoder_acc_t'', decoder_acc_t r),
                 (''train.decoder_acc_g'', decoder_acc_g r)] of
           Inl e \<Rightarrow> Inl e
         | Inr m' \<Rightarrow>
             Inr (s\<lparr>decoder_params := take n_dec (snd stepped),
                    encoder_params := drop n_dec (snd stepped),
                    decoder_optimizer := Some (fst stepped)\<rparr>, g2, m'))"

definition fit_coders ::
  "'o env \<Rightarrow> tensor list \<Rightarrow> string option \<Rightarrow> real \<Rightarrow> 'o steganogan \<times> rng \<times> metrics
     \<Rightarrow> error + ('o steganogan \<times> rng \<times> metrics)" where
  "fit_coders env train transform transform_prob st =
     for_each (fit_coders_batch env transform transform_prob) st train"

section \<open>SteganoGAN._validate\<close>

text \<open>
  What one batch of the validation appends to the metrics, in the order of
  the statements:
  \<^verbatim>\<open>
    generated, payload, decoded_g, decoded_t = self._encode_decode(
        cover, quantize=True, transform=transform)
    encoder_mse, decoder_loss_g, decoder_acc_g = self._coding_scores(
        cover, generated, payload, decoded_g)
    _, decoder_loss_t, decoder_acc_t = self._coding_scores(cover,
        generated, payload, decoded_t)
    generated_score = self._critic(generated)
    cover_score = self._critic(cover)
    ...
    metrics['val.ssim'].append(ssim(cover, generated).item())
    metrics['val.psnr'].append(10 * torch.log10(4 / encoder_mse).item())
    metrics['val.bpp_g'].append(self.data_depth * (2 * decoder_acc_g.item() - 1))
    metrics['val.bpp_t'].append(self.data_depth * (2 * decoder_acc_t.item() - 1))
  \<close>
  For \<open>encoder_mse = 0\<close> torch computes \<open>log10 (4 / 0) = inf\<close>, which is no
  real number; statements about the PSNR are made for \<open>0 < encoder_mse\<close>.
\<close>

definition validate_scores ::
  "'o env \<Rightarrow> 'o steganogan \<Rightarrow> string option \<Rightarrow> tensor \<Rightarrow> tensor
     \<Rightarrow> error + (string \<times> real) list" where
  "validate_scores env s transform cover payload =
     (case encode_decode_with env (encoder_params s) (decoder_params s) cover payload
             True transform of
        (generated, payload', decoded_g, decoded_t) \<Rightarrow>
      case coding_scores cover generated payload' decoded_g of
        Inl e \<Rightarrow> Inl e
      | Inr (mse, loss_g, acc_g) \<Rightarrow>
      case coding_scores cover generated payload' decoded_t of
        Inl e \<Rightarrow> Inl e
      | Inr (mse', loss_t, acc_t) \<Rightarrow>
      let score = critic_score env (critic_params s) generated;
          cover_score = critic_score env (critic_params s) cover
      in case perceptual_distance env cover generated of
        Inl e \<Rightarrow> Inl e
      | Inr perceptual \<Rightarrow>
          Inr [(''val.perceptual_loss'', perceptual),
               (''val.encoder_mse'', mse),
               (''val.decoder_loss_g'', loss_g),
               (''val.decoder_loss_t'', loss_t),
               (''val.decoder_acc_g'', acc_g),
               (''val.decoder_acc_t'', acc_t),
               (''val.cover_score'', cover_score),
               (''val.generated_score'', score),
               (''val.ssim'', ssim env cover generated),
               (''val.psnr'', 10 * log 10 (4 / mse)),
               (''val.bpp_g'', real (data_depth s) * (2 * acc_g - 1)),
               (''val.bpp_t'', real (data_depth s) * (2 * acc_t - 1))])"

definition validate_batch ::
  "'o env \<Rightarrow> string option \<Rightarrow> 'o steganogan \<times> rng \<times> metrics \<Rightarrow> tensor
     \<Rightarrow> error + ('o steganogan \<times> rng \<times> metrics)" where
  "validate_batch env transform st cover =
     (case st of (s, g, m) \<Rightarrow>
      case random_data (data_depth s) g cover of
        Inl e \<Rightarrow> Inl e
      | Inr (payload, g') \<Rightarrow>
      case validate_scores env s transform cover payload of
        Inl e \<Rightarrow> Inl e
      | Inr scores \<Rightarrow>
      case append_all m scores of
        Inl e \<Rightarrow> Inl e
      | Inr m' \<Rightarrow> Inr (s, g', m'))"

definition validate ::
  "'o env \<Rightarrow> tensor list \<Rightarrow> string option \<Rightarrow> 'o steganogan \<times> rng \<times> metrics
     \<Rightarrow> error + ('o steganogan \<times> rng \<times> metrics)" where
  "validate env batches transform st = for_each (validate_batch env transform) st batches"

text \<open>What the three phases of an epoch leave as it is: the directory of the
  log, the history, the count of epochs and the keys of the metrics.\<close>

definition frame :: "'o steganogan \<times> rng \<times> metrics \<Rightarrow> string option \<times> (string \<times> json) list list \<times> nat \<times> string list" where
  "frame st = (case st of (s, g, m) \<Rightarrow> (log_dir s, history s, epochs s, map fst m))"

section \<open>SteganoGAN.fit\<close>

text \<open>\<^verbatim>\<open>os.path.join\<close> of two components on a POSIX system.\<close>

definition path_join :: "string \<Rightarrow> string \<Rightarrow> string" where
  "path_join a b =
     (if b \<noteq> [] \<and> hd b = CHR ''/'' then b
      else if a = [] \<or> last a = CHR ''/'' then a @ b
      else a @ ''/'' @ b)"

text \<open>\<^verbatim>\<open>if self.log_dir:\<close> holds for a string that is not empty.\<close>

definition logging :: "'o steganogan \<Rightarrow> bool" where
  "logging s = (case log_dir s of None \<Rightarrow> False | Some d \<Rightarrow> d \<noteq> [])"

text \<open>\<^verbatim>\<open>{k: sum(v) / len(v) for k, v in metrics.items()}\<close>: the division
  raises on an empty list.\<close>

fun reduce_metrics :: "metrics \<Rightarrow> error + (string \<times> json) list" where
  "reduce_metrics [] = Inr []"
| "reduce_metrics ((k, v) # rest) =
     (if length v = 0 then Inl ZeroDivisionError
      else case reduce_metrics rest of
             Inl e \<Rightarrow> Inl e
           | Inr means \<Rightarrow> Inr ((k, JNumber (sum_list v / real (length v))) # means))"

text \<open>\<^verbatim>\<open>d[key] = value\<close> on a dictionary in the order of its keys.\<close>

fun dict_set :: "(string \<times> 'v) list \<Rightarrow> string \<Rightarrow> 'v \<Rightarrow> (string \<times> 'v) list" where
  "dict_set [] key v = [(key, v)]"
| "dict_set ((k, v') # rest) key v =
     (if k = key then (k, v) # rest else (k, v') # dict_set rest key v)"

text \<open>What \<^verbatim>\<open>json.dump(self.history, metrics_file, indent=4)\<close> writes: an
  array with one object for each record of the history.\<close>

definition json_dump :: "(string \<times> json) list list \<Rightarrow> json" where
  "json_dump records = JArray (map JObject records)"

text \<open>\<^verbatim>\<open>.astype('uint8')\<close> of numpy drops the fraction and keeps the low
  eight bits.\<close>

definition to_uint8 :: "real \<Rightarrow> byte" where
  "to_uint8 x = word_of_int (to_long x)"

text \<open>\<^verbatim>\<open>t[i]\<close> and \<^verbatim>\<open>t.permute(1, 2, 0)\<close> on a tensor whose list has the
  entries its shape asks for.\<close>

definition select0 :: "tensor \<Rightarrow> nat \<Rightarrow> error + tensor" where
  "select0 t i =
     (case shape t of
        [] \<Rightarrow> Inl IndexError
      | n # rest \<Rightarrow>
          if i < n
          then Inr \<lparr>shape = rest,
                    data = take (prod_list rest) (drop (i * prod_list rest) (data t))\<rparr>
          else Inl IndexError)"

definition permute_120 :: "tensor \<Rightarrow> error + tensor" where
  "permute_120 t =
     (case shape t of
        [c, h, w] \<Rightarrow>
          if length (data t) = c * h * w
          then Inr \<lparr>shape = [h, w, c],
                    data = concat (map (\<lambda>y. concat (map (\<lambda>x. map (\<lambda>k.
                             data t ! ((k * h + y) * w + x)) [0..<c]) [0..<w])) [0..<h])\<rparr>
          else Inl (RuntimeError ''shape does not match the number of entries'')
      | _ \<Rightarrow> Inl (RuntimeError ''number of dims don't match in permute''))"

text \<open>
  The body of the loop of \<^verbatim>\<open>_generate_samples\<close>:
  \<^verbatim>\<open>
    cover_path = os.path.join(samples_path, '{}.cover.png'.format(sample))
    sample_name = '{}.generated-{:2d}.png'.format(sample, epoch)
    sample_path = os.path.join(samples_path, sample_name)

    image = (cover[sample].permute(1, 2, 0).detach().cpu().numpy() + 1.0) / 2.0
    imageio.imwrite(cover_path, (255.0 * image).astype('uint8'))

    sampled = generated[sample].clamp(-1.0, 1.0).permute(1, 2, 0)
    sampled = sampled.detach().cpu().numpy() + 1.0

    image = sampled / 2.0
    imageio.imwrite(sample_path, (255.0 * image).astype('uint8'))
  \<close>
\<close>

definition write_sample ::
  "'o env \<Rightarrow> string \<Rightarrow> tensor \<Rightarrow> tensor \<Rightarrow> nat \<Rightarrow> 'o file_system \<Rightarrow> nat
     \<Rightarrow> error + 'o file_system" where
  "write_sample env samples_path cover generated epoch files sample =
     (let cover_path = path_join samples_path (format_int env sample @ ''.cover.png'');
          sample_name = format_int env sample @ ''.generated-'' @ format_2d env epoch @ ''.png'';
          sample_path = path_join samples_path sample_name
      in case select0 cover sample of
        Inl e \<Rightarrow> Inl e
      | Inr c \<Rightarrow>
      case permute_120 c of
        Inl e \<Rightarrow> Inl e
      | Inr img \<Rightarrow>
      let files1 = files(cover_path \<mapsto>
                     ImageFile (shape img) (map (\<lambda>x. to_uint8 (255 * ((x + 1) / 2))) (data img)))
      in case select0 generated sample of
        Inl e \<Rightarrow> Inl e
      | Inr gs \<Rightarrow>
      case permute_120 (gs\<lparr>data := map (clamp (- 1) 1) (data gs)\<rparr>) of
        Inl e \<Rightarrow> Inl e
      | Inr sampled \<Rightarrow>
          Inr (files1(sample_path \<mapsto>
                 ImageFile (shape sampled)
                   (map (\<lambda>x. to_uint8 (255 * ((x + 1) / 2))) (data sampled)))))"

text \<open>
  \<^verbatim>\<open>
    def _generate_samples(self, samples_path, cover, epoch):
        cover = cover.to(self.device)
        generated, payload, decoded, _ = self._encode_decode(cover)
        samples = generated.size(0)
        for sample in range(samples):
            ...
  \<close>
\<close>

definition generate_samples ::
  "'o env \<Rightarrow> 'o steganogan \<Rightarrow> rng \<Rightarrow> 'o file_system \<Rightarrow> string \<Rightarrow> tensor \<Rightarrow> nat
     \<Rightarrow> error + (rng \<times> 'o file_system)" where
  "generate_samples env s g files samples_path cover epoch =
     (case encode_decode env s g cover False None of
        Inl e \<Rightarrow> Inl e
      | Inr ((generated, payload, decoded, decoded_t), g') \<Rightarrow>
      case shape generated of
        [] \<Rightarrow> Inl IndexError
      | samples # rest \<Rightarrow>
      case for_each (write_sample env samples_path cover generated epoch) files [0..<samples] of
        Inl e \<Rightarrow> Inl e
      | Inr files' \<Rightarrow> Inr (g', files'))"

text \<open>
  The statements of an epoch under \<^verbatim>\<open>if self.log_dir:\<close>, for the record
  \<open>fit_metrics\<close> of the epoch:
  \<^verbatim>\<open>
    self.history.append(self.fit_metrics)

    metrics_path = os.path.join(self.log_dir, 'metrics.log')
    with open(metrics_path, 'w') as metrics_file:
        json.dump(self.history, metrics_file, indent=4)

    save_name = '{}.bpp-{:03f}.p'.format(
        self.epochs, self.fit_metrics['val.bpp_g'])

    self.save(os.path.join(self.log_dir, save_name))
    self._generate_samples(self.samples_path, sample_cover, epoch)
  \<close>
  \<^verbatim>\<open>self.samples_path\<close> is \<^verbatim>\<open>os.path.join(self.log_dir, 'samples')\<close>, and
  \<^verbatim>\<open>save\<close> is \<^verbatim>\<open>torch.save(self, path)\<close>.
\<close>

definition log_epoch ::
  "'o env \<Rightarrow> string \<Rightarrow> (string \<times> json) list \<Rightarrow> tensor option \<Rightarrow> nat
     \<Rightarrow> 'o steganogan \<times> rng \<times> 'o file_system
     \<Rightarrow> error + ('o steganogan \<times> rng \<times> 'o file_system)" where
  "log_epoch env dir record sample_cover epoch st =
     (case st of (s, g, files) \<Rightarrow>
      let s1 = s\<lparr>history := history s @ [record]\<rparr>;
          metrics_path = path_join dir ''metrics.log'';
          files1 = files(metrics_path \<mapsto> JsonFile (json_dump (history s1)))
      in case map_of record ''val.bpp_g'' of
        None \<Rightarrow> Inl (KeyError ''val.bpp_g'')
      | Some (JNumber bpp) \<Rightarrow>
          (let save_name = format_int env (epochs s1) @ ''.bpp-'' @ format_03f env bpp @ ''.p'';
               files2 = files1(path_join dir save_name \<mapsto> SavedModel s1)
           in case sample_cover of
                None \<Rightarrow> Inl NameError
              | Some cover \<Rightarrow>
                  (case generate_samples env s1 g files2 (path_join dir ''samples'') cover epoch of
                     Inl e \<Rightarrow> Inl e
                   | Inr (g', files3) \<Rightarrow> Inr (s1, g', files3)))
      | Some other \<Rightarrow> Inl (ValueError ''Unknown format code''))"

text \<open>
  The body of the loop over the epochs of \<^verbatim>\<open>fit\<close>:
  \<^verbatim>\<open>
    self.epochs += 1
    metrics = {field: list() for field in METRIC_FIELDS}
    ...
    self._fit_critic(train, metrics)
    self._fit_coders(train, metrics, transform=transform,
        transform_prob=transform_prob)
    self._validate(validate, metrics, transform=transform)

    self.fit_metrics = {k: sum(v) / len(v) for k, v in metrics.items()}
    self.fit_metrics['epoch'] = epoch

    if self.log_dir:
        ...
  \<close>
  The loaders are the lists of their batches.
\<close>

definition fit_epoch ::
  "'o env \<Rightarrow> tensor list \<Rightarrow> tensor list \<Rightarrow> string option \<Rightarrow> real \<Rightarrow> tensor option
     \<Rightarrow> 'o steganogan \<times> rng \<times> 'o file_system \<Rightarrow> nat
     \<Rightarrow> error + ('o steganogan \<times> rng \<times> 'o file_system)" where
  "fit_epoch env train val_batches transform transform_prob sample_cover st epoch =
     (case st of (s, g, files) \<Rightarrow>
      case fit_critic env train (s\<lparr>epochs := epochs s + 1\<rparr>, g, new_metrics) of
        Inl e \<Rightarrow> Inl e
      | Inr st2 \<Rightarrow>
      case fit_coders env train transform transform_prob st2 of
        Inl e \<Rightarrow> Inl e
      | Inr st3 \<Rightarrow>
      case validate env val_batches transform st3 of
        Inl e \<Rightarrow> Inl e
      | Inr (s4, g4, m4) \<Rightarrow>
      case reduce_metrics m4 of
        Inl e \<Rightarrow> Inl e
      | Inr means \<Rightarrow>
      let record = dict_set means ''epoch'' (JInt (int epoch));
          s5 = s4\<lparr>fit_metrics := Some record\<rparr>
      in case log_dir s5 of
           None \<Rightarrow> Inr (s5, g4, files)
         | Some dir \<Rightarrow>
             if dir = [] then Inr (s5, g4, files)
             else log_epoch env dir record sample_cover epoch (s5, g4, files))"

text \<open>
  \<^verbatim>\<open>
    def fit(self, train, validate, epochs=5, transform=None, transform_prob=0):
        if self.critic_optimizer is None:
            self.critic_optimizer, self.decoder_optimizer = self._get_optimizers()
            self.epochs = 0

        if self.log_dir:
            sample_cover = next(iter(validate))[0]

        total = self.epochs + epochs
        for epoch in range(1, epochs + 1):
            ...
  \<close>
\<close>

definition fit ::
  "'o env \<Rightarrow> tensor list \<Rightarrow> tensor list \<Rightarrow> nat \<Rightarrow> string option \<Rightarrow> real
     \<Rightarrow> 'o steganogan \<times> rng \<times> 'o file_system
     \<Rightarrow> error + ('o steganogan \<times> rng \<times> 'o file_system)" where
  "fit env train val_batches n_epochs transform transform_prob st =
     (case st of (s, g, files) \<Rightarrow>
      let s0 = (if critic_optimizer s = None
                then s\<lparr>critic_optimizer := Some (adam_init env (critic_params s)),
                       decoder_optimizer :=
                         Some (adam_init env (decoder_params s @ encoder_params s)),
                       epochs := 0\<rparr>
                else s)
      in if logging s0
         then (case val_batches of
                 [] \<Rightarrow> Inl StopIteration
               | cover # rest \<Rightarrow>
                   for_each (fit_epoch env train val_batches transform transform_prob (Some cover))
                     (s0, g, files) [1..<n_epochs + 1])
         else for_each (fit_epoch env train val_batches transform transform_prob None)
                (s0, g, files) [1..<n_epochs + 1])"

text \<open>The record of an epoch in the words of the claim: the mean of every
  list of the metrics, under its key, and then the index of the epoch.\<close>

definition epoch_record :: "metrics \<Rightarrow> nat \<Rightarrow> (string \<times> json) list" where
  "epoch_record m epoch =
     map (\<lambda>(k, vs). (k, JNumber (sum_list vs / real (length vs)))) m
       @ [(''epoch'', JInt (int epoch))]"

section \<open>A small instance\<close>

text \<open>
  An instance of what the model is given, to run the training steps on: an
  encoder that adds 1 to every entry of the cover, a decoder with the logits
  \<open>1, - 1\<close>, a critic that returns the image it is shown, an optimizer that
  takes 1 off every parameter, a feature extractor that gives each of two
  images one feature, and a batch of two images of one pixel.
\<close>

definition toy_env :: "unit env" where
  "toy_env =
     \<lparr>encoder_at = (\<lambda>enc cover payload. cover\<lparr>data := map (\<lambda>x. x + 1) (data cover)\<rparr>),
      decoder_at = (\<lambda>dec img. \<lparr>shape = [2, 1, 1, 1], data = [1, - 1]\<rparr>),
      critic_at = (\<lambda>crit img. img),
      adam_init = (\<lambda>ps. ()),
      adam_step = (\<lambda>opt loss ps. ((), map (map (\<lambda>x. x - 1)) ps)),
      perceptual_loss_fc = (\<lambda>img. \<lparr>shape = [2, 2, 1, 1],
                                     data = concat (map (\<lambda>x. [x, 0]) (data img))\<rparr>),
      ssim = (\<lambda>a b. 1),
      rotate_left_90 = (\<lambda>img. img),
      add_gaussian_noise = (\<lambda>img. img),
      color_filter = (\<lambda>img alpha color. img),
      format_int = (\<lambda>n. ''1''),
      format_2d = (\<lambda>n. '' 1''),
      format_03f = (\<lambda>x. ''0.000000'')\<rparr>"

definition toy_cover :: tensor where
  "toy_cover = \<lparr>shape = [2, 1, 1, 1], data = [0, 0]\<rparr>"

definition toy_payload :: tensor where
  "toy_payload = \<lparr>shape = [2, 1, 1, 1], data = [1, 0]\<rparr>"

text \<open>The image the encoder makes of \<open>toy_cover\<close>, and the logits of the
  decoder.\<close>

definition toy_generated :: tensor where
  "toy_generated = \<lparr>shape = [2, 1, 1, 1], data = [1, 1]\<rparr>"

definition toy_logits :: tensor where
  "toy_logits = \<lparr>shape = [2, 1, 1, 1], data = [1, - 1]\<rparr>"

text \<open>An encoder that darkens every entry of the cover by one hundredth,
  and a black cover.\<close>

definition dark_env :: "unit env" where
  "dark_env = toy_env\<lparr>encoder_at :=
     (\<lambda>enc cover payload. cover\<lparr>data := map (\<lambda>x. x - 1 / 100) (data cover)\<rparr>)\<rparr>"

definition black_cover :: tensor where
  "black_cover = \<lparr>shape = [2, 1, 1, 1], data = [- 1, - 1]\<rparr>"

definition toy_rng :: rng where
  "toy_rng = \<lparr>bit_stream = (\<lambda>i. even i), unif_stream = (\<lambda>i. 1 / 2)\<rparr>"

definition toy_model :: "unit steganogan" where
  "toy_model =
     \<lparr>data_depth = 1, perceptual_loss = True, log_dir = Some ''run'',
      encoder_params = [], decoder_params = [], critic_params = [[1 / 20, 3], [- 5]],
      critic_optimizer = Some (), decoder_optimizer = Some (), epochs = 0,
      fit_metrics = None, history = []\<rparr>"

text \<open>A file system in which \<^verbatim>\<open>run/metrics.log\<close> holds an array written
  earlier.\<close>

definition stale_files :: "unit file_system" where
  "stale_files = Map.empty(''run/metrics.log'' \<mapsto> JsonFile (JArray [JInt 7]))"

section \<open>Properties of the payload\<close>

lemma concat_replicate_twice:
  "concat (replicate k (p @ p)) = concat (replicate (2 * k) p)"
  by (induction k) simp_all

lemma length_concat_replicate:
  "length (concat (replicate k p)) = k * length p"
  by (induction k) simp_all

lemma payload_loop_returns:
  assumes "p \<noteq> []"
  shows "\<exists>j. payload_loop p n = Some (concat (replicate (2 ^ j) p))
             \<and> n \<le> length (concat (replicate (2 ^ j) p))"
  using assms
proof (induction "n - length p" arbitrary: p rule: less_induct)
  case less
  show ?case
  proof (cases "length p < n")
    case False
    then have "payload_loop p n = Some (concat (replicate (2 ^ 0) p))"
      by (subst payload_loop.simps) simp
    moreover from False have "n \<le> length (concat (replicate (2 ^ 0) p))"
      by simp
    ultimately show ?thesis by blast
  next
    case True
    from less.prems have "0 < length p" by simp
    then have "length p < length (p @ p)" by simp
    with True have "n - length (p @ p) < n - length p" by arith
    moreover from less.prems have "p @ p \<noteq> []" by simp
    ultimately obtain j where
      j: "payload_loop (p @ p) n = Some (concat (replicate (2 ^ j) (p @ p)))"
         "n \<le> length (concat (replicate (2 ^ j) (p @ p)))"
      using less.hyps by blast
    have eq: "concat (replicate (2 ^ j) (p @ p)) = concat (replicate (2 ^ Suc j) p)"
      by (simp add: concat_replicate_twice)
    from True have "payload_loop p n = payload_loop (p @ p) n"
      by (subst payload_loop.simps) simp
    with j eq show ?thesis by metis
  qed
qed

lemma nth_concat_replicate:
  assumes "i < k * length p"
  shows "concat (replicate k p) ! i = p ! (i mod length p)"
  using assms
proof (induction k arbitrary: i)
  case 0
  then show ?case by simp
next
  case (Suc k)
  show ?case
  proof (cases "i < length p")
    case True
    then show ?thesis by (simp add: nth_append)
  next
    case False
    with Suc.prems have "i - length p < k * length p" by simp
    then have "concat (replicate k p) ! (i - length p) = p ! ((i - length p) mod length p)"
      by (rule Suc.IH)
    moreover from False have "(i - length p) mod length p = i mod length p"
      by (simp add: le_mod_geq)
    ultimately show ?thesis using False by (simp add: nth_append)
  qed
qed

text \<open>
  C4. For every text (every bit list \<open>text_bits\<close> returned by
  \<^verbatim>\<open>text_to_bits\<close>) and all sizes, \<open>make_payload\<close> returns, and returns a
  tensor of shape \<open>(1, depth, height, width)\<close> whose entries are the first
  \<open>width * height * depth\<close> bits of some number \<open>k\<close> of copies of the message
  \<open>text_bits @ 32 zeros\<close> laid end to end, the copies together being at least
  that long. So the tensor always has exactly \<open>width * height * depth\<close>
  entries, whatever the length of the text.
\<close>

theorem make_payload_tiles:
  "\<exists>k payload.
     make_payload width height depth text_bits =
       Some (Inr \<lparr>shape = [1, depth, height, width], data = map real_of_int payload\<rparr>)
     \<and> payload = take (width * height * depth)
                   (concat (replicate k (text_bits @ replicate 32 0)))
     \<and> width * height * depth \<le> length (concat (replicate k (text_bits @ replicate 32 0)))
     \<and> length payload = width * height * depth"
proof -
  let ?m = "text_bits @ replicate 32 (0::int)"
  let ?n = "width * height * depth"
  have "?m \<noteq> []" by simp
  then obtain j where
    j: "payload_loop ?m ?n = Some (concat (replicate (2 ^ j) ?m))"
       "?n \<le> length (concat (replicate (2 ^ j) ?m))"
    using payload_loop_returns by blast
  let ?p = "take ?n (concat (replicate (2 ^ j) ?m))"
  from j(2) have len: "length ?p = ?n" by simp
  then have "view (map real_of_int ?p) [1, depth, height, width] =
      Inr \<lparr>shape = [1, depth, height, width], data = map real_of_int ?p\<rparr>"
    by (simp add: view_def mult.commute mult.left_commute)
  with j(1) have "make_payload width height depth text_bits =
      Some (Inr \<lparr>shape = [1, depth, height, width], data = map real_of_int ?p\<rparr>)"
    by (simp add: make_payload_def)
  with j(2) len show ?thesis by blast
qed

section \<open>Properties of the decoding\<close>

lemma first_occ_snoc:
  "first_occ (xs @ [x]) = (if x \<in> set xs then first_occ xs else first_occ xs @ [x])"
  by (simp add: first_occ_def)

lemma set_first_occ: "set (first_occ xs) = set xs"
  by (simp add: first_occ_def)

lemma distinct_first_occ: "distinct (first_occ xs)"
  by (simp add: first_occ_def)

lemma counter_incr_keys:
  "distinct ks \<Longrightarrow> counter_incr (map (\<lambda>k. (k, f k)) ks) x =
     (if x \<in> set ks then map (\<lambda>k. (k, if k = x then f k + 1 else f k)) ks
      else map (\<lambda>k. (k, f k)) ks @ [(x, 1)])"
  by (induction ks) auto

lemma counter_counts:
  "foldl counter_incr [] xs = map (\<lambda>k. (k, count_list xs k)) (first_occ xs)"
proof (induction xs rule: rev_induct)
  case Nil
  show ?case by (simp add: first_occ_def)
next
  case (snoc x xs)
  have "foldl counter_incr [] (xs @ [x]) = counter_incr (map (\<lambda>k. (k, count_list xs k)) (first_occ xs)) x"
    using snoc by simp
  also have "\<dots> = map (\<lambda>k. (k, count_list (xs @ [x]) k)) (first_occ (xs @ [x]))"
    by (auto simp add: counter_incr_keys distinct_first_occ set_first_occ first_occ_snoc count_list_0_iff)
  finally show ?case .
qed

lemma find_snoc:
  "find P (xs @ [x]) = (case find P xs of Some y \<Rightarrow> Some y | None \<Rightarrow> if P x then Some x else None)"
  by (induction xs) auto

lemma find_first_occ: "find P (first_occ xs) = find P xs"
proof (induction xs rule: rev_induct)
  case Nil
  show ?case by (simp add: first_occ_def)
next
  case (snoc x xs)
  then show ?case
    by (auto simp: first_occ_snoc find_snoc find_None_iff split: option.splits)
qed

lemma first_max_find:
  "find (\<lambda>x. \<forall>y\<in>set (b # rest). snd y \<le> snd x) (b # rest) = Some (first_max b rest)"
proof (induction rest arbitrary: b)
  case Nil
  show ?case by simp
next
  case (Cons kc r)
  show ?case
  proof (cases "snd b < snd kc")
    case True
    have "find (\<lambda>x. \<forall>y\<in>set (b # kc # r). snd y \<le> snd x) (kc # r)
        = find (\<lambda>x. \<forall>y\<in>set (kc # r). snd y \<le> snd x) (kc # r)"
      using True by (intro find_cong) auto
    with True Cons[of kc] show ?thesis by auto
  next
    case False
    show ?thesis
    proof (cases "\<forall>y\<in>set (b # r). snd y \<le> snd b")
      case True
      with False have "first_max b r = b" using Cons[of b] by simp
      with True False show ?thesis by auto
    next
      case nb: False
      then obtain y where y: "y \<in> set r" "snd b < snd y" by auto
      let ?P = "\<lambda>x. \<forall>y\<in>set (b # kc # r). snd y \<le> snd x"
      let ?Q = "\<lambda>x. \<forall>y\<in>set (b # r). snd y \<le> snd x"
      have eq: "find ?P r = find ?Q r"
        using False by (intro find_cong) auto
      from y have "\<not> snd y \<le> snd b" and "\<not> snd y \<le> snd kc"
        using False by simp_all
      with y(1) have nPb: "\<not> ?P b" and nPk: "\<not> ?P kc"
        by (metis list.set_intros(2))+
      from nb have nQb: "\<not> ?Q b" .
      have "find ?Q (b # r) = Some (first_max b r)" by (rule Cons)
      moreover from nQb have "find ?Q (b # r) = find ?Q r"
        by (simp only: find.simps if_False)
      ultimately have "find ?P r = Some (first_max b r)" using eq by (simp only:)
      moreover from nPb nPk have "find ?P (b # kc # r) = find ?P r"
        by (simp only: find.simps if_False)
      moreover from False have "first_max b (kc # r) = first_max b r" by simp
      ultimately show ?thesis by (simp only:)
    qed
  qed
qed


lemma tally_fold:
  "foldl (tally b2t) c frags = foldl counter_incr c (decoded_texts b2t frags)"
  by (induction frags arbitrary: c) (auto simp: tally_def decoded_texts_def split: option.splits)

lemma find_map_pairs:
  "find P (map g ks) = map_option g (find (\<lambda>k. P (g k)) ks)"
  by (induction ks) auto

lemma most_common1_counts:
  "map fst (most_common1 (foldl counter_incr [] xs)) =
     (case most_frequent_first xs of None \<Rightarrow> [] | Some t \<Rightarrow> [t])"
proof (cases "first_occ xs")
  case Nil
  then have "set xs = {}" using set_first_occ[of xs] by simp
  then show ?thesis by (simp add: most_common1_def most_frequent_first_def)
next
  case (Cons k ks)
  let ?g = "\<lambda>k. (k, count_list xs k)"
  let ?c = "map ?g (first_occ xs)"
  let ?P = "\<lambda>x. \<forall>y\<in>set ?c. snd y \<le> snd x"
  have c: "foldl counter_incr [] xs = ?c" by (rule counter_counts)
  from Cons have c': "?c = ?g k # map ?g ks" by simp
  have "find ?P ?c = Some (first_max (?g k) (map ?g ks))"
    unfolding c' by (rule first_max_find)
  moreover have "find ?P ?c = map_option ?g (find (\<lambda>k. ?P (?g k)) (first_occ xs))"
    by (rule find_map_pairs)
  moreover have "(\<lambda>k. ?P (?g k)) = (\<lambda>x. list_all (\<lambda>y. count_list xs y \<le> count_list xs x) xs)"
    by (auto simp: set_first_occ list_all_iff)
  ultimately have "map_option ?g (most_frequent_first xs) = Some (first_max (?g k) (map ?g ks))"
    by (simp add: most_frequent_first_def find_first_occ)
  then obtain t where "most_frequent_first xs = Some t" "first_max (?g k) (map ?g ks) = ?g t"
    by auto
  then show ?thesis by (simp add: c c' most_common1_def)
qed

lemma decode_bits_eq:
  "decode_bits b2b b2t bits =
     (case most_frequent_first (decoded_texts b2t (split_terminator [] (b2b bits))) of
        None \<Rightarrow> Inl (ValueError ''Failed to find message.'')
      | Some t \<Rightarrow> Inr t)"
proof -
  let ?xs = "decoded_texts b2t (split_terminator [] (b2b bits))"
  let ?c = "foldl counter_incr [] ?xs"
  have mc: "map fst (most_common1 ?c) = (case most_frequent_first ?xs of None \<Rightarrow> [] | Some t \<Rightarrow> [t])"
    by (rule most_common1_counts)
  show ?thesis
  proof (cases "?c")
    case Nil
    then have "most_common1 ?c = []" by (simp add: most_common1_def)
    with mc have "most_frequent_first ?xs = None" by (simp split: option.splits)
    with Nil show ?thesis by (simp add: decode_bits_def tally_fold)
  next
    case (Cons kc rest)
    then have "most_common1 ?c = [first_max kc rest]" by (simp add: most_common1_def)
    with mc obtain t where "most_frequent_first ?xs = Some t" "fst (first_max kc rest) = t"
      by (auto split: option.splits)
    with Cons show ?thesis
      by (auto simp add: decode_bits_def tally_fold most_common1_def split: prod.splits)
  qed
qed


lemma most_frequent_first_Some:
  assumes "most_frequent_first xs = Some x"
  shows "\<exists>i < length xs. xs ! i = x
           \<and> (\<forall>y \<in> set xs. count_list xs y \<le> count_list xs x)
           \<and> (\<forall>j < i. count_list xs (xs ! j) < count_list xs x)"
proof -
  from assms obtain i where i: "i < length xs" "xs ! i = x"
    "list_all (\<lambda>y. count_list xs y \<le> count_list xs x) xs"
    "\<forall>j<i. \<not> list_all (\<lambda>y. count_list xs y \<le> count_list xs (xs ! j)) xs"
    unfolding most_frequent_first_def find_Some_iff by blast
  from i(3) have mx: "\<forall>y \<in> set xs. count_list xs y \<le> count_list xs x"
    by (simp add: list_all_iff)
  have "\<forall>j < i. count_list xs (xs ! j) < count_list xs x"
  proof (intro allI impI)
    fix j assume "j < i"
    with i(4) obtain y where y: "y \<in> set xs" "\<not> count_list xs y \<le> count_list xs (xs ! j)"
      by (auto simp: list_all_iff)
    with mx have "count_list xs y \<le> count_list xs x" by blast
    with y(2) show "count_list xs (xs ! j) < count_list xs x" by simp
  qed
  with i mx show ?thesis by blast
qed

lemma most_frequent_first_None: "most_frequent_first xs = None \<longleftrightarrow> xs = []"
proof
  assume n: "most_frequent_first xs = None"
  have "map fst (most_common1 (foldl counter_incr [] xs)) = []"
    using most_common1_counts[of xs] n by simp
  then have "foldl counter_incr [] xs = []"
    by (simp add: most_common1_def split: list.splits)
  then have "first_occ xs = []" by (simp add: counter_counts)
  then have "set xs = {}" using set_first_occ[of xs] by simp
  then show "xs = []" by simp
qed (simp add: most_frequent_first_def)

lemma decoded_texts_Nil:
  "decoded_texts b2t frags = [] \<longleftrightarrow> (\<forall>f \<in> set frags. b2t f = None \<or> b2t f = Some [])"
  by (induction frags) (auto simp: decoded_texts_def split: option.splits)

lemma set_decoded_texts:
  "set (decoded_texts b2t frags) = {t. t \<noteq> [] \<and> (\<exists>f \<in> set frags. b2t f = Some t)}"
  by (induction frags) (auto simp: decoded_texts_def split: option.splits)

lemma image_tensor_unit: "x \<in> set (data (image_tensor img)) \<Longrightarrow> 0 \<le> x \<and> x \<le> 1"
proof -
  assume "x \<in> set (data (image_tensor img))"
  then obtain b :: byte where b: "x = real (unat b) / 255"
    by (auto simp: image_tensor_def)
  define n where "n = unat b"
  have "n < 2 ^ 8" unfolding n_def using unsigned_less[of b, where 'a = nat] by simp
  then have "n \<le> 255" by simp
  moreover from b have "x = real n / 255" by (simp only: n_def)
  ultimately show ?thesis by simp
qed

text \<open>
  C2. On a recovered bit stream, \<open>decode_bits\<close> splits the bytes on the
  four-byte zero terminator, counts every fragment that decodes to a text
  (one that is not empty), and returns the most frequent text; among texts
  of the same, highest frequency it returns the one met first in the
  stream: no text is more frequent than the result, and every text before
  the result's first occurrence is strictly less frequent. With no such
  fragment it raises \<^verbatim>\<open>ValueError('Failed to find message.')\<close>. In
  particular, when the fragments decode to \<open>a, a, b\<close> the result is \<open>a\<close>.
\<close>

theorem decode_bits_majority:
  "decode_bits b2b b2t bits =
     (case most_frequent_first (decoded_texts b2t (split_terminator [] (b2b bits))) of
        None \<Rightarrow> Inl (ValueError ''Failed to find message.'')
      | Some t \<Rightarrow> Inr t)
   \<and> (\<forall>x. most_frequent_first (decoded_texts b2t (split_terminator [] (b2b bits))) = Some x \<longrightarrow>
        (\<exists>i < length (decoded_texts b2t (split_terminator [] (b2b bits))).
            decoded_texts b2t (split_terminator [] (b2b bits)) ! i = x
          \<and> (\<forall>y \<in> set (decoded_texts b2t (split_terminator [] (b2b bits))).
                count_list (decoded_texts b2t (split_terminator [] (b2b bits))) y
                  \<le> count_list (decoded_texts b2t (split_terminator [] (b2b bits))) x)
          \<and> (\<forall>j < i.
                count_list (decoded_texts b2t (split_terminator [] (b2b bits)))
                   (decoded_texts b2t (split_terminator [] (b2b bits)) ! j)
                  < count_list (decoded_texts b2t (split_terminator [] (b2b bits))) x)))
   \<and> (decoded_texts b2t (split_terminator [] (b2b bits)) = [a, a, b] \<longrightarrow>
        decode_bits b2b b2t bits = Inr a)"
  using most_frequent_first_Some[of "decoded_texts b2t (split_terminator [] (b2b bits))"]
  by (auto simp: decode_bits_eq most_frequent_first_def)

theorem decode_bits_majority_witness:
  "decoded_texts ascii_text (split_terminator [] (bits_to_bytes aab_bits)) = [''A'', ''A'', ''B'']
   \<and> decode_bits bits_to_bytes ascii_text aab_bits = Inr ''A''"
proof -
  have "decoded_texts ascii_text (split_terminator [] (bits_to_bytes aab_bits)) = [''A'', ''A'', ''B'']"
    by code_simp
  with decode_bits_majority[of bits_to_bytes ascii_text aab_bits "''A''" "''B''"]
  show ?thesis by blast
qed

lemma length_concat_upt:
  "(\<And>i. i < n \<Longrightarrow> length (f i) = m) \<Longrightarrow> length (concat (map f [0..<n])) = n * m"
  by (induction n) simp_all

lemma nth_concat_upt:
  assumes "\<And>i. i < n \<Longrightarrow> length (f i) = m" and "i < n" and "j < m"
  shows "concat (map f [0..<n]) ! (i * m + j) = f i ! j"
  using assms
proof (induction n)
  case 0
  then show ?case by simp
next
  case (Suc n)
  have len: "length (concat (map f [0..<n])) = n * m"
    using Suc.prems(1) by (intro length_concat_upt) simp
  have split: "concat (map f [0..<Suc n]) = concat (map f [0..<n]) @ f n" by simp
  show ?case
  proof (cases "i < n")
    case True
    then have "Suc i \<le> n" by simp
    then have "Suc i * m \<le> n * m" by (rule mult_le_mono1)
    with Suc.prems(3) have lt: "i * m + j < n * m" by simp
    have "concat (map f [0..<n]) ! (i * m + j) = f i ! j"
      using Suc.prems(1,3) True by (intro Suc.IH) simp_all
    with lt len show ?thesis by (simp only: split nth_append if_True)
  next
    case False
    with Suc.prems(2) have "i = n" by simp
    with len show ?thesis by (simp only: split nth_append_length_plus[of "concat (map f [0..<n])", unfolded len])
  qed
qed

lemma image_tensor_entry:
  assumes "c < 3" and "x < cols img" and "y < rows img"
  shows "data (image_tensor img) ! ((c * cols img + x) * rows img + y)
           = real (unat (pixel img y x c)) / 255"
proof -
  let ?g = "\<lambda>c x. map (\<lambda>y. real (unat (pixel img y x c)) / 255) [0..<rows img]"
  let ?f = "\<lambda>c. concat (map (?g c) [0..<cols img])"
  have lf: "\<And>c. length (?f c) = cols img * rows img"
    by (rule length_concat_upt) simp
  have "x * rows img + y < cols img * rows img"
  proof -
    from assms(2) have "Suc x * rows img \<le> cols img * rows img"
      by (intro mult_le_mono1) simp
    with assms(3) show ?thesis by simp
  qed
  then have "concat (map ?f [0..<3]) ! (c * (cols img * rows img) + (x * rows img + y))
      = ?f c ! (x * rows img + y)"
    using assms(1) lf by (intro nth_concat_upt) simp_all
  also have "\<dots> = ?g c x ! y"
    using assms(2,3) by (intro nth_concat_upt) simp_all
  also have "\<dots> = real (unat (pixel img y x c)) / 255"
    using assms(3) by simp
  finally have "concat (map ?f [0..<3]) ! (c * (cols img * rows img) + (x * rows img + y))
      = real (unat (pixel img y x c)) / 255" .
  moreover have "c * (cols img * rows img) + (x * rows img + y) = (c * cols img + x) * rows img + y"
    by (simp add: algebra_simps)
  ultimately show ?thesis by (simp add: image_tensor_def)
qed

lemma image_tensor_length:
  "length (data (image_tensor img)) = 3 * cols img * rows img"
proof -
  let ?g = "\<lambda>c x. map (\<lambda>y. real (unat (pixel img y x c)) / 255) [0..<rows img]"
  let ?f = "\<lambda>c. concat (map (?g c) [0..<cols img])"
  have lf: "\<And>c. length (?f c) = cols img * rows img"
    by (rule length_concat_upt) simp
  have "length (concat (map ?f [0..<3])) = 3 * (cols img * rows img)"
    using lf by (rule length_concat_upt)
  then show ?thesis by (simp add: image_tensor_def)
qed

lemma stego_tensor:
  "data (image_tensor stego_image) =
     [1, 1, 1, 1, 1, 1, 1, 1,
      0, 0, 0, 0, 0, 0, 0, 0, 0, 0, 0, 0, 0, 0, 0, 0,
      0, 0, 0, 0, 0, 0, 0, 0, 0, 0, 0, 0, 0, 0, 0, 0,
      0, 1, 0, 0, 0, 0, 0, 1]"
  by (simp add: image_tensor_def stego_image_def upt_rec)

lemma white_tensor:
  "data (image_tensor white_image) = [1, 1, 1, 1, 1, 1, 1, 1, 1, 1, 1, 1]"
  by (simp add: image_tensor_def white_image_def upt_rec)

text \<open>
  C3. \<open>decode\<close> raises \<^verbatim>\<open>ValueError('Unable to read <path>.')\<close>, the
  spec's InputError, when the path does not exist. When the path exists and
  \<^verbatim>\<open>imread\<close> raises on it, \<open>decode\<close> raises the error of \<^verbatim>\<open>imread\<close>.
  When the path exists and the image is read, the decoder is given the
  tensor of shape \<open>(1, 3, cols, rows)\<close> whose entry at \<open>(0, c, x, y)\<close> is the
  byte of the image at row \<open>y\<close>, column \<open>x\<close> and channel \<open>c\<close>, divided by
  255, so that every entry lies in \<open>[0, 1]\<close>; the bits are the logits above
  0; and \<open>decode\<close> raises \<^verbatim>\<open>ValueError('Failed to find message.')\<close>, the
  spec's DecodeError, exactly when every fragment decodes to no text or to
  the empty one; as soon as one fragment decodes to a text, \<open>decode\<close>
  returns a text, whatever the other fragments are.
\<close>

theorem decode_failures:
  "(\<not> path_exists env path \<longrightarrow>
      decode env path = Inl (ValueError (''Unable to read '' @ path @ ''.'')))
   \<and> (path_exists env path \<and> imread env path = Inl e \<longrightarrow> decode env path = Inl e)
   \<and> (path_exists env path \<and> imread env path = Inr img \<longrightarrow>
        shape (image_tensor img) = [1, 3, cols img, rows img]
      \<and> length (data (image_tensor img)) = 3 * cols img * rows img
      \<and> (\<forall>c < 3. \<forall>x < cols img. \<forall>y < rows img.
            data (image_tensor img) ! ((c * cols img + x) * rows img + y)
              = real (unat (pixel img y x c)) / 255)
      \<and> (\<forall>x \<in> set (data (image_tensor img)). 0 \<le> x \<and> x \<le> 1)
      \<and> decode env path =
          decode_bits (bits_to_bytearray env) (bytearray_to_text env)
            (map (\<lambda>x. 0 < x) (data (decoder env (image_tensor img))))
      \<and> (decode env path = Inl (ValueError ''Failed to find message.'') \<longleftrightarrow>
           (\<forall>f \<in> set (split_terminator [] (bits_to_bytearray env
                          (map (\<lambda>x. 0 < x) (data (decoder env (image_tensor img)))))).
               bytearray_to_text env f = None \<or> bytearray_to_text env f = Some []))
      \<and> ((\<exists>f \<in> set (split_terminator [] (bits_to_bytearray env
                          (map (\<lambda>x. 0 < x) (data (decoder env (image_tensor img)))))).
               \<exists>t. bytearray_to_text env f = Some t \<and> t \<noteq> []) \<longrightarrow>
           (\<exists>t. decode env path = Inr t)))"
proof -
  let ?bits = "map (\<lambda>x. 0 < x) (data (decoder env (image_tensor img)))"
  let ?frags = "split_terminator [] (bits_to_bytearray env ?bits)"
  let ?xs = "decoded_texts (bytearray_to_text env) ?frags"
  have bits_eq: "decode_bits (bits_to_bytearray env) (bytearray_to_text env) ?bits =
      (case most_frequent_first ?xs of
         None \<Rightarrow> Inl (ValueError ''Failed to find message.'') | Some t \<Rightarrow> Inr t)"
    by (rule decode_bits_eq)
  have fail: "decode_bits (bits_to_bytearray env) (bytearray_to_text env) ?bits =
        Inl (ValueError ''Failed to find message.'') \<longleftrightarrow> ?xs = []"
    using most_frequent_first_None[of ?xs]
    by (cases "most_frequent_first ?xs") (simp_all add: bits_eq)
  have ok: "?xs \<noteq> [] \<Longrightarrow>
      \<exists>t. decode_bits (bits_to_bytearray env) (bytearray_to_text env) ?bits = Inr t"
    using most_frequent_first_None[of ?xs]
    by (cases "most_frequent_first ?xs") (simp_all add: bits_eq)
  have nil: "?xs = [] \<longleftrightarrow>
      (\<forall>f \<in> set ?frags. bytearray_to_text env f = None \<or> bytearray_to_text env f = Some [])"
    by (rule decoded_texts_Nil)
  show ?thesis
  proof (intro conjI impI allI)
    assume "\<not> path_exists env path"
    then show "decode env path = Inl (ValueError (''Unable to read '' @ path @ ''.''))"
      by (simp add: decode_def)
  next
    assume "path_exists env path \<and> imread env path = Inl e"
    then show "decode env path = Inl e"
      by (simp add: decode_def)
  next
    show "shape (image_tensor img) = [1, 3, cols img, rows img]"
      by (simp add: image_tensor_def)
  next
    show "length (data (image_tensor img)) = 3 * cols img * rows img"
      by (rule image_tensor_length)
  next
    fix c x y :: nat
    assume "c < 3" "x < cols img" "y < rows img"
    then show "data (image_tensor img) ! ((c * cols img + x) * rows img + y)
              = real (unat (pixel img y x c)) / 255"
      by (rule image_tensor_entry)
  next
    show "\<forall>x \<in> set (data (image_tensor img)). 0 \<le> x \<and> x \<le> 1"
      using image_tensor_unit by blast
  next
    assume h: "path_exists env path \<and> imread env path = Inr img"
    then show "decode env path =
        decode_bits (bits_to_bytearray env) (bytearray_to_text env) ?bits"
      by (simp add: decode_def)
  next
    assume h: "path_exists env path \<and> imread env path = Inr img"
    then have d: "decode env path =
        decode_bits (bits_to_bytearray env) (bytearray_to_text env) ?bits"
      by (simp add: decode_def)
    show "decode env path = Inl (ValueError ''Failed to find message.'') \<longleftrightarrow>
      (\<forall>f \<in> set ?frags. bytearray_to_text env f = None \<or> bytearray_to_text env f = Some [])"
      using fail nil d by simp
  next
    assume h: "path_exists env path \<and> imread env path = Inr img"
    then have d: "decode env path =
        decode_bits (bits_to_bytearray env) (bytearray_to_text env) ?bits"
      by (simp add: decode_def)
    assume "\<exists>f \<in> set ?frags. \<exists>t. bytearray_to_text env f = Some t \<and> t \<noteq> []"
    then obtain f t where "f \<in> set ?frags" "bytearray_to_text env f = Some t" "t \<noteq> []"
      by blast
    then have "\<not> (\<forall>f \<in> set ?frags. bytearray_to_text env f = None \<or> bytearray_to_text env f = Some [])"
      by force
    with nil have "?xs \<noteq> []" by blast
    with ok d show "\<exists>t. decode env path = Inr t" by simp
  qed
qed

text \<open>
  On the image \<open>stego_image\<close> the fragments are the byte \<open>255\<close>, which is
  no text, and the letter \<open>A\<close>, which \<open>decode\<close> returns; on the white
  image the one fragment is no text.
\<close>

theorem decode_failures_witness:
  "decode (reader_env stego_image) ''missing.png'' = Inl (ValueError ''Unable to read missing.png.'')
   \<and> decode (reader_env stego_image) ''notes.txt'' =
       Inl (ValueError ''Could not find a format to read the specified file in single-image mode'')
   \<and> shape (image_tensor stego_image) = [1, 3, 4, 4]
   \<and> length (data (image_tensor stego_image)) = 48
   \<and> data (image_tensor stego_image) ! 41 = 1
   \<and> data (image_tensor stego_image) ! 38 = 0
   \<and> split_terminator [] (bits_to_bytes
        (map (\<lambda>x. 0 < x) (data (decoder (reader_env stego_image) (image_tensor stego_image)))))
       = [[255], [65]]
   \<and> ascii_text [255] = None
   \<and> ascii_text [65] = Some ''A''
   \<and> (\<exists>t. decode (reader_env stego_image) ''stego.png'' = Inr t)
   \<and> decode (reader_env stego_image) ''stego.png'' = Inr ''A''
   \<and> decode (reader_env white_image) ''stego.png'' = Inl (ValueError ''Failed to find message.'')"
proof -
  let ?msg = "''Could not find a format to read the specified file in single-image mode''"
  let ?bits = "[True, True, True, True, True, True, True, True] @ replicate 32 False @
      [False, True, False, False, False, False, False, True]"
  have 1: "decode (reader_env stego_image) ''missing.png'' = Inl (ValueError ''Unable to read missing.png.'')"
    using decode_failures[of "reader_env stego_image" "''missing.png''" "ValueError ?msg" stego_image]
    by (simp add: reader_env_def)
  have 2: "decode (reader_env stego_image) ''notes.txt'' = Inl (ValueError ?msg)"
    using decode_failures[of "reader_env stego_image" "''notes.txt''" "ValueError ?msg" stego_image]
    by (simp add: reader_env_def)
  have pre: "path_exists (reader_env stego_image) ''stego.png''
      \<and> imread (reader_env stego_image) ''stego.png'' = Inr stego_image"
    by (simp add: reader_env_def)
  note L = decode_failures[of "reader_env stego_image" "''stego.png''" "ValueError ?msg" stego_image,
      THEN conjunct2, THEN conjunct2, THEN mp, OF pre]
  have 3: "shape (image_tensor stego_image) = [1, 3, 4, 4]"
    using L[THEN conjunct1] by (simp add: stego_image_def)
  have 4: "length (data (image_tensor stego_image)) = 48"
    using L[THEN conjunct2, THEN conjunct1] by (simp add: stego_image_def)
  note E = L[THEN conjunct2, THEN conjunct2, THEN conjunct1]
  have 5: "data (image_tensor stego_image) ! 41 = 1"
    using E[rule_format, of 2 2 1] by (simp add: stego_image_def)
  have 6: "data (image_tensor stego_image) ! 38 = 0"
    using E[rule_format, of 2 1 2] by (simp add: stego_image_def)
  have sel: "bits_to_bytearray (reader_env img) = bits_to_bytes"
    "bytearray_to_text (reader_env img) = ascii_text"
    "data (decoder (reader_env img) t) = map (\<lambda>v. v - 1 / 2) (data t)" for img t
    by (simp_all add: reader_env_def)
  have bits: "map (\<lambda>x. 0 < x) (map (\<lambda>v. v - 1 / 2) (data (image_tensor stego_image))) = ?bits"
    by (simp add: stego_tensor eval_nat_numeral)
  have "split_terminator [] (bits_to_bytes ?bits) = [[255], [65]]"
    by code_simp
  with bits have 7: "split_terminator [] (bits_to_bytes
        (map (\<lambda>x. 0 < x) (data (decoder (reader_env stego_image) (image_tensor stego_image)))))
       = [[255], [65]]"
    unfolding sel by (simp only:)
  have 8: "ascii_text [255] = None"
    by (simp add: ascii_text_def)
  have 9: "ascii_text [65] = Some ''A''"
    by code_simp
  have "\<exists>f \<in> set (split_terminator [] (bits_to_bytearray (reader_env stego_image)
        (map (\<lambda>x. 0 < x) (data (decoder (reader_env stego_image) (image_tensor stego_image)))))).
      \<exists>t. bytearray_to_text (reader_env stego_image) f = Some t \<and> t \<noteq> []"
    unfolding sel(1,2) 7 using 9 by simp
  with L[THEN conjunct2, THEN conjunct2, THEN conjunct2, THEN conjunct2, THEN conjunct2,
      THEN conjunct2]
  have 10: "\<exists>t. decode (reader_env stego_image) ''stego.png'' = Inr t" by (rule mp)
  have "decode (reader_env stego_image) ''stego.png'' =
      decode_bits bits_to_bytes ascii_text
        (map (\<lambda>x. 0 < x) (map (\<lambda>v. v - 1 / 2) (data (image_tensor stego_image))))"
    using L[THEN conjunct2, THEN conjunct2, THEN conjunct2, THEN conjunct2, THEN conjunct1]
    unfolding sel .
  moreover have "decode_bits bits_to_bytes ascii_text ?bits = Inr ''A''"
    by code_simp
  ultimately have 11: "decode (reader_env stego_image) ''stego.png'' = Inr ''A''"
    using bits by (simp only:)
  have pre': "path_exists (reader_env white_image) ''stego.png''
      \<and> imread (reader_env white_image) ''stego.png'' = Inr white_image"
    by (simp add: reader_env_def)
  have wbits: "map (\<lambda>x. 0 < x) (map (\<lambda>v. v - 1 / 2) (data (image_tensor white_image)))
      = [True, True, True, True, True, True, True, True, True, True, True, True]"
    by (simp add: white_tensor)
  have frags: "split_terminator [] (bits_to_bytes [True, True, True, True, True, True, True, True, True, True, True, True]) = [[255]]"
    by code_simp
  from decode_failures[of "reader_env white_image" "''stego.png''" "ValueError ?msg" white_image,
      THEN conjunct2, THEN conjunct2, THEN mp, OF pre']
  have "decode (reader_env white_image) ''stego.png'' = Inl (ValueError ''Failed to find message.'') \<longleftrightarrow>
      (\<forall>f \<in> set (split_terminator [] (bits_to_bytes
           (map (\<lambda>x. 0 < x) (map (\<lambda>v. v - 1 / 2) (data (image_tensor white_image)))))).
          ascii_text f = None \<or> ascii_text f = Some [])"
    unfolding sel by (elim conjE)
  also have "\<dots> \<longleftrightarrow> (\<forall>f \<in> set [[255]]. ascii_text f = None \<or> ascii_text f = Some [])"
    by (simp only: wbits frags)
  also have "\<dots>" using 8 by simp
  finally have 12: "decode (reader_env white_image) ''stego.png'' = Inl (ValueError ''Failed to find message.'')" .
  from 1 2 3 4 5 6 7 8 9 10 11 12 show ?thesis by (intro conjI)
qed


text \<open>
  A path that exists does not always get as far as the fragments: on
  \<^verbatim>\<open>notes.txt\<close>, which exists and is no image, \<open>decode\<close> raises the
  error of \<^verbatim>\<open>imread\<close>, which is neither the InputError nor the
  DecodeError.
\<close>

theorem decode_unreadable_counterexample:
  "path_exists (reader_env stego_image) ''notes.txt''
   \<and> decode (reader_env stego_image) ''notes.txt'' =
       Inl (ValueError ''Could not find a format to read the specified file in single-image mode'')
   \<and> decode (reader_env stego_image) ''notes.txt'' \<noteq> Inl (ValueError ''Unable to read notes.txt.'')
   \<and> decode (reader_env stego_image) ''notes.txt'' \<noteq> Inl (ValueError ''Failed to find message.'')"
  by (simp add: decode_def reader_env_def)


section \<open>Properties of the critic phase\<close>

lemma for_each_invariant:
  assumes "for_each body s xs = Inr s'" and "xs \<noteq> []"
    and "\<And>t x t'. body t x = Inr t' \<Longrightarrow> P t'"
  shows "P s'"
  using assms(1,2)
proof (induction xs arbitrary: s)
  case Nil
  then show ?case by simp
next
  case (Cons x xs)
  from Cons.prems(1) obtain t where t: "body s x = Inr t" "for_each body t xs = Inr s'"
    by (auto split: sum.splits)
  show ?case
  proof (cases "xs = []")
    case True
    with t assms(3) show ?thesis by auto
  next
    case False
    with Cons.IH t show ?thesis by blast
  qed
qed

lemma clamp_range: "lo \<le> hi \<Longrightarrow> lo \<le> clamp lo hi x \<and> clamp lo hi x \<le> hi"
  by (simp add: clamp_def)

lemma clipped_clamp: "clipped (map (map (clamp (- 0.1) 0.1)) ps)"
  by (auto simp: clipped_def list_all_iff clamp_def min_def max_def)

lemma fit_critic_batch_Inr:
  assumes "fit_critic_batch env (s, g, m) cover = Inr (s', g', m')"
  shows "\<exists>payload opt.
      random_data (data_depth s) g cover = Inr (payload, g')
    \<and> critic_optimizer s = Some opt
    \<and> append_all m [(''train.cover_score'', critic_score env (critic_params s) cover),
                    (''train.generated_score'', critic_score env (critic_params s)
                        (encoder_at env (encoder_params s) cover payload))] = Inr m'
    \<and> s' = s\<lparr>critic_params := map (map (clamp (- 0.1) 0.1))
                 (snd (adam_step env opt
                    (critic_objective env cover (encoder_at env (encoder_params s) cover payload))
                    (critic_params s))),
              critic_optimizer := Some (fst (adam_step env opt
                    (critic_objective env cover (encoder_at env (encoder_params s) cover payload))
                    (critic_params s)))\<rparr>"
  using assms
  by (auto simp: fit_critic_batch_def Let_def simp del: append_all.simps
        split: sum.splits option.splits prod.splits)

lemma fit_critic_batch_clipped:
  "fit_critic_batch env st cover = Inr st' \<Longrightarrow> clipped (critic_params (fst st'))"
  using fit_critic_batch_Inr[of env "fst st" "fst (snd st)" "snd (snd st)" cover
      "fst st'" "fst (snd st')" "snd (snd st')"]
  by (auto simp: clipped_clamp)


lemma toy_critic_batch_run:
  "\<exists>st. fit_critic_batch toy_env (toy_model, toy_rng, new_metrics) toy_cover = Inr st"
  by (simp add: fit_critic_batch_def toy_env_def toy_cover_def toy_model_def
      toy_rng_def new_metrics_def METRIC_FIELDS_def random_data_def append_metric_def Let_def)

lemma toy_critic_run:
  "\<exists>st. fit_critic toy_env [toy_cover, toy_cover] (toy_model, toy_rng, new_metrics) = Inr st"
  by (simp add: fit_critic_def fit_critic_batch_def toy_env_def toy_cover_def toy_model_def
      toy_rng_def new_metrics_def METRIC_FIELDS_def random_data_def append_metric_def Let_def)

text \<open>
  C5. After the optimizer step of every batch of the critic phase, every
  entry of every parameter of the critic lies in \<open>[-0.1, 0.1]\<close>: this holds
  for the state a batch leaves, for the state at the end of the \<open>k\<close>-th
  iteration of the loop (the first \<open>k\<close> batches run), and for the state the
  whole phase leaves, whatever the optimizer did in the step.
\<close>

theorem critic_parameters_clipped:
  "(fit_critic_batch env st cover = Inr st' \<longrightarrow>
      (\<forall>p \<in> set (critic_params (fst st')). \<forall>x \<in> set p. - 0.1 \<le> x \<and> x \<le> 0.1))
   \<and> (\<forall>k. 0 < k \<and> k \<le> length train \<and> fit_critic env (take k train) st = Inr st' \<longrightarrow>
      (\<forall>p \<in> set (critic_params (fst st')). \<forall>x \<in> set p. - 0.1 \<le> x \<and> x \<le> 0.1))
   \<and> (train \<noteq> [] \<and> fit_critic env train st = Inr st' \<longrightarrow>
      (\<forall>p \<in> set (critic_params (fst st')). \<forall>x \<in> set p. - 0.1 \<le> x \<and> x \<le> 0.1))"
proof -
  have run: "clipped (critic_params (fst t'))"
    if "fit_critic env xs t = Inr t'" "xs \<noteq> []" for xs t t'
    using that(1)[unfolded fit_critic_def] that(2)
    by (rule for_each_invariant) (rule fit_critic_batch_clipped)
  have unfold: "clipped ps \<Longrightarrow> \<forall>p \<in> set ps. \<forall>x \<in> set p. - 0.1 \<le> x \<and> x \<le> 0.1" for ps
    by (simp add: clipped_def list_all_iff)
  show ?thesis
  proof (intro conjI impI allI)
    assume "fit_critic_batch env st cover = Inr st'"
    then show "\<forall>p \<in> set (critic_params (fst st')). \<forall>x \<in> set p. - 0.1 \<le> x \<and> x \<le> 0.1"
      by (intro unfold fit_critic_batch_clipped)
  next
    fix k assume k: "0 < k \<and> k \<le> length train \<and> fit_critic env (take k train) st = Inr st'"
    then have "take k train \<noteq> []" by auto
    with k show "\<forall>p \<in> set (critic_params (fst st')). \<forall>x \<in> set p. - 0.1 \<le> x \<and> x \<le> 0.1"
      by (intro unfold run[of "take k train" st st']) simp_all
  next
    assume "train \<noteq> [] \<and> fit_critic env train st = Inr st'"
    then show "\<forall>p \<in> set (critic_params (fst st')). \<forall>x \<in> set p. - 0.1 \<le> x \<and> x \<le> 0.1"
      by (intro unfold run[of train st st']) simp_all
  qed
qed

theorem critic_parameters_clipped_witness:
  "(\<exists>st. fit_critic_batch toy_env (toy_model, toy_rng, new_metrics) toy_cover = Inr st
        \<and> (\<forall>p \<in> set (critic_params (fst st)). \<forall>x \<in> set p. - 0.1 \<le> x \<and> x \<le> 0.1))
   \<and> (\<exists>st. 0 < (1::nat) \<and> (1::nat) \<le> length [toy_cover, toy_cover]
        \<and> fit_critic toy_env (take 1 [toy_cover, toy_cover]) (toy_model, toy_rng, new_metrics) = Inr st
        \<and> (\<forall>p \<in> set (critic_params (fst st)). \<forall>x \<in> set p. - 0.1 \<le> x \<and> x \<le> 0.1))
   \<and> (\<exists>st. [toy_cover, toy_cover] \<noteq> []
        \<and> fit_critic toy_env [toy_cover, toy_cover] (toy_model, toy_rng, new_metrics) = Inr st
        \<and> (\<forall>p \<in> set (critic_params (fst st)). \<forall>x \<in> set p. - 0.1 \<le> x \<and> x \<le> 0.1))"
proof -
  let ?st = "(toy_model, toy_rng, new_metrics)"
  obtain st1 where 1: "fit_critic_batch toy_env ?st toy_cover = Inr st1"
    using toy_critic_batch_run by blast
  then have 2: "fit_critic toy_env (take 1 [toy_cover, toy_cover]) ?st = Inr st1"
    by (simp add: fit_critic_def)
  obtain st2 where 3: "fit_critic toy_env [toy_cover, toy_cover] ?st = Inr st2"
    using toy_critic_run by blast
  from 1 critic_parameters_clipped[of toy_env ?st toy_cover st1]
  have "\<forall>p \<in> set (critic_params (fst st1)). \<forall>x \<in> set p. - 0.1 \<le> x \<and> x \<le> 0.1"
    by blast
  moreover from 3 critic_parameters_clipped[of toy_env ?st toy_cover st2 "[toy_cover, toy_cover]"]
  have "\<forall>p \<in> set (critic_params (fst st2)). \<forall>x \<in> set p. - 0.1 \<le> x \<and> x \<le> 0.1"
    by blast
  ultimately show ?thesis using 1 2 3 by auto
qed


text \<open>
  C1 (as the code has it). In the critic phase, for every batch that runs
  through, the critic optimizer is handed the scalar
  \<open>critic_score cover - critic_score generated\<close> as a function of the
  parameters of the critic, and steps on it; the new parameters are the
  result of that step, clipped. The two scores it is the difference of, at
  the parameters before the step, are the values appended to
  \<^verbatim>\<open>train.cover_score\<close> and \<^verbatim>\<open>train.generated_score\<close>. An optimizer that
  minimises what it is handed therefore lowers
  \<open>critic_score cover - critic_score generated\<close>; the coder phase, which
  adds \<open>critic_score generated\<close> to the loss of the encoder, pushes the other
  way.
\<close>

theorem critic_step_objective:
  "fit_critic_batch env (s, g, m) cover = Inr (s', g', m') \<longrightarrow>
     (\<exists>payload opt.
        random_data (data_depth s) g cover = Inr (payload, g')
      \<and> critic_optimizer s = Some opt
      \<and> critic_params s' = map (map (clamp (- 0.1) 0.1))
           (snd (adam_step env opt
              (critic_objective env cover (encoder_at env (encoder_params s) cover payload))
              (critic_params s)))
      \<and> (\<forall>crit. critic_objective env cover (encoder_at env (encoder_params s) cover payload) crit
             = Inr (critic_score env crit cover
                    - critic_score env crit (encoder_at env (encoder_params s) cover payload)))
      \<and> append_all m
           [(''train.cover_score'', critic_score env (critic_params s) cover),
            (''train.generated_score'', critic_score env (critic_params s)
                (encoder_at env (encoder_params s) cover payload))] = Inr m')"
proof
  assume "fit_critic_batch env (s, g, m) cover = Inr (s', g', m')"
  from fit_critic_batch_Inr[OF this] obtain payload opt where
    h: "random_data (data_depth s) g cover = Inr (payload, g')"
       "critic_optimizer s = Some opt"
       "append_all m [(''train.cover_score'', critic_score env (critic_params s) cover),
                    (''train.generated_score'', critic_score env (critic_params s)
                        (encoder_at env (encoder_params s) cover payload))] = Inr m'"
       "s' = s\<lparr>critic_params := map (map (clamp (- 0.1) 0.1))
                 (snd (adam_step env opt
                    (critic_objective env cover (encoder_at env (encoder_params s) cover payload))
                    (critic_params s))),
              critic_optimizer := Some (fst (adam_step env opt
                    (critic_objective env cover (encoder_at env (encoder_params s) cover payload))
                    (critic_params s)))\<rparr>"
    by blast
  from h(4) have "critic_params s' = map (map (clamp (- 0.1) 0.1))
           (snd (adam_step env opt
              (critic_objective env cover (encoder_at env (encoder_params s) cover payload))
              (critic_params s)))" by simp
  with h(1,2,3) show "\<exists>payload opt.
        random_data (data_depth s) g cover = Inr (payload, g')
      \<and> critic_optimizer s = Some opt
      \<and> critic_params s' = map (map (clamp (- 0.1) 0.1))
           (snd (adam_step env opt
              (critic_objective env cover (encoder_at env (encoder_params s) cover payload))
              (critic_params s)))
      \<and> (\<forall>crit. critic_objective env cover (encoder_at env (encoder_params s) cover payload) crit
             = Inr (critic_score env crit cover
                    - critic_score env crit (encoder_at env (encoder_params s) cover payload)))
      \<and> append_all m
           [(''train.cover_score'', critic_score env (critic_params s) cover),
            (''train.generated_score'', critic_score env (critic_params s)
                (encoder_at env (encoder_params s) cover payload))] = Inr m'"
    by (auto simp: critic_objective_def simp del: append_all.simps)
qed

theorem critic_step_objective_witness:
  "\<exists>s' g' m'. fit_critic_batch toy_env (toy_model, toy_rng, new_metrics) toy_cover = Inr (s', g', m')
     \<and> critic_params s' = [[- 0.1, 0.1], [- 0.1]]"
proof -
  obtain s' g' m' where
    run: "fit_critic_batch toy_env (toy_model, toy_rng, new_metrics) toy_cover = Inr (s', g', m')"
    using toy_critic_batch_run by (metis prod_cases3)
  from critic_step_objective[of toy_env toy_model toy_rng new_metrics toy_cover s' g' m'] run
  obtain payload opt where
    "critic_params s' = map (map (clamp (- 0.1) 0.1))
           (snd (adam_step toy_env opt
              (critic_objective toy_env toy_cover
                 (encoder_at toy_env (encoder_params toy_model) toy_cover payload))
              (critic_params toy_model)))"
    by blast
  then have "critic_params s' = [[- 0.1, 0.1], [- 0.1]]"
    by (simp add: toy_env_def toy_model_def clamp_def)
  with run show ?thesis by blast
qed

text \<open>
  The scalar is not \<open>critic_score generated - critic_score cover\<close>: for the
  cover \<open>0, 0\<close> and the generated image \<open>1, 1\<close>, scored by their means, the
  optimizer is handed \<open>- 1\<close> and that difference is \<open>1\<close>.
\<close>

theorem critic_objective_sign_counterexample:
  "critic_objective toy_env toy_cover (encoder_at toy_env [] toy_cover toy_payload) [] = Inr (- 1)
   \<and> critic_score toy_env [] (encoder_at toy_env [] toy_cover toy_payload)
        - critic_score toy_env [] toy_cover = 1
   \<and> critic_objective toy_env toy_cover (encoder_at toy_env [] toy_cover toy_payload) []
        \<noteq> Inr (critic_score toy_env [] (encoder_at toy_env [] toy_cover toy_payload)
                 - critic_score toy_env [] toy_cover)"
  by (simp add: critic_objective_def critic_score_def toy_env_def toy_cover_def tmean_def)


section \<open>Properties of the coder phase and of the validation\<close>

lemma decoder_acc_bounds: "0 \<le> decoder_acc decoded payload \<and> decoder_acc decoded payload \<le> 1"
proof -
  let ?n = "length (filter (\<lambda>(d, p). (0 \<le> d) = (0.5 \<le> p)) (zip (data decoded) (data payload)))"
  have "?n \<le> length (zip (data decoded) (data payload))" by (rule length_filter_le)
  also have "\<dots> \<le> length (data payload)" by simp
  finally have "real ?n \<le> real (numel payload)" by (simp add: numel_def)
  then have "real ?n / real (numel payload) \<le> 1"
    by (cases "numel payload = 0") (simp_all add: divide_le_eq)
  then show ?thesis by (simp add: decoder_acc_def)
qed

lemma coding_scores_Inr:
  "coding_scores cover generated payload decoded = Inr (mse, loss, acc) \<Longrightarrow>
     mse_loss generated cover = Inr mse
   \<and> binary_cross_entropy_with_logits decoded payload = Inr loss
   \<and> acc = decoder_acc decoded payload"
  by (auto simp: coding_scores_def split: sum.splits)

lemma coders_forward_Inr:
  assumes "coders_forward env use_perceptual crit cover payload bt dec enc = Inr r"
  shows "mse_loss (encoder_at env enc cover payload) cover = Inr (encoder_mse r)
    \<and> binary_cross_entropy_with_logits
         (decoder_at env dec (encoder_at env enc cover payload)) payload = Inr (decoder_loss_g r)
    \<and> binary_cross_entropy_with_logits
         (decoder_at env dec (apply_transform env bt (encoder_at env enc cover payload))) payload
        = Inr (decoder_loss_t r)
    \<and> decoder_acc_g r = decoder_acc (decoder_at env dec (encoder_at env enc cover payload)) payload
    \<and> decoder_acc_t r =
        decoder_acc (decoder_at env dec (apply_transform env bt (encoder_at env enc cover payload)))
          payload
    \<and> generated_score r = critic_score env crit (encoder_at env enc cover payload)
    \<and> perceptual_distance env cover (encoder_at env enc cover payload)
        = Inr (perceptual_loss_term r)
    \<and> total_loss r = 100 * encoder_mse r + (decoder_loss_g r + decoder_loss_t r) / 2
         + generated_score r + (if use_perceptual then perceptual_loss_term r else 0)"
proof -
  let ?G = "encoder_at env enc cover payload"
  let ?dg = "decoder_at env dec ?G"
  let ?dt = "decoder_at env dec (apply_transform env bt ?G)"
  have ed: "encode_decode_with env enc dec cover payload False bt = (?G, payload, ?dg, ?dt)"
    by (simp add: encode_decode_with_def Let_def)
  from assms obtain mse loss_g acc_g where
    1: "coding_scores cover ?G payload ?dg = Inr (mse, loss_g, acc_g)"
    unfolding coders_forward_def ed by (auto split: sum.splits)
  from assms 1 obtain mse' loss_t acc_t where
    2: "coding_scores cover ?G payload ?dt = Inr (mse', loss_t, acc_t)"
    unfolding coders_forward_def ed by (auto split: sum.splits)
  from assms 1 2 obtain pl where
    3: "perceptual_distance env cover ?G = Inr pl"
    unfolding coders_forward_def ed by (auto simp: Let_def split: sum.splits)
  from assms 1 2 3 have r: "r = \<lparr>encoder_mse = mse, decoder_loss_g = loss_g, decoder_acc_g = acc_g,
       decoder_loss_t = loss_t, decoder_acc_t = acc_t,
       generated_score = critic_score env crit ?G, perceptual_loss_term = pl,
       total_loss = (if use_perceptual
                     then 100 * mse + (loss_g + loss_t) / 2 + critic_score env crit ?G + pl
                     else 100 * mse + (loss_g + loss_t) / 2 + critic_score env crit ?G)\<rparr>"
    unfolding coders_forward_def ed by (simp add: Let_def)
  from coding_scores_Inr[OF 1] coding_scores_Inr[OF 2] 3 show ?thesis
    by (simp add: r)
qed

lemma append_metric_lookup:
  "append_metric m key v = Inr m' \<Longrightarrow>
     map fst m' = map fst m
   \<and> map_of m' k = map_option (\<lambda>vs. if k = key then vs @ [v] else vs) (map_of m k)"
proof -
  assume a: "append_metric m key v = Inr m'"
  then have m': "m' = map (\<lambda>(k, vs). if k = key then (k, vs @ [v]) else (k, vs)) m"
    by (simp add: append_metric_def split: if_splits)
  have "map fst (map (\<lambda>(k, vs). if k = key then (k, vs @ [v]) else (k, vs)) m) = map fst m"
    by (induction m) auto
  moreover have "map_of (map (\<lambda>(k, vs). if k = key then (k, vs @ [v]) else (k, vs)) m) k
      = map_option (\<lambda>vs. if k = key then vs @ [v] else vs) (map_of m k)"
    by (induction m) auto
  ultimately show ?thesis by (simp add: m')
qed

lemma append_all_lookup:
  "append_all m kvs = Inr m' \<Longrightarrow>
     map fst m' = map fst m
   \<and> map_of m' k = map_option (\<lambda>vs. vs @ map snd (filter (\<lambda>kv. fst kv = k) kvs)) (map_of m k)"
proof (induction kvs arbitrary: m)
  case Nil
  then show ?case by (simp add: option.map_ident)
next
  case (Cons kv kvs)
  obtain key v where kv: "kv = (key, v)" by (cases kv)
  from Cons.prems kv obtain m1 where
    1: "append_metric m key v = Inr m1" and 2: "append_all m1 kvs = Inr m'"
    by (auto split: sum.splits)
  from append_metric_lookup[OF 1, of k] Cons.IH[OF 2] show ?case
    by (cases "map_of m k") (auto simp: kv)
qed


lemma append_all_appended:
  assumes "append_all m kvs = Inr m'" and "distinct (map fst kvs)" and "(key, v) \<in> set kvs"
  shows "appended m m' key v"
proof -
  have present: "fst ` set kvs \<subseteq> fst ` set m" if "append_all m kvs = Inr m'" for m
    using that
  proof (induction kvs arbitrary: m)
    case Nil
    then show ?case by simp
  next
    case (Cons kv kvs)
    obtain k x where kv: "kv = (k, x)" by (cases kv)
    from Cons.prems kv obtain m1 where
      1: "append_metric m k x = Inr m1" and 2: "append_all m1 kvs = Inr m'"
      by (auto split: sum.splits)
    from 1 have "k \<in> fst ` set m" by (simp add: append_metric_def split: if_splits)
    moreover from append_metric_lookup[OF 1] have "fst ` set m1 = fst ` set m"
      by (metis set_map)
    ultimately show ?case using Cons.IH[OF 2] kv by auto
  qed
  from present[OF assms(1)] assms(3) have "key \<in> fst ` set m" by force
  then obtain vs where vs: "map_of m key = Some vs"
    by (metis domD dom_map_of_conv_image_fst)
  have "filter (\<lambda>kv. fst kv = key) kvs = [(key, v)]"
    using assms(2,3)
  proof (induction kvs)
    case Nil
    then show ?case by simp
  next
    case (Cons kv kvs)
    show ?case
    proof (cases "kv = (key, v)")
      case True
      with Cons.prems(1) have "key \<notin> fst ` set kvs" by auto
      then have "\<forall>x \<in> set kvs. fst x \<noteq> key" by force
      then have "filter (\<lambda>kv. fst kv = key) kvs = []" by (simp add: filter_empty_conv)
      with True show ?thesis by simp
    next
      case False
      with Cons.prems have in_rest: "(key, v) \<in> set kvs" by simp
      then have "key \<in> fst ` set kvs" by force
      with Cons.prems(1) have "fst kv \<noteq> key" by auto
      with Cons.IH in_rest Cons.prems(1) show ?thesis by simp
    qed
  qed
  with append_all_lookup[OF assms(1), of key] vs show ?thesis
    by (simp add: appended_def)
qed

lemma validate_scores_Inr:
  assumes "validate_scores env s tr cover payload = Inr scores"
  shows "\<exists>mse loss_g loss_t pl.
      mse_loss (quantized (encoder_at env (encoder_params s) cover payload)) cover = Inr mse
    \<and> binary_cross_entropy_with_logits
         (decoder_at env (decoder_params s)
            (quantized (encoder_at env (encoder_params s) cover payload))) payload = Inr loss_g
    \<and> binary_cross_entropy_with_logits
         (decoder_at env (decoder_params s)
            (apply_transform env tr (quantized (encoder_at env (encoder_params s) cover payload))))
         payload = Inr loss_t
    \<and> perceptual_distance env cover (quantized (encoder_at env (encoder_params s) cover payload))
         = Inr pl
    \<and> scores =
        [(''val.perceptual_loss'', pl),
         (''val.encoder_mse'', mse),
         (''val.decoder_loss_g'', loss_g),
         (''val.decoder_loss_t'', loss_t),
         (''val.decoder_acc_g'', decoder_acc (decoder_at env (decoder_params s)
            (quantized (encoder_at env (encoder_params s) cover payload))) payload),
         (''val.decoder_acc_t'', decoder_acc (decoder_at env (decoder_params s)
            (apply_transform env tr (quantized (encoder_at env (encoder_params s) cover payload))))
            payload),
         (''val.cover_score'', critic_score env (critic_params s) cover),
         (''val.generated_score'', critic_score env (critic_params s)
            (quantized (encoder_at env (encoder_params s) cover payload))),
         (''val.ssim'', ssim env cover (quantized (encoder_at env (encoder_params s) cover payload))),
         (''val.psnr'', 10 * log 10 (4 / mse)),
         (''val.bpp_g'', real (data_depth s) * (2 * decoder_acc (decoder_at env (decoder_params s)
            (quantized (encoder_at env (encoder_params s) cover payload))) payload - 1)),
         (''val.bpp_t'', real (data_depth s) * (2 * decoder_acc (decoder_at env (decoder_params s)
            (apply_transform env tr (quantized (encoder_at env (encoder_params s) cover payload))))
            payload - 1))]"
proof -
  let ?Q = "quantized (encoder_at env (encoder_params s) cover payload)"
  let ?dg = "decoder_at env (decoder_params s) ?Q"
  let ?dt = "decoder_at env (decoder_params s) (apply_transform env tr ?Q)"
  have ed: "encode_decode_with env (encoder_params s) (decoder_params s) cover payload True tr
      = (?Q, payload, ?dg, ?dt)"
    by (simp add: encode_decode_with_def Let_def)
  from assms obtain mse loss_g acc_g where
    1: "coding_scores cover ?Q payload ?dg = Inr (mse, loss_g, acc_g)"
    unfolding validate_scores_def ed by (auto split: sum.splits)
  from assms 1 obtain mse' loss_t acc_t where
    2: "coding_scores cover ?Q payload ?dt = Inr (mse', loss_t, acc_t)"
    unfolding validate_scores_def ed by (auto split: sum.splits)
  from assms 1 2 obtain pl where
    3: "perceptual_distance env cover ?Q = Inr pl"
    unfolding validate_scores_def ed by (auto simp: Let_def split: sum.splits)
  from assms 1 2 3 have "scores =
        [(''val.perceptual_loss'', pl), (''val.encoder_mse'', mse),
         (''val.decoder_loss_g'', loss_g), (''val.decoder_loss_t'', loss_t),
         (''val.decoder_acc_g'', acc_g), (''val.decoder_acc_t'', acc_t),
         (''val.cover_score'', critic_score env (critic_params s) cover),
         (''val.generated_score'', critic_score env (critic_params s) ?Q),
         (''val.ssim'', ssim env cover ?Q),
         (''val.psnr'', 10 * log 10 (4 / mse)),
         (''val.bpp_g'', real (data_depth s) * (2 * acc_g - 1)),
         (''val.bpp_t'', real (data_depth s) * (2 * acc_t - 1))]"
    unfolding validate_scores_def ed by (simp add: Let_def)
  with coding_scores_Inr[OF 1] coding_scores_Inr[OF 2] 3 show ?thesis
    by blast
qed

lemma validate_batch_Inr:
  assumes "validate_batch env tr (s, g, m) cover = Inr (s', g', m')"
  shows "\<exists>payload scores.
      random_data (data_depth s) g cover = Inr (payload, g')
    \<and> validate_scores env s tr cover payload = Inr scores
    \<and> append_all m scores = Inr m' \<and> s' = s"
  using assms
  by (auto simp: validate_batch_def split: sum.splits prod.splits)


lemma fit_coders_batch_Inr:
  assumes "fit_coders_batch env transform transform_prob (s, g, m) cover = Inr (s', g', m')"
  shows "\<exists>payload r opt.
      random_data (data_depth s) (g\<lparr>unif_stream := (\<lambda>i. unif_stream g (i + 1))\<rparr>) cover
        = Inr (payload, g')
    \<and> coders_forward env (perceptual_loss s) (critic_params s) cover payload
         (if unif_stream g 0 < transform_prob then transform else None)
         (decoder_params s) (encoder_params s) = Inr r
    \<and> decoder_optimizer s = Some opt
    \<and> decoder_params s' @ encoder_params s' =
         snd (adam_step env opt
                (coders_objective env (perceptual_loss s) (critic_params s) cover payload
                   (if unif_stream g 0 < transform_prob then transform else None)
                   (length (decoder_params s)))
                (decoder_params s @ encoder_params s))
    \<and> append_all m
         [(''train.perceptual_loss'', perceptual_loss_term r),
          (''train.encoder_mse'', encoder_mse r),
          (''train.decoder_loss_t'', decoder_loss_t r),
          (''train.decoder_loss_g'', decoder_loss_g r),
          (''train.decoder_acc_t'', decoder_acc_t r),
          (''train.decoder_acc_g'', decoder_acc_g r)] = Inr m'"
  using assms
  by (auto simp: fit_coders_batch_def Let_def simp del: append_all.simps
        split: sum.splits option.splits prod.splits)

lemma coders_objective_now:
  "coders_forward env use_perceptual crit cover payload bt dec enc = Inr r \<Longrightarrow>
     coders_objective env use_perceptual crit cover payload bt (length dec) (dec @ enc)
       = Inr (total_loss r)"
  by (simp add: coders_objective_def)

text \<open>
  C6. In the coder phase, for every batch that runs through, the scalar handed
  to the optimizer of the decoder and the encoder, as a function of their
  parameters, has at the present parameters the value \<open>total_loss\<close>, and
  \<open>total_loss = 100 * encoder_mse + (decoder_loss_g + decoder_loss_t) / 2 +
  critic_score generated\<close>, plus the perceptual loss when the flag
  \<open>perceptual_loss\<close> of the model is set and plus nothing when it is not. The
  terms are the mean squared error of the generated image and the cover, the
  cross entropies of the logits decoded from the generated and from the
  transformed image, the critic's score of the generated image and the
  distance of the features.
\<close>

theorem coders_total_loss:
  "fit_coders_batch env transform transform_prob (s, g, m) cover = Inr (s', g', m') \<longrightarrow>
     (\<exists>payload r opt.
        coders_forward env (perceptual_loss s) (critic_params s) cover payload
          (if unif_stream g 0 < transform_prob then transform else None)
          (decoder_params s) (encoder_params s) = Inr r
      \<and> decoder_optimizer s = Some opt
      \<and> decoder_params s' @ encoder_params s' =
           snd (adam_step env opt
                  (coders_objective env (perceptual_loss s) (critic_params s) cover payload
                     (if unif_stream g 0 < transform_prob then transform else None)
                     (length (decoder_params s)))
                  (decoder_params s @ encoder_params s))
      \<and> coders_objective env (perceptual_loss s) (critic_params s) cover payload
           (if unif_stream g 0 < transform_prob then transform else None)
           (length (decoder_params s)) (decoder_params s @ encoder_params s)
          = Inr (total_loss r)
      \<and> total_loss r =
           100 * encoder_mse r + (decoder_loss_g r + decoder_loss_t r) / 2 + generated_score r
             + (if perceptual_loss s then perceptual_loss_term r else 0)
      \<and> mse_loss (encoder_at env (encoder_params s) cover payload) cover = Inr (encoder_mse r)
      \<and> binary_cross_entropy_with_logits
           (decoder_at env (decoder_params s) (encoder_at env (encoder_params s) cover payload))
           payload = Inr (decoder_loss_g r)
      \<and> binary_cross_entropy_with_logits
           (decoder_at env (decoder_params s)
              (apply_transform env (if unif_stream g 0 < transform_prob then transform else None)
                 (encoder_at env (encoder_params s) cover payload)))
           payload = Inr (decoder_loss_t r)
      \<and> generated_score r =
           critic_score env (critic_params s) (encoder_at env (encoder_params s) cover payload)
      \<and> perceptual_distance env cover (encoder_at env (encoder_params s) cover payload)
           = Inr (perceptual_loss_term r))"
proof
  assume "fit_coders_batch env transform transform_prob (s, g, m) cover = Inr (s', g', m')"
  from fit_coders_batch_Inr[OF this] obtain payload r opt where
    h: "coders_forward env (perceptual_loss s) (critic_params s) cover payload
         (if unif_stream g 0 < transform_prob then transform else None)
         (decoder_params s) (encoder_params s) = Inr r"
       "decoder_optimizer s = Some opt"
       "decoder_params s' @ encoder_params s' =
         snd (adam_step env opt
                (coders_objective env (perceptual_loss s) (critic_params s) cover payload
                   (if unif_stream g 0 < transform_prob then transform else None)
                   (length (decoder_params s)))
                (decoder_params s @ encoder_params s))"
    by blast
  from coders_forward_Inr[OF h(1)] coders_objective_now[OF h(1)] h
  show "\<exists>payload r opt.
        coders_forward env (perceptual_loss s) (critic_params s) cover payload
          (if unif_stream g 0 < transform_prob then transform else None)
          (decoder_params s) (encoder_params s) = Inr r
      \<and> decoder_optimizer s = Some opt
      \<and> decoder_params s' @ encoder_params s' =
           snd (adam_step env opt
                  (coders_objective env (perceptual_loss s) (critic_params s) cover payload
                     (if unif_stream g 0 < transform_prob then transform else None)
                     (length (decoder_params s)))
                  (decoder_params s @ encoder_params s))
      \<and> coders_objective env (perceptual_loss s) (critic_params s) cover payload
           (if unif_stream g 0 < transform_prob then transform else None)
           (length (decoder_params s)) (decoder_params s @ encoder_params s)
          = Inr (total_loss r)
      \<and> total_loss r =
           100 * encoder_mse r + (decoder_loss_g r + decoder_loss_t r) / 2 + generated_score r
             + (if perceptual_loss s then perceptual_loss_term r else 0)
      \<and> mse_loss (encoder_at env (encoder_params s) cover payload) cover = Inr (encoder_mse r)
      \<and> binary_cross_entropy_with_logits
           (decoder_at env (decoder_params s) (encoder_at env (encoder_params s) cover payload))
           payload = Inr (decoder_loss_g r)
      \<and> binary_cross_entropy_with_logits
           (decoder_at env (decoder_params s)
              (apply_transform env (if unif_stream g 0 < transform_prob then transform else None)
                 (encoder_at env (encoder_params s) cover payload)))
           payload = Inr (decoder_loss_t r)
      \<and> generated_score r =
           critic_score env (critic_params s) (encoder_at env (encoder_params s) cover payload)
      \<and> perceptual_distance env cover (encoder_at env (encoder_params s) cover payload)
           = Inr (perceptual_loss_term r)"
    by blast
qed

lemma toy_encoder: "encoder_at toy_env enc toy_cover payload = toy_generated"
  by (simp add: toy_env_def toy_cover_def toy_generated_def)

lemma toy_decoder: "decoder_at toy_env dec x = toy_logits"
  by (simp add: toy_env_def toy_logits_def)

lemma toy_transform: "apply_transform toy_env bt x = x"
  by (simp add: apply_transform_def toy_env_def)

lemma toy_quantized: "quantized toy_generated = toy_generated"
  by (simp add: quantized_def toy_generated_def quantize_entry_def to_long_def)

lemma toy_perceptual: "perceptual_distance toy_env toy_cover toy_generated = Inr 1"
  by (simp add: perceptual_distance_def toy_env_def toy_cover_def toy_generated_def squeeze_def
      Let_def row_norms_def tmean_def eval_nat_numeral)

lemma toy_mse: "mse_loss toy_generated toy_cover = Inr 1"
  by (simp add: mse_loss_def toy_generated_def toy_cover_def tmean_def)

lemma toy_bce: "\<exists>loss. binary_cross_entropy_with_logits toy_logits toy_payload = Inr loss"
  by (simp add: binary_cross_entropy_with_logits_def toy_logits_def toy_payload_def)

lemma toy_acc: "decoder_acc toy_logits toy_payload = 1"
  by (simp add: decoder_acc_def toy_logits_def toy_payload_def numel_def)

lemma toy_critic_score: "critic_score toy_env crit toy_generated = 1"
  by (simp add: critic_score_def toy_env_def toy_generated_def tmean_def)

lemma toy_coding_scores:
  "\<exists>loss. coding_scores toy_cover toy_generated toy_payload toy_logits = Inr (1, loss, 1)"
  using toy_bce by (auto simp: coding_scores_def toy_mse toy_acc)

lemma toy_random_data:
  "\<exists>g'. random_data 1 (toy_rng\<lparr>unif_stream := u\<rparr>) toy_cover = Inr (toy_payload, g')"
  by (simp add: random_data_def toy_rng_def toy_cover_def toy_payload_def eval_nat_numeral)

lemma toy_forward:
  "\<exists>r. coders_forward toy_env flag crit toy_cover toy_payload bt [] [] = Inr r"
proof -
  have ed: "encode_decode_with toy_env [] [] toy_cover toy_payload False bt =
      (toy_generated, toy_payload, toy_logits, toy_logits)"
    by (simp add: encode_decode_with_def Let_def toy_encoder toy_decoder)
  obtain loss where cs: "coding_scores toy_cover toy_generated toy_payload toy_logits = Inr (1, loss, 1)"
    using toy_coding_scores by blast
  show ?thesis
    unfolding coders_forward_def ed by (simp add: cs toy_perceptual Let_def)
qed

lemma toy_coders_batch_run:
  "\<exists>s' g' m'. fit_coders_batch toy_env None 0 (toy_model, toy_rng, new_metrics) toy_cover
      = Inr (s', g', m')"
proof -
  obtain g' where rd: "random_data 1 (toy_rng\<lparr>unif_stream := (\<lambda>i. unif_stream toy_rng (i + 1))\<rparr>)
      toy_cover = Inr (toy_payload, g')"
    using toy_random_data by blast
  obtain r where fw: "coders_forward toy_env True [[1 / 20, 3], [- 5]] toy_cover toy_payload None [] []
      = Inr r"
    using toy_forward by blast
  have sel: "data_depth toy_model = 1" "perceptual_loss toy_model = True"
    "critic_params toy_model = [[1 / 20, 3], [- 5]]" "decoder_params toy_model = []"
    "encoder_params toy_model = []" "decoder_optimizer toy_model = Some ()"
    by (simp_all add: toy_model_def)
  have u: "\<not> unif_stream toy_rng 0 < (0::real)" by (simp add: toy_rng_def)
  have "\<exists>m'. append_all new_metrics
                [(''train.perceptual_loss'', perceptual_loss_term r),
                 (''train.encoder_mse'', encoder_mse r),
                 (''train.decoder_loss_t'', decoder_loss_t r),
                 (''train.decoder_loss_g'', decoder_loss_g r),
                 (''train.decoder_acc_t'', decoder_acc_t r),
                 (''train.decoder_acc_g'', decoder_acc_g r)] = Inr m'"
    by (simp add: new_metrics_def METRIC_FIELDS_def append_metric_def)
  then obtain m' where ap: "append_all new_metrics
                [(''train.perceptual_loss'', perceptual_loss_term r),
                 (''train.encoder_mse'', encoder_mse r),
                 (''train.decoder_loss_t'', decoder_loss_t r),
                 (''train.decoder_loss_g'', decoder_loss_g r),
                 (''train.decoder_acc_t'', decoder_acc_t r),
                 (''train.decoder_acc_g'', decoder_acc_g r)] = Inr m'" by blast
  show ?thesis
    unfolding fit_coders_batch_def
    by (simp only: prod.case Let_def sel u if_False rd sum.case fw option.case ap) blast
qed

theorem coders_total_loss_witness:
  "\<exists>s' g' m' payload r.
     fit_coders_batch toy_env None 0 (toy_model, toy_rng, new_metrics) toy_cover = Inr (s', g', m')
   \<and> coders_forward toy_env True (critic_params toy_model) toy_cover payload None [] [] = Inr r
   \<and> total_loss r = 100 * encoder_mse r + (decoder_loss_g r + decoder_loss_t r) / 2
        + generated_score r + perceptual_loss_term r
   \<and> encoder_mse r = 1 \<and> generated_score r = 1 \<and> perceptual_loss_term r = 1"
proof -
  obtain s' g' m' where
    run: "fit_coders_batch toy_env None 0 (toy_model, toy_rng, new_metrics) toy_cover = Inr (s', g', m')"
    using toy_coders_batch_run by blast
  from coders_total_loss[of toy_env None 0 toy_model toy_rng new_metrics toy_cover s' g' m'] run
  obtain payload r where
    r: "coders_forward toy_env (perceptual_loss toy_model) (critic_params toy_model) toy_cover payload
          (if unif_stream toy_rng 0 < 0 then None else None)
          (decoder_params toy_model) (encoder_params toy_model) = Inr r"
       "total_loss r =
           100 * encoder_mse r + (decoder_loss_g r + decoder_loss_t r) / 2 + generated_score r
             + (if perceptual_loss toy_model then perceptual_loss_term r else 0)"
       "mse_loss (encoder_at toy_env (encoder_params toy_model) toy_cover payload) toy_cover
          = Inr (encoder_mse r)"
       "generated_score r = critic_score toy_env (critic_params toy_model)
           (encoder_at toy_env (encoder_params toy_model) toy_cover payload)"
       "perceptual_distance toy_env toy_cover
           (encoder_at toy_env (encoder_params toy_model) toy_cover payload)
           = Inr (perceptual_loss_term r)"
    by auto
  have sel: "perceptual_loss toy_model = True" "decoder_params toy_model = []"
    "encoder_params toy_model = []"
    by (simp_all add: toy_model_def)
  from r(3) have "encoder_mse r = 1" by (simp add: toy_encoder toy_mse)
  moreover from r(4) have "generated_score r = 1"
    by (simp add: toy_encoder toy_critic_score)
  moreover from r(5) have "perceptual_loss_term r = 1" by (simp add: toy_encoder toy_perceptual)
  moreover from r(2) have "total_loss r = 100 * encoder_mse r
      + (decoder_loss_g r + decoder_loss_t r) / 2 + generated_score r + perceptual_loss_term r"
    by (simp add: sel)
  moreover from r(1) have "coders_forward toy_env True (critic_params toy_model) toy_cover
      payload None [] [] = Inr r"
    by (simp add: sel)
  ultimately show ?thesis using run by blast
qed


lemma bpp_bounds:
  assumes "0 \<le> acc" "acc \<le> (1::real)"
  shows "- real d \<le> real d * (2 * acc - 1) \<and> real d * (2 * acc - 1) \<le> real d"
proof -
  from assms have "\<bar>2 * acc - 1\<bar> \<le> 1" by (simp add: abs_le_iff)
  then have "real d * \<bar>2 * acc - 1\<bar> \<le> real d * 1"
    by (intro mult_left_mono) simp_all
  then have "\<bar>real d * (2 * acc - 1)\<bar> \<le> real d" by (simp add: abs_mult)
  then show ?thesis by (simp add: abs_le_iff)
qed

lemma validate_scores_keys:
  assumes "validate_scores env s tr cover payload = Inr scores"
  shows "map fst scores =
     [''val.perceptual_loss'', ''val.encoder_mse'', ''val.decoder_loss_g'', ''val.decoder_loss_t'',
      ''val.decoder_acc_g'', ''val.decoder_acc_t'', ''val.cover_score'', ''val.generated_score'',
      ''val.ssim'', ''val.psnr'', ''val.bpp_g'', ''val.bpp_t'']"
  using validate_scores_Inr[OF assms] by auto

lemma validate_scores_distinct:
  assumes "validate_scores env s tr cover payload = Inr scores"
  shows "distinct (map fst scores)"
  unfolding validate_scores_keys[OF assms] by simp

lemma validate_batch_appended:
  assumes "validate_batch env tr (s, g, m) cover = Inr (s', g', m')"
  obtains payload mse where
      "random_data (data_depth s) g cover = Inr (payload, g')"
      "mse_loss (quantized (encoder_at env (encoder_params s) cover payload)) cover = Inr mse"
      "appended m m' ''val.encoder_mse'' mse"
      "appended m m' ''val.psnr'' (10 * log 10 (4 / mse))"
      "appended m m' ''val.ssim''
         (ssim env cover (quantized (encoder_at env (encoder_params s) cover payload)))"
      "appended m m' ''val.generated_score''
         (critic_score env (critic_params s)
            (quantized (encoder_at env (encoder_params s) cover payload)))"
      "appended m m' ''val.decoder_acc_g''
         (decoder_acc (decoder_at env (decoder_params s)
            (quantized (encoder_at env (encoder_params s) cover payload))) payload)"
      "appended m m' ''val.decoder_acc_t''
         (decoder_acc (decoder_at env (decoder_params s)
            (apply_transform env tr (quantized (encoder_at env (encoder_params s) cover payload))))
            payload)"
      "appended m m' ''val.bpp_g''
         (real (data_depth s) * (2 * decoder_acc (decoder_at env (decoder_params s)
            (quantized (encoder_at env (encoder_params s) cover payload))) payload - 1))"
      "appended m m' ''val.bpp_t''
         (real (data_depth s) * (2 * decoder_acc (decoder_at env (decoder_params s)
            (apply_transform env tr (quantized (encoder_at env (encoder_params s) cover payload))))
            payload - 1))"
proof -
  from validate_batch_Inr[OF assms] obtain payload scores where
    rd: "random_data (data_depth s) g cover = Inr (payload, g')" and
    vs: "validate_scores env s tr cover payload = Inr scores" and
    ap: "append_all m scores = Inr m'"
    by blast
  let ?Q = "quantized (encoder_at env (encoder_params s) cover payload)"
  let ?ag = "decoder_acc (decoder_at env (decoder_params s) ?Q) payload"
  let ?at = "decoder_acc (decoder_at env (decoder_params s) (apply_transform env tr ?Q)) payload"
  from validate_scores_Inr[OF vs] obtain mse loss_g loss_t pl where
    mse: "mse_loss ?Q cover = Inr mse" and
    sc: "scores =
        [(''val.perceptual_loss'', pl),
         (''val.encoder_mse'', mse),
         (''val.decoder_loss_g'', loss_g),
         (''val.decoder_loss_t'', loss_t),
         (''val.decoder_acc_g'', ?ag),
         (''val.decoder_acc_t'', ?at),
         (''val.cover_score'', critic_score env (critic_params s) cover),
         (''val.generated_score'', critic_score env (critic_params s) ?Q),
         (''val.ssim'', ssim env cover ?Q),
         (''val.psnr'', 10 * log 10 (4 / mse)),
         (''val.bpp_g'', real (data_depth s) * (2 * ?ag - 1)),
         (''val.bpp_t'', real (data_depth s) * (2 * ?at - 1))]"
    by blast
  note d = validate_scores_distinct[OF vs]
  have ap': "(key, v) \<in> set scores \<Longrightarrow> appended m m' key v" for key v
    using append_all_appended[OF ap d] .
  have 1: "appended m m' ''val.encoder_mse'' mse" by (rule ap') (simp add: sc)
  have 2: "appended m m' ''val.psnr'' (10 * log 10 (4 / mse))" by (rule ap') (simp add: sc)
  have 3: "appended m m' ''val.ssim'' (ssim env cover ?Q)" by (rule ap') (simp add: sc)
  have 4: "appended m m' ''val.generated_score'' (critic_score env (critic_params s) ?Q)"
    by (rule ap') (simp add: sc)
  have 5: "appended m m' ''val.decoder_acc_g'' ?ag" by (rule ap') (simp add: sc)
  have 6: "appended m m' ''val.decoder_acc_t'' ?at" by (rule ap') (simp add: sc)
  have 7: "appended m m' ''val.bpp_g'' (real (data_depth s) * (2 * ?ag - 1))"
    by (rule ap') (simp add: sc)
  have 8: "appended m m' ''val.bpp_t'' (real (data_depth s) * (2 * ?at - 1))"
    by (rule ap') (simp add: sc)
  show thesis by (rule that[OF rd mse 1 2 3 4 5 6 7 8])
qed

lemma toy_random_data0: "\<exists>g'. random_data 1 toy_rng toy_cover = Inr (toy_payload, g')"
  by (simp add: random_data_def toy_rng_def toy_cover_def toy_payload_def eval_nat_numeral)

lemma toy_validate_scores:
  "\<exists>scores. validate_scores toy_env toy_model None toy_cover toy_payload = Inr scores"
proof -
  have sel: "decoder_params toy_model = []" "encoder_params toy_model = []"
    by (simp_all add: toy_model_def)
  have ed: "encode_decode_with toy_env [] [] toy_cover toy_payload True None =
      (toy_generated, toy_payload, toy_logits, toy_logits)"
    by (simp add: encode_decode_with_def Let_def toy_encoder toy_decoder toy_quantized
        toy_transform)
  obtain loss where cs: "coding_scores toy_cover toy_generated toy_payload toy_logits = Inr (1, loss, 1)"
    using toy_coding_scores by blast
  show ?thesis
    unfolding validate_scores_def sel ed by (simp add: cs toy_perceptual Let_def)
qed

lemma toy_validate_batch_run:
  "\<exists>s' g' m'. validate_batch toy_env None (toy_model, toy_rng, new_metrics) toy_cover
      = Inr (s', g', m')"
proof -
  obtain g' where rd: "random_data 1 toy_rng toy_cover = Inr (toy_payload, g')"
    using toy_random_data0 by blast
  obtain scores where vs: "validate_scores toy_env toy_model None toy_cover toy_payload = Inr scores"
    using toy_validate_scores by blast
  from validate_scores_Inr[OF vs] obtain mse loss_g loss_t pl a1 a2 c1 c2 s1 p1 b1 b2 where
    sc: "scores =
        [(''val.perceptual_loss'', pl), (''val.encoder_mse'', mse),
         (''val.decoder_loss_g'', loss_g), (''val.decoder_loss_t'', loss_t),
         (''val.decoder_acc_g'', a1), (''val.decoder_acc_t'', a2),
         (''val.cover_score'', c1), (''val.generated_score'', c2),
         (''val.ssim'', s1), (''val.psnr'', p1), (''val.bpp_g'', b1), (''val.bpp_t'', b2)]"
    by blast
  have "\<exists>m'. append_all new_metrics scores = Inr m'"
    unfolding sc by (simp add: new_metrics_def METRIC_FIELDS_def append_metric_def)
  then obtain m' where ap: "append_all new_metrics scores = Inr m'" by blast
  have sel: "data_depth toy_model = 1" by (simp add: toy_model_def)
  show ?thesis
    unfolding validate_batch_def
    by (simp only: prod.case sel rd sum.case vs ap) blast
qed

lemma coders_forward_acc:
  assumes "coders_forward env flag crit cover payload bt dec enc = Inr r"
  shows "decoder_acc_g r = decoder_acc (decoder_at env dec (encoder_at env enc cover payload)) payload
      \<and> decoder_acc_t r =
          decoder_acc (decoder_at env dec (apply_transform env bt (encoder_at env enc cover payload)))
            payload
      \<and> 0 \<le> decoder_acc_g r \<and> decoder_acc_g r \<le> 1
      \<and> 0 \<le> decoder_acc_t r \<and> decoder_acc_t r \<le> 1"
proof -
  from coders_forward_Inr[OF assms] have
    g: "decoder_acc_g r = decoder_acc (decoder_at env dec (encoder_at env enc cover payload)) payload"
    and t: "decoder_acc_t r =
          decoder_acc (decoder_at env dec (apply_transform env bt (encoder_at env enc cover payload)))
            payload"
    by blast+
  show ?thesis
    unfolding g t using decoder_acc_bounds by blast
qed


lemma validate_batch_acc:
  assumes "validate_batch env tr (s, g, m) cover = Inr (s', g', m')"
  shows "\<exists>payload acc_g acc_t.
            random_data (data_depth s) g cover = Inr (payload, g')
          \<and> acc_g = decoder_acc (decoder_at env (decoder_params s)
                (quantized (encoder_at env (encoder_params s) cover payload))) payload
          \<and> acc_t = decoder_acc (decoder_at env (decoder_params s)
                (apply_transform env tr
                   (quantized (encoder_at env (encoder_params s) cover payload)))) payload
          \<and> appended m m' ''val.decoder_acc_g'' acc_g
          \<and> appended m m' ''val.decoder_acc_t'' acc_t
          \<and> appended m m' ''val.bpp_g'' (real (data_depth s) * (2 * acc_g - 1))
          \<and> appended m m' ''val.bpp_t'' (real (data_depth s) * (2 * acc_t - 1))
          \<and> (data payload \<noteq> [] \<longrightarrow>
                0 \<le> acc_g \<and> acc_g \<le> 1 \<and> 0 \<le> acc_t \<and> acc_t \<le> 1
              \<and> - real (data_depth s) \<le> real (data_depth s) * (2 * acc_g - 1)
              \<and> real (data_depth s) * (2 * acc_g - 1) \<le> real (data_depth s)
              \<and> - real (data_depth s) \<le> real (data_depth s) * (2 * acc_t - 1)
              \<and> real (data_depth s) * (2 * acc_t - 1) \<le> real (data_depth s))"
proof -
  from assms obtain payload mse where
    h0: "random_data (data_depth s) g cover = Inr (payload, g')"
       "appended m m' ''val.decoder_acc_g''
         (decoder_acc (decoder_at env (decoder_params s)
            (quantized (encoder_at env (encoder_params s) cover payload))) payload)"
       "appended m m' ''val.decoder_acc_t''
         (decoder_acc (decoder_at env (decoder_params s)
            (apply_transform env tr (quantized (encoder_at env (encoder_params s) cover payload))))
            payload)"
       "appended m m' ''val.bpp_g''
         (real (data_depth s) * (2 * decoder_acc (decoder_at env (decoder_params s)
            (quantized (encoder_at env (encoder_params s) cover payload))) payload - 1))"
       "appended m m' ''val.bpp_t''
         (real (data_depth s) * (2 * decoder_acc (decoder_at env (decoder_params s)
            (apply_transform env tr (quantized (encoder_at env (encoder_params s) cover payload))))
            payload - 1))"
    by (rule validate_batch_appended)
  define acg where "acg = decoder_acc (decoder_at env (decoder_params s)
            (quantized (encoder_at env (encoder_params s) cover payload))) payload"
  define act where "act = decoder_acc (decoder_at env (decoder_params s)
            (apply_transform env tr (quantized (encoder_at env (encoder_params s) cover payload))))
            payload"
  have bg: "0 \<le> acg" "acg \<le> 1" and bt: "0 \<le> act" "act \<le> 1"
    unfolding acg_def act_def using decoder_acc_bounds by blast+
  have bnd: "- real (data_depth s) \<le> real (data_depth s) * (2 * acg - 1)"
    "real (data_depth s) * (2 * acg - 1) \<le> real (data_depth s)"
    "- real (data_depth s) \<le> real (data_depth s) * (2 * act - 1)"
    "real (data_depth s) * (2 * act - 1) \<le> real (data_depth s)"
    using bg bpp_bounds[of acg "data_depth s"] bt bpp_bounds[of act "data_depth s"] by simp_all
  note h' = h0[folded acg_def act_def]
  have "random_data (data_depth s) g cover = Inr (payload, g')
          \<and> acg = decoder_acc (decoder_at env (decoder_params s)
                (quantized (encoder_at env (encoder_params s) cover payload))) payload
          \<and> act = decoder_acc (decoder_at env (decoder_params s)
                (apply_transform env tr
                   (quantized (encoder_at env (encoder_params s) cover payload)))) payload
          \<and> appended m m' ''val.decoder_acc_g'' acg
          \<and> appended m m' ''val.decoder_acc_t'' act
          \<and> appended m m' ''val.bpp_g'' (real (data_depth s) * (2 * acg - 1))
          \<and> appended m m' ''val.bpp_t'' (real (data_depth s) * (2 * act - 1))
          \<and> (data payload \<noteq> [] \<longrightarrow>
                0 \<le> acg \<and> acg \<le> 1 \<and> 0 \<le> act \<and> act \<le> 1
              \<and> - real (data_depth s) \<le> real (data_depth s) * (2 * acg - 1)
              \<and> real (data_depth s) * (2 * acg - 1) \<le> real (data_depth s)
              \<and> - real (data_depth s) \<le> real (data_depth s) * (2 * act - 1)
              \<and> real (data_depth s) * (2 * act - 1) \<le> real (data_depth s))"
    by (intro conjI impI h' bg bt bnd acg_def act_def)
  then show ?thesis by (intro exI)
qed


text \<open>
  C7. For every payload with at least one bit, \<open>decoder_acc\<close>, the share of
  the positions where the logit is at least 0 exactly when the payload bit
  is at least one half, lies in \<open>[0, 1]\<close>; so do the two accuracies of a
  batch of the coder phase. For every batch of the validation that runs
  through, the values appended to \<^verbatim>\<open>val.bpp_g\<close> and \<^verbatim>\<open>val.bpp_t\<close> are
  \<open>data_depth * (2 * accuracy - 1)\<close> for the accuracy of the generated and
  of the transformed branch, the values appended to \<^verbatim>\<open>val.decoder_acc_g\<close>
  and \<^verbatim>\<open>val.decoder_acc_t\<close>, and they lie between \<open>- data_depth\<close> and
  \<open>data_depth\<close>.
\<close>

theorem accuracy_and_bpp_bounds:
  "(data payload \<noteq> [] \<longrightarrow>
      0 \<le> decoder_acc decoded payload \<and> decoder_acc decoded payload \<le> 1)
   \<and> (coders_forward env flag crit cover payload bt dec enc = Inr r \<and> data payload \<noteq> [] \<longrightarrow>
        decoder_acc_g r = decoder_acc (decoder_at env dec (encoder_at env enc cover payload)) payload
      \<and> decoder_acc_t r =
          decoder_acc (decoder_at env dec (apply_transform env bt (encoder_at env enc cover payload)))
            payload
      \<and> 0 \<le> decoder_acc_g r \<and> decoder_acc_g r \<le> 1
      \<and> 0 \<le> decoder_acc_t r \<and> decoder_acc_t r \<le> 1)
   \<and> (validate_batch env tr (s, g, m) cover = Inr (s', g', m') \<longrightarrow>
        (\<exists>payload acc_g acc_t.
            random_data (data_depth s) g cover = Inr (payload, g')
          \<and> acc_g = decoder_acc (decoder_at env (decoder_params s)
                (quantized (encoder_at env (encoder_params s) cover payload))) payload
          \<and> acc_t = decoder_acc (decoder_at env (decoder_params s)
                (apply_transform env tr
                   (quantized (encoder_at env (encoder_params s) cover payload)))) payload
          \<and> appended m m' ''val.decoder_acc_g'' acc_g
          \<and> appended m m' ''val.decoder_acc_t'' acc_t
          \<and> appended m m' ''val.bpp_g'' (real (data_depth s) * (2 * acc_g - 1))
          \<and> appended m m' ''val.bpp_t'' (real (data_depth s) * (2 * acc_t - 1))
          \<and> (data payload \<noteq> [] \<longrightarrow>
                0 \<le> acc_g \<and> acc_g \<le> 1 \<and> 0 \<le> acc_t \<and> acc_t \<le> 1
              \<and> - real (data_depth s) \<le> real (data_depth s) * (2 * acc_g - 1)
              \<and> real (data_depth s) * (2 * acc_g - 1) \<le> real (data_depth s)
              \<and> - real (data_depth s) \<le> real (data_depth s) * (2 * acc_t - 1)
              \<and> real (data_depth s) * (2 * acc_t - 1) \<le> real (data_depth s))))"
proof -
  have 1: "data payload \<noteq> [] \<longrightarrow>
      0 \<le> decoder_acc decoded payload \<and> decoder_acc decoded payload \<le> 1"
    using decoder_acc_bounds[of decoded payload] by (rule impI)
  have 2: "coders_forward env flag crit cover payload bt dec enc = Inr r \<and> data payload \<noteq> [] \<longrightarrow>
        decoder_acc_g r = decoder_acc (decoder_at env dec (encoder_at env enc cover payload)) payload
      \<and> decoder_acc_t r =
          decoder_acc (decoder_at env dec (apply_transform env bt (encoder_at env enc cover payload)))
            payload
      \<and> 0 \<le> decoder_acc_g r \<and> decoder_acc_g r \<le> 1
      \<and> 0 \<le> decoder_acc_t r \<and> decoder_acc_t r \<le> 1"
  proof
    assume "coders_forward env flag crit cover payload bt dec enc = Inr r \<and> data payload \<noteq> []"
    then have "coders_forward env flag crit cover payload bt dec enc = Inr r" ..
    then show "decoder_acc_g r = decoder_acc (decoder_at env dec (encoder_at env enc cover payload)) payload
      \<and> decoder_acc_t r =
          decoder_acc (decoder_at env dec (apply_transform env bt (encoder_at env enc cover payload)))
            payload
      \<and> 0 \<le> decoder_acc_g r \<and> decoder_acc_g r \<le> 1
      \<and> 0 \<le> decoder_acc_t r \<and> decoder_acc_t r \<le> 1"
      by (rule coders_forward_acc)
  qed
  have 3: "validate_batch env tr (s, g, m) cover = Inr (s', g', m') \<longrightarrow>
        (\<exists>payload acc_g acc_t.
            random_data (data_depth s) g cover = Inr (payload, g')
          \<and> acc_g = decoder_acc (decoder_at env (decoder_params s)
                (quantized (encoder_at env (encoder_params s) cover payload))) payload
          \<and> acc_t = decoder_acc (decoder_at env (decoder_params s)
                (apply_transform env tr
                   (quantized (encoder_at env (encoder_params s) cover payload)))) payload
          \<and> appended m m' ''val.decoder_acc_g'' acc_g
          \<and> appended m m' ''val.decoder_acc_t'' acc_t
          \<and> appended m m' ''val.bpp_g'' (real (data_depth s) * (2 * acc_g - 1))
          \<and> appended m m' ''val.bpp_t'' (real (data_depth s) * (2 * acc_t - 1))
          \<and> (data payload \<noteq> [] \<longrightarrow>
                0 \<le> acc_g \<and> acc_g \<le> 1 \<and> 0 \<le> acc_t \<and> acc_t \<le> 1
              \<and> - real (data_depth s) \<le> real (data_depth s) * (2 * acc_g - 1)
              \<and> real (data_depth s) * (2 * acc_g - 1) \<le> real (data_depth s)
              \<and> - real (data_depth s) \<le> real (data_depth s) * (2 * acc_t - 1)
              \<and> real (data_depth s) * (2 * acc_t - 1) \<le> real (data_depth s)))"
    by (rule impI) (rule validate_batch_acc)
  from 1 2 3 show ?thesis by (intro conjI)
qed

lemma toy_payload_data: "data toy_payload \<noteq> []"
  by (simp add: toy_payload_def)

theorem accuracy_and_bpp_bounds_witness:
  "(data toy_payload \<noteq> [] \<and> 0 \<le> decoder_acc toy_logits toy_payload
      \<and> decoder_acc toy_logits toy_payload \<le> 1)
   \<and> (\<exists>r. coders_forward toy_env True [] toy_cover toy_payload None [] [] = Inr r
        \<and> decoder_acc_g r = 1 \<and> decoder_acc_t r = 1)
   \<and> (\<exists>s' g' m'. validate_batch toy_env None (toy_model, toy_rng, new_metrics) toy_cover
          = Inr (s', g', m')
        \<and> appended new_metrics m' ''val.decoder_acc_g'' 1
        \<and> appended new_metrics m' ''val.bpp_g'' 1
        \<and> appended new_metrics m' ''val.bpp_t'' 1)"
proof -
  have a: "data toy_payload \<noteq> [] \<and> 0 \<le> decoder_acc toy_logits toy_payload
      \<and> decoder_acc toy_logits toy_payload \<le> 1"
    using accuracy_and_bpp_bounds[of toy_payload toy_logits, THEN conjunct1, THEN mp,
        OF toy_payload_data] toy_payload_data by (intro conjI) simp_all
  obtain r where r: "coders_forward toy_env True [] toy_cover toy_payload None [] [] = Inr r"
    using toy_forward by blast
  from r toy_payload_data
  have "coders_forward toy_env True [] toy_cover toy_payload None [] [] = Inr r
      \<and> data toy_payload \<noteq> []" by (rule conjI)
  note accuracy_and_bpp_bounds[of toy_payload toy_logits toy_env True "[]" toy_cover None "[]" "[]" r,
      THEN conjunct2, THEN conjunct1, THEN mp, OF this]
  then have "decoder_acc_g r = decoder_acc (decoder_at toy_env [] (encoder_at toy_env [] toy_cover toy_payload))
      toy_payload"
    "decoder_acc_t r = decoder_acc (decoder_at toy_env []
        (apply_transform toy_env None (encoder_at toy_env [] toy_cover toy_payload))) toy_payload"
    by simp_all
  then have b: "decoder_acc_g r = 1 \<and> decoder_acc_t r = 1"
    by (simp add: toy_decoder toy_acc)
  obtain s' g' m' where run: "validate_batch toy_env None (toy_model, toy_rng, new_metrics) toy_cover
          = Inr (s', g', m')"
    using toy_validate_batch_run by blast
  obtain g0 where rd0: "random_data 1 toy_rng toy_cover = Inr (toy_payload, g0)"
    using toy_random_data0 by blast
  have sel: "data_depth toy_model = 1" "decoder_params toy_model = []"
    by (simp_all add: toy_model_def)
  note accuracy_and_bpp_bounds[of toy_payload toy_logits toy_env True "[]" toy_cover None "[]" "[]" r
      None toy_model toy_rng new_metrics s' g' m', THEN conjunct2, THEN conjunct2, THEN mp, OF run]
  then
  obtain payload acc_g acc_t where
    v: "random_data (data_depth toy_model) toy_rng toy_cover = Inr (payload, g')"
       "acc_g = decoder_acc (decoder_at toy_env (decoder_params toy_model)
                (quantized (encoder_at toy_env (encoder_params toy_model) toy_cover payload))) payload"
       "acc_t = decoder_acc (decoder_at toy_env (decoder_params toy_model)
                (apply_transform toy_env None
                   (quantized (encoder_at toy_env (encoder_params toy_model) toy_cover payload)))) payload"
       "appended new_metrics m' ''val.decoder_acc_g'' acc_g"
       "appended new_metrics m' ''val.bpp_g'' (real (data_depth toy_model) * (2 * acc_g - 1))"
       "appended new_metrics m' ''val.bpp_t'' (real (data_depth toy_model) * (2 * acc_t - 1))"
    by (elim exE conjE) (rule that; assumption)
  from v(1) rd0 have p: "payload = toy_payload" by (simp add: sel)
  from v(2,3) have "acc_g = 1" "acc_t = 1"
    by (simp_all add: p toy_decoder toy_acc)
  with v(4,5,6) have "appended new_metrics m' ''val.decoder_acc_g'' 1
        \<and> appended new_metrics m' ''val.bpp_g'' 1
        \<and> appended new_metrics m' ''val.bpp_t'' 1"
    by (simp add: sel)
  with a b r run show ?thesis by blast
qed



lemma log10_4_bounds: "6 < 10 * log 10 4 \<and> 10 * log 10 4 < (6.1::real)"
proof -
  have a: "(10::real) powr (6 / 10) < 4"
  proof -
    have "((10::real) powr (6 / 10)) ^ 10 = 10 powr 6"
      by (simp add: powr_power)
    also have "\<dots> = 10 ^ 6" by (simp add: powr_numeral)
    also have "\<dots> < (4::real) ^ 10" by simp
    finally show ?thesis by (rule power_less_imp_less_base) simp
  qed
  have b: "(4::real) < 10 powr (61 / 100)"
  proof -
    have "(4::real) ^ 100 < 10 ^ 61" by simp
    also have "\<dots> = 10 powr 61" by (simp add: powr_numeral)
    also have "\<dots> = ((10::real) powr (61 / 100)) ^ 100"
      by (simp add: powr_power)
    finally show ?thesis by (rule power_less_imp_less_base) simp
  qed
  have "(6 / 10 < log 10 (4::real)) = (10 powr (6 / 10) < (4::real))"
    by (rule less_log_iff) simp_all
  with a have 1: "6 / 10 < log 10 (4::real)" by (rule_tac iffD2)
  have "(log 10 (4::real) < 61 / 100) = ((4::real) < 10 powr (61 / 100))"
    by (rule log_less_iff) simp_all
  with b have 2: "log 10 (4::real) < 61 / 100" by (rule_tac iffD2)
  from 1 2 show ?thesis by simp
qed

text \<open>
  C8. For every batch of the validation that runs through, with \<open>encoder_mse\<close>
  the mean squared error of the quantized generated image and the cover
  (the value appended to \<^verbatim>\<open>val.encoder_mse\<close>) above 0, the value appended
  to \<^verbatim>\<open>val.psnr\<close> is \<open>10 * log10 (4 / encoder_mse)\<close>. For \<open>encoder_mse = 1\<close>
  it is \<open>10 * log10 4\<close>, a number between 6 and 6.1.
\<close>

theorem psnr_recorded:
  "validate_batch env tr (s, g, m) cover = Inr (s', g', m') \<longrightarrow>
     (\<exists>payload mse.
        random_data (data_depth s) g cover = Inr (payload, g')
      \<and> mse_loss (quantized (encoder_at env (encoder_params s) cover payload)) cover = Inr mse
      \<and> appended m m' ''val.encoder_mse'' mse
      \<and> (0 < mse \<longrightarrow> appended m m' ''val.psnr'' (10 * log 10 (4 / mse)))
      \<and> (mse = 1 \<longrightarrow> appended m m' ''val.psnr'' (10 * log 10 4)
            \<and> 6 < 10 * log 10 4 \<and> 10 * log 10 4 < (6.1::real)))"
proof
  assume "validate_batch env tr (s, g, m) cover = Inr (s', g', m')"
  then obtain payload mse where
    h: "random_data (data_depth s) g cover = Inr (payload, g')"
       "mse_loss (quantized (encoder_at env (encoder_params s) cover payload)) cover = Inr mse"
       "appended m m' ''val.encoder_mse'' mse"
       "appended m m' ''val.psnr'' (10 * log 10 (4 / mse))"
    by (rule validate_batch_appended)
  have 1: "0 < mse \<longrightarrow> appended m m' ''val.psnr'' (10 * log 10 (4 / mse))"
    using h(4) by (rule impI)
  have 2: "mse = 1 \<longrightarrow> appended m m' ''val.psnr'' (10 * log 10 4)
            \<and> 6 < 10 * log 10 4 \<and> 10 * log 10 4 < (6.1::real)"
  proof
    assume "mse = 1"
    with h(4) have "appended m m' ''val.psnr'' (10 * log 10 4)" by simp
    with log10_4_bounds show "appended m m' ''val.psnr'' (10 * log 10 4)
            \<and> 6 < 10 * log 10 4 \<and> 10 * log 10 4 < (6.1::real)" by (intro conjI) simp_all
  qed
  have "random_data (data_depth s) g cover = Inr (payload, g')
      \<and> mse_loss (quantized (encoder_at env (encoder_params s) cover payload)) cover = Inr mse
      \<and> appended m m' ''val.encoder_mse'' mse
      \<and> (0 < mse \<longrightarrow> appended m m' ''val.psnr'' (10 * log 10 (4 / mse)))
      \<and> (mse = 1 \<longrightarrow> appended m m' ''val.psnr'' (10 * log 10 4)
            \<and> 6 < 10 * log 10 4 \<and> 10 * log 10 4 < (6.1::real))"
    by (intro conjI h(1,2,3) 1 2)
  then show "\<exists>payload mse.
        random_data (data_depth s) g cover = Inr (payload, g')
      \<and> mse_loss (quantized (encoder_at env (encoder_params s) cover payload)) cover = Inr mse
      \<and> appended m m' ''val.encoder_mse'' mse
      \<and> (0 < mse \<longrightarrow> appended m m' ''val.psnr'' (10 * log 10 (4 / mse)))
      \<and> (mse = 1 \<longrightarrow> appended m m' ''val.psnr'' (10 * log 10 4)
            \<and> 6 < 10 * log 10 4 \<and> 10 * log 10 4 < (6.1::real))"
    by (intro exI)
qed

theorem psnr_recorded_witness:
  "\<exists>s' g' m'. validate_batch toy_env None (toy_model, toy_rng, new_metrics) toy_cover
        = Inr (s', g', m')
     \<and> mse_loss (quantized (encoder_at toy_env [] toy_cover toy_payload)) toy_cover = Inr 1
     \<and> appended new_metrics m' ''val.encoder_mse'' 1
     \<and> appended new_metrics m' ''val.psnr'' (10 * log 10 (4 / 1))
     \<and> appended new_metrics m' ''val.psnr'' (10 * log 10 4)"
proof -
  obtain s' g' m' where run: "validate_batch toy_env None (toy_model, toy_rng, new_metrics) toy_cover
          = Inr (s', g', m')"
    using toy_validate_batch_run by blast
  obtain g0 where rd0: "random_data 1 toy_rng toy_cover = Inr (toy_payload, g0)"
    using toy_random_data0 by blast
  have sel: "data_depth toy_model = 1" "encoder_params toy_model = []"
    by (simp_all add: toy_model_def)
  note psnr_recorded[of toy_env None toy_model toy_rng new_metrics toy_cover s' g' m', THEN mp, OF run]
  then obtain payload mse where
    v: "random_data (data_depth toy_model) toy_rng toy_cover = Inr (payload, g')"
       "mse_loss (quantized (encoder_at toy_env (encoder_params toy_model) toy_cover payload)) toy_cover
          = Inr mse"
       "appended new_metrics m' ''val.encoder_mse'' mse"
       "0 < mse \<longrightarrow> appended new_metrics m' ''val.psnr'' (10 * log 10 (4 / mse))"
       "mse = 1 \<longrightarrow> appended new_metrics m' ''val.psnr'' (10 * log 10 4)
            \<and> 6 < 10 * log 10 4 \<and> 10 * log 10 4 < (6.1::real)"
    by (elim exE conjE) (rule that; assumption)
  from v(2) have mse: "mse = 1" by (simp add: toy_encoder toy_quantized toy_mse)
  have q: "mse_loss (quantized (encoder_at toy_env [] toy_cover toy_payload)) toy_cover = Inr 1"
    by (simp add: toy_encoder toy_quantized toy_mse)
  from v(3) mse have a: "appended new_metrics m' ''val.encoder_mse'' 1" by simp
  from v(4) mse have b: "appended new_metrics m' ''val.psnr'' (10 * log 10 (4 / 1))" by simp
  from v(5) mse have c: "appended new_metrics m' ''val.psnr'' (10 * log 10 4)" by simp
  from run q a b c show ?thesis by blast
qed


lemma to_long_cases:
  "(- 1 \<le> x \<longrightarrow> to_long (255 * (x + 1) / 2) = \<lfloor>255 * (x + 1) / 2\<rfloor>)
   \<and> (x < - 1 \<longrightarrow> to_long (255 * (x + 1) / 2) = \<lceil>255 * (x + 1) / 2\<rceil>)
   \<and> (- 1 \<le> x \<and> x \<le> 1 \<longrightarrow>
        0 \<le> to_long (255 * (x + 1) / 2) \<and> to_long (255 * (x + 1) / 2) \<le> 255)"
proof (intro conjI impI)
  assume "- 1 \<le> x"
  then show "to_long (255 * (x + 1) / 2) = \<lfloor>255 * (x + 1) / 2\<rfloor>"
    by (simp add: to_long_def)
next
  assume "x < - 1"
  then show "to_long (255 * (x + 1) / 2) = \<lceil>255 * (x + 1) / 2\<rceil>"
    by (simp add: to_long_def)
next
  assume a: "- 1 \<le> x \<and> x \<le> 1"
  then have nn: "0 \<le> 255 * (x + 1) / 2" and le: "255 * (x + 1) / 2 \<le> 255" by simp_all
  from nn have eq: "to_long (255 * (x + 1) / 2) = \<lfloor>255 * (x + 1) / 2\<rfloor>"
    by (simp add: to_long_def)
  from nn show "0 \<le> to_long (255 * (x + 1) / 2)" unfolding eq by simp
  from le have "\<lfloor>255 * (x + 1) / 2\<rfloor> \<le> \<lfloor>255::real\<rfloor>" by (rule floor_mono)
  then show "to_long (255 * (x + 1) / 2) \<le> 255" unfolding eq by simp
qed

lemma encode_decode_with_quantize:
  "encode_decode_with env enc dec cover payload True tr =
      (quantized (encoder_at env enc cover payload), payload,
       decoder_at env dec (quantized (encoder_at env enc cover payload)),
       decoder_at env dec (apply_transform env tr (quantized (encoder_at env enc cover payload))))
   \<and> encode_decode_with env enc dec cover payload False tr =
      (encoder_at env enc cover payload, payload,
       decoder_at env dec (encoder_at env enc cover payload),
       decoder_at env dec (apply_transform env tr (encoder_at env enc cover payload)))"
  by (simp add: encode_decode_with_def Let_def)

lemma quantized_entries:
  "shape (quantized t) = shape t
   \<and> data (quantized t) = map (\<lambda>x. 2 * real_of_int (to_long (255 * (x + 1) / 2)) / 255 - 1) (data t)"
  by (simp add: quantized_def quantize_entry_def)

lemma fit_coders_batch_raw:
  assumes "fit_coders_batch env transform transform_prob (s, g, m) cover = Inr (s', g', m')"
  shows "\<exists>payload r.
          coders_forward env (perceptual_loss s) (critic_params s) cover payload
            (if unif_stream g 0 < transform_prob then transform else None)
            (decoder_params s) (encoder_params s) = Inr r
        \<and> mse_loss (encoder_at env (encoder_params s) cover payload) cover = Inr (encoder_mse r)
        \<and> decoder_acc_g r =
            decoder_acc (decoder_at env (decoder_params s)
              (encoder_at env (encoder_params s) cover payload)) payload
        \<and> generated_score r =
            critic_score env (critic_params s) (encoder_at env (encoder_params s) cover payload)"
proof -
  from fit_coders_batch_Inr[OF assms] obtain payload r where
    fw: "coders_forward env (perceptual_loss s) (critic_params s) cover payload
         (if unif_stream g 0 < transform_prob then transform else None)
         (decoder_params s) (encoder_params s) = Inr r"
    by (elim exE conjE)
  from coders_forward_Inr[OF fw] have
    "mse_loss (encoder_at env (encoder_params s) cover payload) cover = Inr (encoder_mse r)"
    "decoder_acc_g r =
            decoder_acc (decoder_at env (decoder_params s)
              (encoder_at env (encoder_params s) cover payload)) payload"
    "generated_score r =
            critic_score env (critic_params s) (encoder_at env (encoder_params s) cover payload)"
    by simp_all
  with fw have "coders_forward env (perceptual_loss s) (critic_params s) cover payload
            (if unif_stream g 0 < transform_prob then transform else None)
            (decoder_params s) (encoder_params s) = Inr r
        \<and> mse_loss (encoder_at env (encoder_params s) cover payload) cover = Inr (encoder_mse r)
        \<and> decoder_acc_g r =
            decoder_acc (decoder_at env (decoder_params s)
              (encoder_at env (encoder_params s) cover payload)) payload
        \<and> generated_score r =
            critic_score env (critic_params s) (encoder_at env (encoder_params s) cover payload)"
    by (intro conjI)
  then show ?thesis by (intro exI)
qed

lemma validate_batch_quantized:
  assumes "validate_batch env tr (s, g, m) cover = Inr (s', g', m')"
  shows "\<exists>payload mse.
          random_data (data_depth s) g cover = Inr (payload, g')
        \<and> mse_loss (quantized (encoder_at env (encoder_params s) cover payload)) cover = Inr mse
        \<and> appended m m' ''val.encoder_mse'' mse
        \<and> appended m m' ''val.ssim''
             (ssim env cover (quantized (encoder_at env (encoder_params s) cover payload)))
        \<and> appended m m' ''val.generated_score''
             (critic_score env (critic_params s)
                (quantized (encoder_at env (encoder_params s) cover payload)))
        \<and> appended m m' ''val.decoder_acc_g''
             (decoder_acc (decoder_at env (decoder_params s)
                (quantized (encoder_at env (encoder_params s) cover payload))) payload)
        \<and> appended m m' ''val.decoder_acc_t''
             (decoder_acc (decoder_at env (decoder_params s)
                (apply_transform env tr
                   (quantized (encoder_at env (encoder_params s) cover payload)))) payload)"
proof -
  from assms obtain payload mse where
    h: "random_data (data_depth s) g cover = Inr (payload, g')"
      "mse_loss (quantized (encoder_at env (encoder_params s) cover payload)) cover = Inr mse"
      "appended m m' ''val.encoder_mse'' mse"
      "appended m m' ''val.ssim''
         (ssim env cover (quantized (encoder_at env (encoder_params s) cover payload)))"
      "appended m m' ''val.generated_score''
         (critic_score env (critic_params s)
            (quantized (encoder_at env (encoder_params s) cover payload)))"
      "appended m m' ''val.decoder_acc_g''
         (decoder_acc (decoder_at env (decoder_params s)
            (quantized (encoder_at env (encoder_params s) cover payload))) payload)"
      "appended m m' ''val.decoder_acc_t''
         (decoder_acc (decoder_at env (decoder_params s)
            (apply_transform env tr (quantized (encoder_at env (encoder_params s) cover payload))))
            payload)"
    by (rule validate_batch_appended)
  have "random_data (data_depth s) g cover = Inr (payload, g')
        \<and> mse_loss (quantized (encoder_at env (encoder_params s) cover payload)) cover = Inr mse
        \<and> appended m m' ''val.encoder_mse'' mse
        \<and> appended m m' ''val.ssim''
             (ssim env cover (quantized (encoder_at env (encoder_params s) cover payload)))
        \<and> appended m m' ''val.generated_score''
             (critic_score env (critic_params s)
                (quantized (encoder_at env (encoder_params s) cover payload)))
        \<and> appended m m' ''val.decoder_acc_g''
             (decoder_acc (decoder_at env (decoder_params s)
                (quantized (encoder_at env (encoder_params s) cover payload))) payload)
        \<and> appended m m' ''val.decoder_acc_t''
             (decoder_acc (decoder_at env (decoder_params s)
                (apply_transform env tr
                   (quantized (encoder_at env (encoder_params s) cover payload)))) payload)"
    by (intro conjI h)
  then show ?thesis by (intro exI)
qed


text \<open>
  The validation, and not the coder phase of the training, replaces the
  generated image by its quantized form before the decoder and the metrics
  see it: \<^verbatim>\<open>_encode_decode\<close> with \<^verbatim>\<open>quantize=True\<close> hands on, and
  decodes, the quantized image, and with \<^verbatim>\<open>quantize=False\<close> the output of
  the encoder; the mean squared error, the SSIM, the critic's score and the
  accuracies appended by a batch of the validation are those of the
  quantized image, and those of a batch of the coder phase are those of the
  encoder's output. \<^verbatim>\<open>.long()\<close> is the floor from \<open>- 1\<close> on and the ceiling
  below \<open>- 1\<close>.
\<close>

lemma validation_on_quantized:
  "(encode_decode_with env enc dec cover payload True tr =
      (quantized (encoder_at env enc cover payload), payload,
       decoder_at env dec (quantized (encoder_at env enc cover payload)),
       decoder_at env dec (apply_transform env tr (quantized (encoder_at env enc cover payload))))
   \<and> encode_decode_with env enc dec cover payload False tr =
      (encoder_at env enc cover payload, payload,
       decoder_at env dec (encoder_at env enc cover payload),
       decoder_at env dec (apply_transform env tr (encoder_at env enc cover payload))))
   \<and> (shape (quantized t) = shape t
   \<and> data (quantized t) = map (\<lambda>x. 2 * real_of_int (to_long (255 * (x + 1) / 2)) / 255 - 1) (data t))
   \<and> ((- 1 \<le> x \<longrightarrow> to_long (255 * (x + 1) / 2) = \<lfloor>255 * (x + 1) / 2\<rfloor>)
   \<and> (x < - 1 \<longrightarrow> to_long (255 * (x + 1) / 2) = \<lceil>255 * (x + 1) / 2\<rceil>)
   \<and> (- 1 \<le> x \<and> x \<le> 1 \<longrightarrow>
        0 \<le> to_long (255 * (x + 1) / 2) \<and> to_long (255 * (x + 1) / 2) \<le> 255))
   \<and> (validate_batch env tr (s, g, m) cover = Inr (s', g', m') \<longrightarrow>
        (\<exists>payload mse.
          random_data (data_depth s) g cover = Inr (payload, g')
        \<and> mse_loss (quantized (encoder_at env (encoder_params s) cover payload)) cover = Inr mse
        \<and> appended m m' ''val.encoder_mse'' mse
        \<and> appended m m' ''val.ssim''
             (ssim env cover (quantized (encoder_at env (encoder_params s) cover payload)))
        \<and> appended m m' ''val.generated_score''
             (critic_score env (critic_params s)
                (quantized (encoder_at env (encoder_params s) cover payload)))
        \<and> appended m m' ''val.decoder_acc_g''
             (decoder_acc (decoder_at env (decoder_params s)
                (quantized (encoder_at env (encoder_params s) cover payload))) payload)
        \<and> appended m m' ''val.decoder_acc_t''
             (decoder_acc (decoder_at env (decoder_params s)
                (apply_transform env tr
                   (quantized (encoder_at env (encoder_params s) cover payload)))) payload)))
   \<and> (fit_coders_batch env transform transform_prob (s, g, m) cover = Inr (s', g', m') \<longrightarrow>
        (\<exists>payload r.
          coders_forward env (perceptual_loss s) (critic_params s) cover payload
            (if unif_stream g 0 < transform_prob then transform else None)
            (decoder_params s) (encoder_params s) = Inr r
        \<and> mse_loss (encoder_at env (encoder_params s) cover payload) cover = Inr (encoder_mse r)
        \<and> decoder_acc_g r =
            decoder_acc (decoder_at env (decoder_params s)
              (encoder_at env (encoder_params s) cover payload)) payload
        \<and> generated_score r =
            critic_score env (critic_params s) (encoder_at env (encoder_params s) cover payload)))"
  by (intro conjI impI encode_decode_with_quantize quantized_entries to_long_cases
      validate_batch_quantized fit_coders_batch_raw)

text \<open>
  On an image clamped to \<open>[-1, 1]\<close>, as \<^verbatim>\<open>encode\<close> and
  \<^verbatim>\<open>_generate_samples\<close> clamp the output of the encoder, the level is the
  floor and one of \<open>0, ..., 255\<close>.
\<close>

lemma quantize_clamped:
  "to_long (255 * (clamp (- 1) 1 x + 1) / 2) = \<lfloor>255 * (clamp (- 1) 1 x + 1) / 2\<rfloor>
   \<and> 0 \<le> to_long (255 * (clamp (- 1) 1 x + 1) / 2)
   \<and> to_long (255 * (clamp (- 1) 1 x + 1) / 2) \<le> 255"
proof -
  have r: "- 1 \<le> clamp (- 1) 1 x" "clamp (- 1) 1 x \<le> 1"
    by (simp_all add: clamp_def)
  then have nn: "0 \<le> 255 * (clamp (- 1) 1 x + 1) / 2" by simp
  from r have le: "255 * (clamp (- 1) 1 x + 1) / 2 \<le> 255" by simp
  from nn have fl: "to_long (255 * (clamp (- 1) 1 x + 1) / 2) = \<lfloor>255 * (clamp (- 1) 1 x + 1) / 2\<rfloor>"
    by (simp add: to_long_def)
  moreover from nn have "0 \<le> \<lfloor>255 * (clamp (- 1) 1 x + 1) / 2\<rfloor>" by simp
  moreover from le have "\<lfloor>255 * (clamp (- 1) 1 x + 1) / 2\<rfloor> \<le> 255" by (simp add: floor_le_iff)
  ultimately show ?thesis by simp
qed

text \<open>
  C10. The validation is to quantize the generated image to 256 levels by
  \<open>x \<mapsto> floor (255 * (x + 1) / 2)\<close>. \<^verbatim>\<open>_encode_decode\<close> does not
  clamp the output of the encoder before \<^verbatim>\<open>.long()\<close>, which \<^verbatim>\<open>encode\<close>
  and \<^verbatim>\<open>_generate_samples\<close> do. On a batch of two black pixels, with an
  encoder that darkens every entry by one hundredth, the encoder gives the
  entries \<open>- 1.01\<close>; the validation quantizes them to the level \<open>- 1\<close>,
  which is none of the levels \<open>0, ..., 255\<close>, and to the entry
  \<open>- 257 / 255\<close>, where the floor is \<open>- 2\<close> and gives \<open>- 259 / 255\<close>. Clamped
  first, the entries have the level \<open>0\<close>.
\<close>

theorem validation_level_out_of_range:
  "shape black_cover = [2, 1, 1, 1] \<and> data black_cover = [- 1, - 1]
   \<and> data (encoder_at dark_env [] black_cover toy_payload) = [- 101 / 100, - 101 / 100]
   \<and> map (\<lambda>x. to_long (255 * (x + 1) / 2))
         (data (encoder_at dark_env [] black_cover toy_payload)) = [- 1, - 1]
   \<and> map (\<lambda>x. \<lfloor>255 * (x + 1) / 2\<rfloor>)
         (data (encoder_at dark_env [] black_cover toy_payload)) = [- 2, - 2]
   \<and> data (fst (encode_decode_with dark_env [] [] black_cover toy_payload True None))
        = [- 257 / 255, - 257 / 255]
   \<and> map (\<lambda>x. 2 * real_of_int \<lfloor>255 * (x + 1) / 2\<rfloor> / 255 - 1)
         (data (encoder_at dark_env [] black_cover toy_payload)) = [- 259 / 255, - 259 / 255]
   \<and> map (\<lambda>x. to_long (255 * (clamp (- 1) 1 x + 1) / 2))
         (data (encoder_at dark_env [] black_cover toy_payload)) = [0, 0]"
  by (simp add: encode_decode_with_def Let_def dark_env_def toy_env_def black_cover_def
      quantized_def quantize_entry_def to_long_def clamp_def)


section \<open>Properties of the epochs\<close>

lemma for_each_preserves:
  assumes "for_each body s xs = Inr s'"
    and "\<And>t x t'. body t x = Inr t' \<Longrightarrow> f t' = f t"
  shows "f s' = f s"
  using assms(1)
proof (induction xs arbitrary: s)
  case Nil
  then show ?case by simp
next
  case (Cons x xs)
  from Cons.prems obtain t where t: "body s x = Inr t" "for_each body t xs = Inr s'"
    by (auto split: sum.splits)
  from Cons.IH[OF t(2)] assms(2)[OF t(1)] show ?case by simp
qed

lemma fit_critic_batch_frame:
  assumes "fit_critic_batch env st cover = Inr st'"
  shows "frame st' = frame st"
proof -
  obtain s g m where st: "st = (s, g, m)" by (cases st)
  obtain s' g' m' where st': "st' = (s', g', m')" by (cases st')
  from fit_critic_batch_Inr[OF assms[unfolded st st']] obtain payload opt where
    ap: "append_all m [(''train.cover_score'', critic_score env (critic_params s) cover),
                    (''train.generated_score'', critic_score env (critic_params s)
                        (encoder_at env (encoder_params s) cover payload))] = Inr m'" and
    s': "s' = s\<lparr>critic_params := map (map (clamp (- 0.1) 0.1))
                 (snd (adam_step env opt
                    (critic_objective env cover (encoder_at env (encoder_params s) cover payload))
                    (critic_params s))),
              critic_optimizer := Some (fst (adam_step env opt
                    (critic_objective env cover (encoder_at env (encoder_params s) cover payload))
                    (critic_params s)))\<rparr>"
    by (elim exE conjE)
  from append_all_lookup[OF ap] have "map fst m' = map fst m" by simp
  then show ?thesis by (simp add: frame_def st st' s')
qed

lemma fit_coders_batch_frame:
  assumes "fit_coders_batch env transform transform_prob st cover = Inr st'"
  shows "frame st' = frame st"
proof -
  obtain s g m where st: "st = (s, g, m)" by (cases st)
  obtain s' g' m' where st': "st' = (s', g', m')" by (cases st')
  from assms[unfolded st st'] obtain kvs where
    ap: "append_all m kvs = Inr m'" and
    s': "log_dir s' = log_dir s" "history s' = history s" "epochs s' = epochs s"
    by (auto simp: fit_coders_batch_def Let_def simp del: append_all.simps
        split: sum.splits option.splits prod.splits)
  from append_all_lookup[OF ap] have "map fst m' = map fst m" by simp
  then show ?thesis by (simp add: frame_def st st' s')
qed

lemma validate_batch_frame:
  assumes "validate_batch env transform st cover = Inr st'"
  shows "frame st' = frame st"
proof -
  obtain s g m where st: "st = (s, g, m)" by (cases st)
  obtain s' g' m' where st': "st' = (s', g', m')" by (cases st')
  from validate_batch_Inr[OF assms[unfolded st st']] obtain payload scores where
    ap: "append_all m scores = Inr m'" and s': "s' = s"
    by (elim exE conjE)
  from append_all_lookup[OF ap] have "map fst m' = map fst m" by simp
  then show ?thesis by (simp add: frame_def st st' s')
qed

lemma phases_frame:
  assumes "fit_critic env train st1 = Inr st2"
    and "fit_coders env train transform transform_prob st2 = Inr st3"
    and "validate env val_batches transform st3 = Inr st4"
  shows "frame st4 = frame st1"
proof -
  from assms(1) have "frame st2 = frame st1"
    unfolding fit_critic_def by (rule for_each_preserves) (rule fit_critic_batch_frame)
  moreover from assms(2) have "frame st3 = frame st2"
    unfolding fit_coders_def by (rule for_each_preserves) (rule fit_coders_batch_frame)
  moreover from assms(3) have "frame st4 = frame st3"
    unfolding validate_def by (rule for_each_preserves) (rule validate_batch_frame)
  ultimately show ?thesis by simp
qed

lemma reduce_metrics_Inr:
  "reduce_metrics m = Inr means \<Longrightarrow>
     means = map (\<lambda>(k, vs). (k, JNumber (sum_list vs / real (length vs)))) m
   \<and> (\<forall>kv \<in> set m. snd kv \<noteq> [])"
proof (induction m arbitrary: means)
  case Nil
  then show ?case by simp
next
  case (Cons kv m)
  obtain k v where kv: "kv = (k, v)" by (cases kv)
  from Cons.prems kv obtain rest where
    v: "v \<noteq> []" and r: "reduce_metrics m = Inr rest"
    and means: "means = (k, JNumber (sum_list v / real (length v))) # rest"
    by (auto split: if_splits sum.splits)
  from Cons.IH[OF r] v means kv show ?case by simp
qed

lemma dict_set_new:
  "key \<notin> fst ` set d \<Longrightarrow> dict_set d key v = d @ [(key, v)]"
  by (induction d) auto

lemma METRIC_FIELDS_facts:
  "length METRIC_FIELDS = 20" "distinct METRIC_FIELDS" "''epoch'' \<notin> set METRIC_FIELDS"
  by (simp_all add: METRIC_FIELDS_def)

lemma path_join_suffix: "b \<noteq> [] \<Longrightarrow> \<exists>c. path_join a b = c @ b"
proof -
  assume "b \<noteq> []"
  have "path_join a b = [] @ b \<or> path_join a b = a @ b \<or> path_join a b = (a @ ''/'') @ b"
    by (simp add: path_join_def)
  then show ?thesis by blast
qed

lemma metrics_path_not_png: "path_join d ''metrics.log'' \<noteq> path_join p (n @ ''.png'')"
proof
  assume eq: "path_join d ''metrics.log'' = path_join p (n @ ''.png'')"
  obtain c where c: "path_join d ''metrics.log'' = c @ ''metrics.log''"
    using path_join_suffix[of "''metrics.log''" d] by auto
  obtain c' where c': "path_join p (n @ ''.png'') = c' @ n @ ''.png''"
    using path_join_suffix[of "n @ ''.png''" p] by auto
  from eq c c' have "rev (c @ ''metrics.log'') = rev (c' @ n @ ''.png'')" by simp
  then have "take 3 (rev (c @ ''metrics.log'')) = take 3 (rev (c' @ n @ ''.png''))" by simp
  then show False by simp
qed

lemma metrics_path_not_p: "path_join d ''metrics.log'' \<noteq> path_join d' (n @ ''.p'')"
proof
  assume eq: "path_join d ''metrics.log'' = path_join d' (n @ ''.p'')"
  obtain c where c: "path_join d ''metrics.log'' = c @ ''metrics.log''"
    using path_join_suffix[of "''metrics.log''" d] by auto
  obtain c' where c': "path_join d' (n @ ''.p'') = c' @ n @ ''.p''"
    using path_join_suffix[of "n @ ''.p''" d'] by auto
  from eq c c' have "rev (c @ ''metrics.log'') = rev (c' @ n @ ''.p'')" by simp
  then have "take 1 (rev (c @ ''metrics.log'')) = take 1 (rev (c' @ n @ ''.p''))" by simp
  then show False by simp
qed

lemma write_sample_keeps:
  assumes "write_sample env samples_path cover generated epoch files sample = Inr files'"
  shows "files' (path_join d ''metrics.log'') = files (path_join d ''metrics.log'')"
proof -
  have 1: "path_join d ''metrics.log'' \<noteq>
      path_join samples_path (format_int env sample @ ''.cover.png'')"
    using metrics_path_not_png[of d samples_path "format_int env sample @ ''.cover''"] by simp
  have 2: "path_join d ''metrics.log'' \<noteq>
      path_join samples_path (format_int env sample @ ''.generated-'' @ format_2d env epoch @ ''.png'')"
    using metrics_path_not_png[of d samples_path
        "format_int env sample @ ''.generated-'' @ format_2d env epoch"] by simp
  from assms obtain a b where
    "files' = files
       (path_join samples_path (format_int env sample @ ''.cover.png'') \<mapsto> a,
        path_join samples_path
          (format_int env sample @ ''.generated-'' @ format_2d env epoch @ ''.png'') \<mapsto> b)"
    unfolding write_sample_def Let_def
    by (auto split: sum.splits)
  then show ?thesis
    using 1 2 by (simp only: fun_upd_apply if_False)
qed

lemma generate_samples_keeps:
  assumes "generate_samples env s g files samples_path cover epoch = Inr (g', files')"
  shows "files' (path_join d ''metrics.log'') = files (path_join d ''metrics.log'')"
proof -
  from assms obtain generated samples where
    fe: "for_each (write_sample env samples_path cover generated epoch) files [0..<samples]
          = Inr files'"
    by (auto simp: generate_samples_def split: sum.splits prod.splits list.splits)
  show ?thesis
    using fe
    by (rule for_each_preserves[where f = "\<lambda>fs. fs (path_join d ''metrics.log'')"])
      (rule write_sample_keeps)
qed

lemma log_epoch_Inr:
  assumes "log_epoch env dir record sample_cover epoch (s, g, files) = Inr (s', g', files')"
  shows "s' = s\<lparr>history := history s @ [record]\<rparr>
    \<and> files' (path_join dir ''metrics.log'') = Some (JsonFile (json_dump (history s @ [record])))"
proof -
  define s1 where "s1 = s\<lparr>history := history s @ [record]\<rparr>"
  define f1 where "f1 = files(path_join dir ''metrics.log'' \<mapsto> JsonFile (json_dump (history s1)))"
  have h1: "history s1 = history s @ [record]" by (simp add: s1_def)
  have le: "log_epoch env dir record sample_cover epoch (s, g, files) =
      (case map_of record ''val.bpp_g'' of
        None \<Rightarrow> Inl (KeyError ''val.bpp_g'')
      | Some (JNumber bpp) \<Rightarrow>
          (case sample_cover of
                None \<Rightarrow> Inl NameError
              | Some cover \<Rightarrow>
                  (case generate_samples env s1 g
                      (f1(path_join dir (format_int env (epochs s1) @ ''.bpp-'' @ format_03f env bpp @ ''.p'')
                            \<mapsto> SavedModel s1))
                      (path_join dir ''samples'') cover epoch of
                     Inl e \<Rightarrow> Inl e
                   | Inr (g', files3) \<Rightarrow> Inr (s1, g', files3)))
      | Some other \<Rightarrow> Inl (ValueError ''Unknown format code''))"
    unfolding log_epoch_def s1_def f1_def by (simp only: prod.case Let_def)
  note run = assms[unfolded le]
  have "\<exists>bpp. map_of record ''val.bpp_g'' = Some (JNumber bpp)"
  proof (cases "map_of record ''val.bpp_g''")
    case None
    with run show ?thesis by (simp only: option.case) simp
  next
    case (Some j)
    show ?thesis
    proof (cases j)
      case (JNumber x)
      with Some show ?thesis by blast
    next
      case (JInt x)
      with run Some show ?thesis by (simp only: option.case json.case) simp
    next
      case (JObject x)
      with run Some show ?thesis by (simp only: option.case json.case) simp
    next
      case (JArray x)
      with run Some show ?thesis by (simp only: option.case json.case) simp
    qed
  qed
  then obtain bpp where bpp: "map_of record ''val.bpp_g'' = Some (JNumber bpp)" by blast
  note run2 = run[unfolded bpp option.case json.case]
  have "\<exists>cover. sample_cover = Some cover"
  proof (cases sample_cover)
    case None
    with run2 show ?thesis by (simp only: option.case) simp
  next
    case (Some c)
    then show ?thesis by blast
  qed
  then obtain cover where cover: "sample_cover = Some cover" by blast
  note run3 = run2[unfolded cover option.case]
  let ?f2 = "f1(path_join dir (format_int env (epochs s1) @ ''.bpp-'' @ format_03f env bpp @ ''.p'')
                            \<mapsto> SavedModel s1)"
  have gs: "generate_samples env s1 g ?f2 (path_join dir ''samples'') cover epoch = Inr (g', files')"
    and s': "s' = s1"
  proof -
    show "generate_samples env s1 g ?f2 (path_join dir ''samples'') cover epoch = Inr (g', files')"
    proof (cases "generate_samples env s1 g ?f2 (path_join dir ''samples'') cover epoch")
      case (Inl e)
      with run3 show ?thesis by (simp only: sum.case) simp
    next
      case (Inr gf)
      obtain g3 f3 where gf: "gf = (g3, f3)" by (cases gf)
      have "(s1, g3, f3) = (s', g', files')"
        using run3[unfolded Inr gf sum.case prod.case] by (simp only: sum.inject)
      with Inr gf show ?thesis by simp
    qed
    show "s' = s1"
    proof (cases "generate_samples env s1 g ?f2 (path_join dir ''samples'') cover epoch")
      case (Inl e)
      with run3 show ?thesis by (simp only: sum.case) simp
    next
      case (Inr gf)
      obtain g3 f3 where gf: "gf = (g3, f3)" by (cases gf)
      have "(s1, g3, f3) = (s', g', files')"
        using run3[unfolded Inr gf sum.case prod.case] by (simp only: sum.inject)
      then show ?thesis by simp
    qed
  qed
  have np: "path_join dir ''metrics.log'' \<noteq>
      path_join dir ((format_int env (epochs s1) @ ''.bpp-'' @ format_03f env bpp) @ ''.p'')"
    by (rule metrics_path_not_p)
  have np': "path_join dir ''metrics.log'' \<noteq>
      path_join dir (format_int env (epochs s1) @ ''.bpp-'' @ format_03f env bpp @ ''.p'')"
    using np unfolding append_assoc .
  have "files' (path_join dir ''metrics.log'') = ?f2 (path_join dir ''metrics.log'')"
    using gs by (rule generate_samples_keeps)
  also have "\<dots> = f1 (path_join dir ''metrics.log'')"
    using np' by (simp only: fun_upd_apply if_False)
  also have "\<dots> = Some (JsonFile (json_dump (history s1)))"
    by (simp only: f1_def fun_upd_apply if_True refl)
  finally show ?thesis using s' h1 by (simp add: s1_def)
qed

lemma fit_epoch_phases:
  assumes "fit_epoch env train vb tr prob sc (s, g, files) epoch = Inr res"
  obtains st2 st3 s4 g4 m4 means where
    "fit_critic env train (s\<lparr>epochs := epochs s + 1\<rparr>, g, new_metrics) = Inr st2"
    "fit_coders env train tr prob st2 = Inr st3"
    "validate env vb tr st3 = Inr (s4, g4, m4)"
    "reduce_metrics m4 = Inr means"
    "(case log_dir (s4\<lparr>fit_metrics := Some (dict_set means ''epoch'' (JInt (int epoch)))\<rparr>) of
           None \<Rightarrow> Inr (s4\<lparr>fit_metrics := Some (dict_set means ''epoch'' (JInt (int epoch)))\<rparr>, g4, files)
         | Some dir \<Rightarrow>
             if dir = [] then Inr (s4\<lparr>fit_metrics := Some (dict_set means ''epoch'' (JInt (int epoch)))\<rparr>, g4, files)
             else log_epoch env dir (dict_set means ''epoch'' (JInt (int epoch))) sc epoch
                    (s4\<lparr>fit_metrics := Some (dict_set means ''epoch'' (JInt (int epoch)))\<rparr>, g4, files))
       = Inr res"
proof -
  note run = assms[unfolded fit_epoch_def prod.case]
  obtain st2 where 1: "fit_critic env train (s\<lparr>epochs := epochs s + 1\<rparr>, g, new_metrics) = Inr st2"
  proof (cases "fit_critic env train (s\<lparr>epochs := epochs s + 1\<rparr>, g, new_metrics)")
    case (Inl e)
    with run show ?thesis by (simp only: sum.case) simp
  next
    case (Inr x)
    then show ?thesis by (rule that)
  qed
  note run = run[unfolded 1 sum.case]
  obtain st3 where 2: "fit_coders env train tr prob st2 = Inr st3"
  proof (cases "fit_coders env train tr prob st2")
    case (Inl e)
    with run show ?thesis by (simp only: sum.case) simp
  next
    case (Inr x)
    then show ?thesis by (rule that)
  qed
  note run = run[unfolded 2 sum.case]
  obtain s4 g4 m4 where 3: "validate env vb tr st3 = Inr (s4, g4, m4)"
  proof (cases "validate env vb tr st3")
    case (Inl e)
    with run show ?thesis by (simp only: sum.case) simp
  next
    case (Inr x)
    obtain a b c where "x = (a, b, c)" by (cases x)
    with Inr show ?thesis by (simp only: that)
  qed
  note run = run[unfolded 3 sum.case prod.case]
  obtain means where 4: "reduce_metrics m4 = Inr means"
  proof (cases "reduce_metrics m4")
    case (Inl e)
    with run show ?thesis by (simp only: sum.case) simp
  next
    case (Inr x)
    then show ?thesis by (rule that)
  qed
  note run = run[unfolded 4 sum.case Let_def]
  show thesis by (rule that[OF 1 2 3 4 run])
qed


lemma fit_epoch_logged:
  assumes run: "fit_epoch env train vb tr prob sc (s, g, files) epoch = Inr (s', g', files')"
    and ld: "log_dir s = Some dir" "dir \<noteq> []"
  obtains m4 where
    "\<exists>st2 st3 s4 g4.
        fit_critic env train (s\<lparr>epochs := epochs s + 1\<rparr>, g, new_metrics) = Inr st2
      \<and> fit_coders env train tr prob st2 = Inr st3
      \<and> validate env vb tr st3 = Inr (s4, g4, m4)"
    "map fst m4 = METRIC_FIELDS"
    "\<forall>kv \<in> set m4. snd kv \<noteq> []"
    "fit_metrics s' = Some (epoch_record m4 epoch)"
    "history s' = history s @ [epoch_record m4 epoch]"
    "log_dir s' = Some dir"
    "files' (path_join dir ''metrics.log'')
       = Some (JsonFile (json_dump (history s @ [epoch_record m4 epoch])))"
proof -
  from run obtain st2 st3 s4 g4 m4 means where
    1: "fit_critic env train (s\<lparr>epochs := epochs s + 1\<rparr>, g, new_metrics) = Inr st2" and
    2: "fit_coders env train tr prob st2 = Inr st3" and
    3: "validate env vb tr st3 = Inr (s4, g4, m4)" and
    4: "reduce_metrics m4 = Inr means" and
    5: "(case log_dir (s4\<lparr>fit_metrics := Some (dict_set means ''epoch'' (JInt (int epoch)))\<rparr>) of
           None \<Rightarrow> Inr (s4\<lparr>fit_metrics := Some (dict_set means ''epoch'' (JInt (int epoch)))\<rparr>, g4, files)
         | Some dir \<Rightarrow>
             if dir = [] then Inr (s4\<lparr>fit_metrics := Some (dict_set means ''epoch'' (JInt (int epoch)))\<rparr>, g4, files)
             else log_epoch env dir (dict_set means ''epoch'' (JInt (int epoch))) sc epoch
                    (s4\<lparr>fit_metrics := Some (dict_set means ''epoch'' (JInt (int epoch)))\<rparr>, g4, files))
       = Inr (s', g', files')"
    by (rule fit_epoch_phases)
  from phases_frame[OF 1 2 3] have
    fr: "log_dir s4 = log_dir s" "history s4 = history s" "map fst m4 = METRIC_FIELDS"
    by (simp_all add: frame_def new_metrics_def comp_def)
  from reduce_metrics_Inr[OF 4] have
    means: "means = map (\<lambda>(k, vs). (k, JNumber (sum_list vs / real (length vs)))) m4"
    and ne: "\<forall>kv \<in> set m4. snd kv \<noteq> []"
    by simp_all
  have "map fst means = map fst m4" unfolding means by (induction m4) auto
  with fr(3) have "fst ` set means = set METRIC_FIELDS" by (metis set_map)
  with METRIC_FIELDS_facts(3) have "''epoch'' \<notin> fst ` set means" by simp
  then have rec: "dict_set means ''epoch'' (JInt (int epoch)) = epoch_record m4 epoch"
    by (simp add: dict_set_new epoch_record_def means)
  define s5 where "s5 = s4\<lparr>fit_metrics := Some (epoch_record m4 epoch)\<rparr>"
  have s5: "log_dir s5 = Some dir" "history s5 = history s" "fit_metrics s5 = Some (epoch_record m4 epoch)"
    by (simp_all add: s5_def fr ld)
  from 5 have "log_epoch env dir (epoch_record m4 epoch) sc epoch (s5, g4, files) = Inr (s', g', files')"
    unfolding rec s5_def[symmetric] by (simp add: s5 ld)
  from log_epoch_Inr[OF this] have
    s': "s' = s5\<lparr>history := history s5 @ [epoch_record m4 epoch]\<rparr>" and
    f': "files' (path_join dir ''metrics.log'')
          = Some (JsonFile (json_dump (history s5 @ [epoch_record m4 epoch])))"
    by simp_all
  show thesis
  proof (rule that[of m4])
    show "\<exists>st2 st3 s4 g4.
        fit_critic env train (s\<lparr>epochs := epochs s + 1\<rparr>, g, new_metrics) = Inr st2
      \<and> fit_coders env train tr prob st2 = Inr st3
      \<and> validate env vb tr st3 = Inr (s4, g4, m4)"
      using 1 2 3 by (intro exI conjI)
    show "map fst m4 = METRIC_FIELDS" by (rule fr(3))
    show "\<forall>kv \<in> set m4. snd kv \<noteq> []" by (rule ne)
    show "fit_metrics s' = Some (epoch_record m4 epoch)" by (simp add: s' s5)
    show "history s' = history s @ [epoch_record m4 epoch]" by (simp add: s' s5)
    show "log_dir s' = Some dir" by (simp add: s' s5)
    show "files' (path_join dir ''metrics.log'')
       = Some (JsonFile (json_dump (history s @ [epoch_record m4 epoch])))"
      using f' by (simp add: s5)
  qed
qed

lemma epoch_record_keys:
  "map fst m = METRIC_FIELDS \<Longrightarrow> map fst (epoch_record m epoch) = METRIC_FIELDS @ [''epoch'']"
proof -
  assume a: "map fst m = METRIC_FIELDS"
  have "map fst (map (\<lambda>(k, vs). (k, JNumber (sum_list vs / real (length vs)))) m) = map fst m"
    by (induction m) auto
  with a show ?thesis by (simp add: epoch_record_def)
qed


lemma for_each_append:
  "for_each body s (xs @ ys) = Inr s' \<Longrightarrow>
     \<exists>s1. for_each body s xs = Inr s1 \<and> for_each body s1 ys = Inr s'"
proof (induction xs arbitrary: s)
  case Nil
  then show ?case by simp
next
  case (Cons x xs)
  then show ?case by (cases "body s x") simp_all
qed

lemma fit_epochs_logged:
  assumes "for_each (fit_epoch env train vb tr prob sc) (s, g, files) es = Inr (s', g', files')"
    and "log_dir s = Some dir" "dir \<noteq> []"
  shows "log_dir s' = Some dir
    \<and> (\<exists>ms. length ms = length es
          \<and> (\<forall>m \<in> set ms. map fst m = METRIC_FIELDS \<and> (\<forall>kv \<in> set m. snd kv \<noteq> []))
          \<and> history s' = history s @ map (\<lambda>(m, e). epoch_record m e) (zip ms es))
    \<and> (es \<noteq> [] \<longrightarrow>
          files' (path_join dir ''metrics.log'') = Some (JsonFile (json_dump (history s'))))"
  using assms(1,2)
proof (induction es arbitrary: s g files)
  case Nil
  then show ?case by simp
next
  case (Cons e es)
  from Cons.prems(1) obtain st1 where
    e1: "fit_epoch env train vb tr prob sc (s, g, files) e = Inr st1" and
    rest: "for_each (fit_epoch env train vb tr prob sc) st1 es = Inr (s', g', files')"
    by (auto split: sum.splits)
  obtain s1 g1 f1 where st1: "st1 = (s1, g1, f1)" by (cases st1)
  from e1[unfolded st1] Cons.prems(2) assms(3) obtain m4 where
    k: "map fst m4 = METRIC_FIELDS" and
    ne: "\<forall>kv \<in> set m4. snd kv \<noteq> []" and
    h1: "history s1 = history s @ [epoch_record m4 e]" and
    l1: "log_dir s1 = Some dir" and
    w1: "f1 (path_join dir ''metrics.log'')
       = Some (JsonFile (json_dump (history s @ [epoch_record m4 e])))"
    by (rule fit_epoch_logged)
  from Cons.IH[OF rest[unfolded st1] l1] obtain ms where
    l': "log_dir s' = Some dir" and
    len: "length ms = length es" and
    h': "history s' = history s1 @ map (\<lambda>(m, e). epoch_record m e) (zip ms es)" and
    keys: "\<forall>m \<in> set ms. map fst m = METRIC_FIELDS \<and> (\<forall>kv \<in> set m. snd kv \<noteq> [])" and
    w': "es \<noteq> [] \<longrightarrow>
          files' (path_join dir ''metrics.log'') = Some (JsonFile (json_dump (history s')))"
    by blast
  have w: "files' (path_join dir ''metrics.log'') = Some (JsonFile (json_dump (history s')))"
  proof (cases "es = []")
    case True
    with rest st1 have "s' = s1" "files' = f1" by simp_all
    with w1 h1 show ?thesis by simp
  next
    case False
    with w' show ?thesis by simp
  qed
  let ?ms = "m4 # ms"
  have "length ?ms = length (e # es)" using len by simp
  moreover have "history s' = history s @ map (\<lambda>(m, e). epoch_record m e) (zip ?ms (e # es))"
    using h' h1 by simp
  moreover have "\<forall>m \<in> set ?ms. map fst m = METRIC_FIELDS \<and> (\<forall>kv \<in> set m. snd kv \<noteq> [])"
    using keys k ne by simp
  ultimately have "\<exists>ms. length ms = length (e # es)
          \<and> (\<forall>m \<in> set ms. map fst m = METRIC_FIELDS \<and> (\<forall>kv \<in> set m. snd kv \<noteq> []))
          \<and> history s' = history s @ map (\<lambda>(m, e). epoch_record m e) (zip ms (e # es))"
    by (intro exI[of _ ?ms] conjI)
  with l' w show ?case by simp
qed

lemma fit_loop:
  assumes run: "fit env train vb n tr prob (s, g, files) = Inr (s', g', files')"
    and ld: "log_dir s = Some dir" "dir \<noteq> []"
  shows "\<exists>s0 sc. log_dir s0 = Some dir \<and> history s0 = history s
      \<and> for_each (fit_epoch env train vb tr prob sc) (s0, g, files) [1..<n + 1]
          = Inr (s', g', files')"
proof -
  define s0 where "s0 = (if critic_optimizer s = None
                then s\<lparr>critic_optimizer := Some (adam_init env (critic_params s)),
                       decoder_optimizer :=
                         Some (adam_init env (decoder_params s @ encoder_params s)),
                       epochs := 0\<rparr>
                else s)"
  have s0: "log_dir s0 = Some dir" "history s0 = history s"
    by (simp_all add: s0_def ld)
  then have lg: "logging s0" by (simp add: logging_def ld)
  from run have "\<exists>sc. for_each (fit_epoch env train vb tr prob sc) (s0, g, files) [1..<n + 1]
      = Inr (s', g', files')"
    unfolding fit_def prod.case Let_def s0_def[symmetric]
    by (cases vb) (auto simp add: lg simp del: upt_Suc)
  then obtain sc where
    fe: "for_each (fit_epoch env train vb tr prob sc) (s0, g, files) [1..<n + 1] = Inr (s', g', files')"
    by blast
  from s0 fe show ?thesis by (intro exI conjI)
qed

lemma fit_logged:
  assumes run: "fit env train vb n tr prob (s, g, files) = Inr (s', g', files')"
    and ld: "log_dir s = Some dir" "dir \<noteq> []"
  shows "log_dir s' = Some dir
    \<and> (\<exists>ms. length ms = n
          \<and> (\<forall>m \<in> set ms. map fst m = METRIC_FIELDS \<and> (\<forall>kv \<in> set m. snd kv \<noteq> []))
          \<and> history s' = history s @ map (\<lambda>(m, e). epoch_record m e) (zip ms [1..<n + 1]))
    \<and> (0 < n \<longrightarrow>
          files' (path_join dir ''metrics.log'') = Some (JsonFile (json_dump (history s'))))"
proof -
  from fit_loop[OF run ld] obtain s0 sc where
    s0: "log_dir s0 = Some dir" "history s0 = history s" and
    fe: "for_each (fit_epoch env train vb tr prob sc) (s0, g, files) [1..<n + 1] = Inr (s', g', files')"
    by (elim exE conjE)
  from fit_epochs_logged[OF fe s0(1) ld(2)] show ?thesis
    by (simp add: s0 del: upt_Suc)
qed

lemma fit_epochs_prefix:
  assumes "for_each (fit_epoch env train vb tr prob sc) (s, g, files) (es @ rest) = Inr final"
    and "es \<noteq> []" and "log_dir s = Some dir" "dir \<noteq> []"
  shows "\<exists>s' g' files' ms.
      for_each (fit_epoch env train vb tr prob sc) (s, g, files) es = Inr (s', g', files')
    \<and> for_each (fit_epoch env train vb tr prob sc) (s', g', files') rest = Inr final
    \<and> length ms = length es
    \<and> (\<forall>m \<in> set ms. map fst m = METRIC_FIELDS \<and> (\<forall>kv \<in> set m. snd kv \<noteq> []))
    \<and> history s' = history s @ map (\<lambda>(m, e). epoch_record m e) (zip ms es)
    \<and> files' (path_join dir ''metrics.log'') = Some (JsonFile (json_dump (history s')))"
proof -
  from for_each_append[OF assms(1)] obtain st1 where
    a: "for_each (fit_epoch env train vb tr prob sc) (s, g, files) es = Inr st1" and
    b: "for_each (fit_epoch env train vb tr prob sc) st1 rest = Inr final"
    by (elim exE conjE)
  obtain s1 g1 f1 where st1: "st1 = (s1, g1, f1)" by (cases st1)
  from fit_epochs_logged[OF a[unfolded st1] assms(3,4)] assms(2) obtain ms where
    c: "length ms = length es"
       "\<forall>m \<in> set ms. map fst m = METRIC_FIELDS \<and> (\<forall>kv \<in> set m. snd kv \<noteq> [])"
       "history s1 = history s @ map (\<lambda>(m, e). epoch_record m e) (zip ms es)"
       "f1 (path_join dir ''metrics.log'') = Some (JsonFile (json_dump (history s1)))"
    by (elim exE conjE) (rule that; simp)
  from a[unfolded st1] b[unfolded st1] c show ?thesis by (intro exI conjI)
qed

text \<open>An epoch of the small instance ends, from any state of the model with
  its depth, its directory and its optimizers.\<close>

lemma toy_epoch_total:
  assumes "data_depth s = 1" "log_dir s = Some ''run''"
    "critic_optimizer s = Some ()" "decoder_optimizer s = Some ()"
  shows "\<exists>s' g' files'. fit_epoch toy_env [toy_cover] [toy_cover] None 0 (Some toy_cover)
      (s, g, files) e = Inr (s', g', files') \<and> data_depth s' = 1 \<and> log_dir s' = Some ''run''
      \<and> critic_optimizer s' = Some () \<and> decoder_optimizer s' = Some ()"
  using assms
  by (simp add: fit_epoch_def fit_critic_def fit_coders_def validate_def
      fit_critic_batch_def fit_coders_batch_def validate_batch_def validate_scores_def
      coders_forward_def coding_scores_def mse_loss_def binary_cross_entropy_with_logits_def
      perceptual_distance_def squeeze_def row_norms_def tmean_def encode_decode_with_def
      encode_decode_def apply_transform_def quantized_def quantize_entry_def to_long_def
      random_data_def new_metrics_def METRIC_FIELDS_def append_metric_def
      toy_env_def toy_cover_def Let_def eval_nat_numeral
      log_epoch_def generate_samples_def write_sample_def select0_def permute_120_def
      decoder_acc_def numel_def critic_score_def)

lemma epoch_record_epoch:
  assumes "map fst m = METRIC_FIELDS"
  shows "map_of (epoch_record m e) ''epoch'' = Some (JInt (int e))"
proof -
  let ?xs = "map (\<lambda>(k, vs). (k, JNumber (sum_list vs / real (length vs)))) m"
  have "map fst ?xs = map fst m" by (induction m) auto
  with assms have "fst ` set ?xs = set METRIC_FIELDS" by (metis set_map)
  with METRIC_FIELDS_facts(3) have "''epoch'' \<notin> fst ` set ?xs" by simp
  then have "map_of ?xs ''epoch'' = None" by (simp add: map_of_eq_None_iff)
  then show ?thesis by (simp add: epoch_record_def map_add_def)
qed

lemma fit_epoch_record:
  assumes "fit_epoch env train vb tr prob sc (s, g, files) epoch = Inr (s', g', files')"
    and "log_dir s = Some dir" "dir \<noteq> []"
  shows "\<exists>m. (\<exists>st2 st3 s4 g4.
            fit_critic env train (s\<lparr>epochs := epochs s + 1\<rparr>, g, new_metrics) = Inr st2
          \<and> fit_coders env train tr prob st2 = Inr st3
          \<and> validate env vb tr st3 = Inr (s4, g4, m))
        \<and> map fst m = METRIC_FIELDS
        \<and> (\<forall>kv \<in> set m. snd kv \<noteq> [])
        \<and> fit_metrics s' = Some (epoch_record m epoch)
        \<and> history s' = history s @ [epoch_record m epoch]
        \<and> files' (path_join dir ''metrics.log'')
             = Some (JsonFile (json_dump (history s @ [epoch_record m epoch])))"
proof -
  from assms obtain m where
    h: "\<exists>st2 st3 s4 g4.
        fit_critic env train (s\<lparr>epochs := epochs s + 1\<rparr>, g, new_metrics) = Inr st2
      \<and> fit_coders env train tr prob st2 = Inr st3
      \<and> validate env vb tr st3 = Inr (s4, g4, m)"
    "map fst m = METRIC_FIELDS"
    "\<forall>kv \<in> set m. snd kv \<noteq> []"
    "fit_metrics s' = Some (epoch_record m epoch)"
    "history s' = history s @ [epoch_record m epoch]"
    "files' (path_join dir ''metrics.log'')
       = Some (JsonFile (json_dump (history s @ [epoch_record m epoch])))"
    by (rule fit_epoch_logged)
  show ?thesis by (rule exI[of _ m]) (intro conjI h)
qed

lemma fit_logged_all:
  assumes run: "fit env train vb n tr prob (s, g, files) = Inr (s', g', files')"
    and ld: "log_dir s = Some dir" "dir \<noteq> []"
  shows "(\<exists>s0 sc. log_dir s0 = Some dir \<and> history s0 = history s
          \<and> for_each (fit_epoch env train vb tr prob sc) (s0, g, files) [1..<n + 1]
              = Inr (s', g', files'))
    \<and> (\<exists>ms. length ms = n
          \<and> (\<forall>m \<in> set ms. map fst m = METRIC_FIELDS \<and> (\<forall>kv \<in> set m. snd kv \<noteq> []))
          \<and> history s' = history s @ map (\<lambda>(m, e). epoch_record m e) (zip ms [1..<n + 1]))
    \<and> (0 < n \<longrightarrow>
          files' (path_join dir ''metrics.log'') = Some (JsonFile (json_dump (history s'))))"
  using fit_loop[OF run ld] fit_logged[OF run ld] by (intro conjI) (elim conjE, assumption)+

lemma metric_fields_named:
  "list_all (\<lambda>k. take 4 k = ''val.'' \<or> take 6 k = ''train.'') METRIC_FIELDS"
  by (simp add: METRIC_FIELDS_def)

lemma metric_fields_epoch_distinct: "distinct (METRIC_FIELDS @ [''epoch''])"
  using METRIC_FIELDS_facts(2,3) by simp


text \<open>
  C9. With a directory for the log (\<^verbatim>\<open>self.log_dir\<close> a string that is not
  empty), an epoch that ends has appended to the history the record of the
  epoch, which holds the mean of each of the lists of the metrics of the
  epoch, under the 20 keys of \<^verbatim>\<open>METRIC_FIELDS\<close>, and then the index of the
  epoch under \<^verbatim>\<open>epoch\<close>; and the file \<^verbatim>\<open>metrics.log\<close> of the directory
  holds, whatever it held before, the array of the objects of the history
  with that record appended. In the loop over the epochs this holds after
  every epoch: after the first \<open>k\<close> epochs the history has \<open>k\<close> more
  records, one for each epoch in their order, and the file holds the whole
  history. So it does when \<^verbatim>\<open>fit\<close> returns: after \<open>n\<close> epochs the history
  has \<open>n\<close> more records, with the indices 1 to \<open>n\<close>, and the file holds the
  whole history when \<open>n\<close> is not 0. The 20 keys are different from each
  other and from \<^verbatim>\<open>epoch\<close>, and each starts with \<^verbatim>\<open>val.\<close> or \<^verbatim>\<open>train.\<close>.
\<close>

theorem metrics_log_rewritten:
  "(fit_epoch env train vb tr prob sc (s, g, files) epoch = Inr (s', g', files')
      \<and> log_dir s = Some dir \<and> dir \<noteq> [] \<longrightarrow>
      (\<exists>m. (\<exists>st2 st3 s4 g4.
            fit_critic env train (s\<lparr>epochs := epochs s + 1\<rparr>, g, new_metrics) = Inr st2
          \<and> fit_coders env train tr prob st2 = Inr st3
          \<and> validate env vb tr st3 = Inr (s4, g4, m))
        \<and> map fst m = METRIC_FIELDS
        \<and> (\<forall>kv \<in> set m. snd kv \<noteq> [])
        \<and> fit_metrics s' = Some (epoch_record m epoch)
        \<and> history s' = history s @ [epoch_record m epoch]
        \<and> files' (path_join dir ''metrics.log'')
             = Some (JsonFile (json_dump (history s @ [epoch_record m epoch])))))
   \<and> (for_each (fit_epoch env train vb tr prob sc) (s, g, files) (es @ rest) = Inr final
      \<and> es \<noteq> [] \<and> log_dir s = Some dir \<and> dir \<noteq> [] \<longrightarrow>
      (\<exists>s1 g1 files1 ms.
          for_each (fit_epoch env train vb tr prob sc) (s, g, files) es = Inr (s1, g1, files1)
        \<and> for_each (fit_epoch env train vb tr prob sc) (s1, g1, files1) rest = Inr final
        \<and> length ms = length es
        \<and> (\<forall>m \<in> set ms. map fst m = METRIC_FIELDS \<and> (\<forall>kv \<in> set m. snd kv \<noteq> []))
        \<and> history s1 = history s @ map (\<lambda>(m, e). epoch_record m e) (zip ms es)
        \<and> files1 (path_join dir ''metrics.log'') = Some (JsonFile (json_dump (history s1)))))
   \<and> (fit env train vb n tr prob (s, g, files) = Inr (s', g', files')
      \<and> log_dir s = Some dir \<and> dir \<noteq> [] \<longrightarrow>
        (\<exists>s0 sc. log_dir s0 = Some dir \<and> history s0 = history s
          \<and> for_each (fit_epoch env train vb tr prob sc) (s0, g, files) [1..<n + 1]
              = Inr (s', g', files'))
      \<and> (\<exists>ms. length ms = n
          \<and> (\<forall>m \<in> set ms. map fst m = METRIC_FIELDS \<and> (\<forall>kv \<in> set m. snd kv \<noteq> []))
          \<and> history s' = history s @ map (\<lambda>(m, e). epoch_record m e) (zip ms [1..<n + 1]))
      \<and> (0 < n \<longrightarrow>
          files' (path_join dir ''metrics.log'') = Some (JsonFile (json_dump (history s')))))
   \<and> json_dump records = JArray (map JObject records)
   \<and> epoch_record m epoch =
        map (\<lambda>(k, vs). (k, JNumber (sum_list vs / real (length vs)))) m
          @ [(''epoch'', JInt (int epoch))]
   \<and> length METRIC_FIELDS = 20
   \<and> distinct (METRIC_FIELDS @ [''epoch''])
   \<and> list_all (\<lambda>k. take 4 k = ''val.'' \<or> take 6 k = ''train.'') METRIC_FIELDS"
proof (intro conjI impI)
  assume "fit_epoch env train vb tr prob sc (s, g, files) epoch = Inr (s', g', files')
      \<and> log_dir s = Some dir \<and> dir \<noteq> []"
  then show "\<exists>m. (\<exists>st2 st3 s4 g4.
            fit_critic env train (s\<lparr>epochs := epochs s + 1\<rparr>, g, new_metrics) = Inr st2
          \<and> fit_coders env train tr prob st2 = Inr st3
          \<and> validate env vb tr st3 = Inr (s4, g4, m))
        \<and> map fst m = METRIC_FIELDS
        \<and> (\<forall>kv \<in> set m. snd kv \<noteq> [])
        \<and> fit_metrics s' = Some (epoch_record m epoch)
        \<and> history s' = history s @ [epoch_record m epoch]
        \<and> files' (path_join dir ''metrics.log'')
             = Some (JsonFile (json_dump (history s @ [epoch_record m epoch])))"
    by (elim conjE) (rule fit_epoch_record)
next
  assume "for_each (fit_epoch env train vb tr prob sc) (s, g, files) (es @ rest) = Inr final
      \<and> es \<noteq> [] \<and> log_dir s = Some dir \<and> dir \<noteq> []"
  then show "\<exists>s1 g1 files1 ms.
          for_each (fit_epoch env train vb tr prob sc) (s, g, files) es = Inr (s1, g1, files1)
        \<and> for_each (fit_epoch env train vb tr prob sc) (s1, g1, files1) rest = Inr final
        \<and> length ms = length es
        \<and> (\<forall>m \<in> set ms. map fst m = METRIC_FIELDS \<and> (\<forall>kv \<in> set m. snd kv \<noteq> []))
        \<and> history s1 = history s @ map (\<lambda>(m, e). epoch_record m e) (zip ms es)
        \<and> files1 (path_join dir ''metrics.log'') = Some (JsonFile (json_dump (history s1)))"
    by (elim conjE) (rule fit_epochs_prefix)
next
  assume a: "fit env train vb n tr prob (s, g, files) = Inr (s', g', files')
      \<and> log_dir s = Some dir \<and> dir \<noteq> []"
  then have r: "fit env train vb n tr prob (s, g, files) = Inr (s', g', files')"
    and l: "log_dir s = Some dir" "dir \<noteq> []" by simp_all
  note all = fit_logged_all[OF r l]
  show "\<exists>s0 sc. log_dir s0 = Some dir \<and> history s0 = history s
          \<and> for_each (fit_epoch env train vb tr prob sc) (s0, g, files) [1..<n + 1]
              = Inr (s', g', files')"
    by (rule all[THEN conjunct1])
  show "\<exists>ms. length ms = n
          \<and> (\<forall>m \<in> set ms. map fst m = METRIC_FIELDS \<and> (\<forall>kv \<in> set m. snd kv \<noteq> []))
          \<and> history s' = history s @ map (\<lambda>(m, e). epoch_record m e) (zip ms [1..<n + 1])"
    by (rule all[THEN conjunct2, THEN conjunct1])
  show "files' (path_join dir ''metrics.log'') = Some (JsonFile (json_dump (history s')))"
    if "0 < n"
    using all[THEN conjunct2, THEN conjunct2] that by (rule mp)
next
  show "json_dump records = JArray (map JObject records)" by (rule json_dump_def)
next
  show "epoch_record m epoch =
        map (\<lambda>(k, vs). (k, JNumber (sum_list vs / real (length vs)))) m
          @ [(''epoch'', JInt (int epoch))]" by (rule epoch_record_def)
next
  show "length METRIC_FIELDS = 20" by (rule METRIC_FIELDS_facts(1))
next
  show "distinct (METRIC_FIELDS @ [''epoch''])" by (rule metric_fields_epoch_distinct)
next
  show "list_all (\<lambda>k. take 4 k = ''val.'' \<or> take 6 k = ''train.'') METRIC_FIELDS"
    by (rule metric_fields_named)
qed

text \<open>
  Two epochs of the small instance, on a directory whose \<^verbatim>\<open>metrics.log\<close>
  holds an older array: after the first epoch the file holds the record of
  that epoch alone, after the second the two records.
\<close>

theorem metrics_log_rewritten_witness:
  "\<exists>s1 g1 files1 s2 g2 files2 r1 r2.
      for_each (fit_epoch toy_env [toy_cover] [toy_cover] None 0 (Some toy_cover))
        (toy_model, toy_rng, stale_files) [1] = Inr (s1, g1, files1)
    \<and> history s1 = [r1]
    \<and> files1 ''run/metrics.log'' = Some (JsonFile (JArray [JObject r1]))
    \<and> fit toy_env [toy_cover] [toy_cover] 2 None 0 (toy_model, toy_rng, stale_files)
        = Inr (s2, g2, files2)
    \<and> history s2 = [r1, r2]
    \<and> files2 ''run/metrics.log'' = Some (JsonFile (JArray [JObject r1, JObject r2]))
    \<and> map fst r1 = METRIC_FIELDS @ [''epoch''] \<and> map_of r1 ''epoch'' = Some (JInt 1)
    \<and> map fst r2 = METRIC_FIELDS @ [''epoch''] \<and> map_of r2 ''epoch'' = Some (JInt 2)
    \<and> stale_files ''run/metrics.log'' = Some (JsonFile (JArray [JInt 7]))"
proof -
  let ?body = "fit_epoch toy_env [toy_cover] [toy_cover] None 0 (Some toy_cover)"
  let ?init = "(toy_model, toy_rng, stale_files)"
  have tm: "data_depth toy_model = 1" "log_dir toy_model = Some ''run''"
    "critic_optimizer toy_model = Some ()" "decoder_optimizer toy_model = Some ()"
    "history toy_model = []"
    by (simp_all add: toy_model_def)
  have pj: "path_join ''run'' ''metrics.log'' = ''run/metrics.log''"
    by (simp add: path_join_def)
  have ne: "''run'' \<noteq> []" by simp
  from toy_epoch_total[OF tm(1-4), of toy_rng stale_files 1] obtain s1 g1 f1 where
    e1: "?body ?init 1 = Inr (s1, g1, f1)" and
    s1: "data_depth s1 = 1" "log_dir s1 = Some ''run''"
      "critic_optimizer s1 = Some ()" "decoder_optimizer s1 = Some ()"
    by (elim exE conjE) (rule that; assumption)
  from toy_epoch_total[OF s1, of g1 f1 2] obtain s2 g2 f2 where
    e2: "?body (s1, g1, f1) 2 = Inr (s2, g2, f2)"
    by (elim exE conjE) (rule that; assumption)
  have l1: "for_each ?body ?init [1] = Inr (s1, g1, f1)"
    by (simp only: for_each.simps e1 sum.case)
  have l2: "for_each ?body ?init ([1] @ [2]) = Inr (s2, g2, f2)"
    by (simp only: append.simps for_each.simps e1 e2 sum.case)
  have up: "[1..<2 + 1] = [1, 2::nat]"
    by (simp add: upt_rec)
  have lg: "logging toy_model" by (simp add: logging_def tm)
  have run: "fit toy_env [toy_cover] [toy_cover] 2 None 0 ?init = Inr (s2, g2, f2)"
    unfolding fit_def prod.case Let_def up
    using l2 by (simp add: tm lg)
  have p1: "for_each ?body ?init ([1] @ [2]) = Inr (s2, g2, f2)
      \<and> [1::nat] \<noteq> [] \<and> log_dir toy_model = Some ''run'' \<and> ''run'' \<noteq> []"
    using l2 tm(2) by simp
  have "\<exists>s1' g1' files1' ms.
          for_each ?body ?init [1] = Inr (s1', g1', files1')
        \<and> for_each ?body (s1', g1', files1') [2] = Inr (s2, g2, f2)
        \<and> length ms = length [1::nat]
        \<and> (\<forall>m \<in> set ms. map fst m = METRIC_FIELDS \<and> (\<forall>kv \<in> set m. snd kv \<noteq> []))
        \<and> history s1' = history toy_model @ map (\<lambda>(m, e). epoch_record m e) (zip ms [1])
        \<and> files1' (path_join ''run'' ''metrics.log'') = Some (JsonFile (json_dump (history s1')))"
    using metrics_log_rewritten[where env = toy_env and train = "[toy_cover]" and vb = "[toy_cover]"
        and tr = None and prob = 0 and sc = "Some toy_cover" and s = toy_model and g = toy_rng
        and files = stale_files and es = "[1]" and rest = "[2]" and final = "(s2, g2, f2)"
        and dir = "''run''", THEN conjunct2, THEN conjunct1, THEN mp, OF p1] .
  then obtain ms where
    a: "length ms = length [1::nat]"
       "\<forall>m \<in> set ms. map fst m = METRIC_FIELDS \<and> (\<forall>kv \<in> set m. snd kv \<noteq> [])"
       "history s1 = history toy_model @ map (\<lambda>(m, e). epoch_record m e) (zip ms [1])"
       "f1 (path_join ''run'' ''metrics.log'') = Some (JsonFile (json_dump (history s1)))"
    unfolding l1 by (elim exE conjE) (rule that; simp)
  from a(1) obtain m1 where ms: "ms = [m1]" by (cases ms) simp_all
  define r1 where "r1 = epoch_record m1 1"
  from a(2) have k1: "map fst m1 = METRIC_FIELDS" by (simp add: ms)
  have h1: "history s1 = [r1]" using a(3) by (simp add: ms tm r1_def)
  have w1: "f1 ''run/metrics.log'' = Some (JsonFile (JArray [JObject r1]))"
    using a(4) by (simp add: pj h1 json_dump_def)
  have p2: "?body (s1, g1, f1) 2 = Inr (s2, g2, f2)
      \<and> log_dir s1 = Some ''run'' \<and> ''run'' \<noteq> []"
    using e2 s1(2) by simp
  have "\<exists>m. (\<exists>st2 st3 s4 g4.
            fit_critic toy_env [toy_cover] (s1\<lparr>epochs := epochs s1 + 1\<rparr>, g1, new_metrics) = Inr st2
          \<and> fit_coders toy_env [toy_cover] None 0 st2 = Inr st3
          \<and> validate toy_env [toy_cover] None st3 = Inr (s4, g4, m))
        \<and> map fst m = METRIC_FIELDS
        \<and> (\<forall>kv \<in> set m. snd kv \<noteq> [])
        \<and> fit_metrics s2 = Some (epoch_record m 2)
        \<and> history s2 = history s1 @ [epoch_record m 2]
        \<and> f2 (path_join ''run'' ''metrics.log'')
             = Some (JsonFile (json_dump (history s1 @ [epoch_record m 2])))"
    using metrics_log_rewritten[where env = toy_env and train = "[toy_cover]" and vb = "[toy_cover]"
        and tr = None and prob = 0 and sc = "Some toy_cover" and s = s1 and g = g1
        and files = f1 and epoch = 2 and s' = s2 and g' = g2 and files' = f2
        and dir = "''run''", THEN conjunct1, THEN mp, OF p2] .
  then obtain m2 where
    b: "map fst m2 = METRIC_FIELDS" "history s2 = history s1 @ [epoch_record m2 2]"
    by (elim exE conjE) (rule that; assumption)
  define r2 where "r2 = epoch_record m2 2"
  have h2: "history s2 = [r1, r2]" using b(2) by (simp add: h1 r2_def)
  have p3: "fit toy_env [toy_cover] [toy_cover] 2 None 0 ?init = Inr (s2, g2, f2)
      \<and> log_dir toy_model = Some ''run'' \<and> ''run'' \<noteq> []"
    using run tm(2) by simp
  have "0 < (2::nat) \<longrightarrow>
      f2 (path_join ''run'' ''metrics.log'') = Some (JsonFile (json_dump (history s2)))"
    using metrics_log_rewritten[where env = toy_env and train = "[toy_cover]" and vb = "[toy_cover]"
        and tr = None and prob = 0 and n = 2 and s = toy_model and g = toy_rng
        and files = stale_files and s' = s2 and g' = g2 and files' = f2
        and dir = "''run''", THEN conjunct2, THEN conjunct2, THEN conjunct1, THEN mp, OF p3,
        THEN conjunct2, THEN conjunct2] .
  then have w2: "f2 ''run/metrics.log'' = Some (JsonFile (JArray [JObject r1, JObject r2]))"
    by (simp add: pj h2 json_dump_def)
  have k: "map fst r1 = METRIC_FIELDS @ [''epoch'']" "map fst r2 = METRIC_FIELDS @ [''epoch'']"
    unfolding r1_def r2_def using k1 b(1) by (simp_all add: epoch_record_keys)
  have e: "map_of r1 ''epoch'' = Some (JInt 1)" "map_of r2 ''epoch'' = Some (JInt 2)"
    unfolding r1_def r2_def using epoch_record_epoch[OF k1, of 1] epoch_record_epoch[OF b(1), of 2]
    by simp_all
  have st: "stale_files ''run/metrics.log'' = Some (JsonFile (JArray [JInt 7]))"
    by (simp add: stale_files_def)
  from l1 h1 w1 run h2 w2 k e st show ?thesis by (intro exI conjI)
qed

end
